theory Spec2Isabelle
  imports Main "HOL-Library.Word"
begin


section \<open>Common data of the NPU plugin model\<close>

text \<open>
  Bytes are 8-bit words and a blob (\<open>BlobContainer\<close>, \<open>std::vector<uint8_t>\<close>) is a list
  of them. A driver handle (\<open>ze_graph_handle_t\<close>) is an opaque number; the null pointer is
  \<open>None\<close>. A driver status code is either success or a numbered error.
\<close>

type_synonym byte = "8 word"
type_synonym blob = "byte list"
type_synonym ze_graph_handle = nat

datatype ze_result = ZE_RESULT_SUCCESS | ZE_RESULT_ERROR nat

text \<open>
  Every way in which the C++ leaves a function other than by returning:
  \<open>OPENVINO_ASSERT\<close> (message and offending name), \<open>OPENVINO_THROW\<close>,
  \<open>THROW_ON_FAIL_FOR_LEVELZERO_EXT\<close> (call name and status), an exception raised inside
  a collaborator whose code is outside the sources (compiler library, driver wrapper),
  \<open>std::out_of_range\<close> of \<open>vector::at\<close>, and the places where the C++ has undefined
  behaviour (unchecked \<open>operator[]\<close>, \<open>back()\<close> of an empty vector, null dereference).
\<close>

datatype error =
    AssertFailed string string
  | Thrown string
  | LevelZeroFailure string ze_result
  | CollaboratorFailure string
  | OutOfRange
  | UndefinedBehaviour string

datatype log_level = LOG_NONE | LOG_ERROR | LOG_WARNING | LOG_INFO | LOG_DEBUG | LOG_TRACE

text \<open>
  \<open>ov::log::Level\<close> is ordered \<open>NO < ERR < WARNING < INFO < DEBUG < TRACE\<close>.
\<close>

fun level_rank :: "log_level \<Rightarrow> nat" where
  "level_rank LOG_NONE = 0"
| "level_rank LOG_ERROR = 1"
| "level_rank LOG_WARNING = 2"
| "level_rank LOG_INFO = 3"
| "level_rank LOG_DEBUG = 4"
| "level_rank LOG_TRACE = 5"

text \<open>
  A log entry is one call of a \<open>Logger\<close> method, with the level of the method and what
  was passed. Messages assembled from numbers keep the numbers (\<open>BlobSizeHash\<close> is
  "Blob size: n, hash: h", \<open>BlobSizes\<close> is "Blob size: n / Blob size with weights: m").
\<close>

datatype log_msg = Text string | BlobSizeHash nat "32 word" | BlobSizes nat nat

datatype log_entry = Log log_level log_msg

text \<open>
  An outcome is what a call did to the log, and either the exception that left it or
  its return value.
\<close>

type_synonym 'a outcome = "log_entry list \<times> (error + 'a)"

definition ret :: "'a \<Rightarrow> 'a outcome" where
  "ret x = ([], Inr x)"

definition throw :: "error \<Rightarrow> 'a outcome" where
  "throw e = ([], Inl e)"

definition say :: "log_level \<Rightarrow> string \<Rightarrow> unit outcome" where
  "say l s = ([Log l (Text s)], Inr ())"

definition and_then :: "'a outcome \<Rightarrow> ('a \<Rightarrow> 'b outcome) \<Rightarrow> 'b outcome" where
  "and_then m f =
     (case m of
        (l1, Inl e) \<Rightarrow> (l1, Inl e)
      | (l1, Inr x) \<Rightarrow> (case f x of (l2, r) \<Rightarrow> (l1 @ l2, r)))"

definition lift :: "error + 'a \<Rightarrow> 'a outcome" where
  "lift r = ([], r)"

record network_metadata =
  name :: string

record network_description =
  metadata :: network_metadata
  compiledNetwork :: blob

section \<open>Configuration and driver collaborators\<close>

datatype batch_mode = BATCH_AUTO | BATCH_COMPILER | BATCH_PLUGIN

record config =
  LOG_LEVEL :: log_level
  CREATE_EXECUTOR :: bool
  DEFER_WEIGHTS_LOAD :: bool
  SEPARATE_WEIGHTS_VERSION :: nat
  TURBO :: "bool option"
  MODEL_PRIORITY :: nat
  WORKLOAD_TYPE :: "nat option"
  BATCH_MODE :: batch_mode
  RUN_INFERENCES_SEQUENTIALLY :: bool

datatype ze_graph_argument_type = ZE_GRAPH_ARGUMENT_TYPE_INPUT | ZE_GRAPH_ARGUMENT_TYPE_OUTPUT

record ArgumentDescriptor =
  info :: ze_graph_argument_type
  idx :: "32 word"

record CommandQueue =
  cq_priority :: nat
  cq_ordinal :: nat
  cq_turbo :: bool

text \<open>
  The operations of \<open>ZeGraphExtWrappers\<close>, of the graph DDI table, of \<open>zeroUtils\<close>, of
  the \<open>CommandQueue\<close> constructor and of the \<open>IGraph\<close> base class that the sources call
  but do not define. Each is a parameter:
  a call that can throw returns a sum or an optional error, a DDI entry returns its status
  code. \<open>_zeGraphExt\<close> and \<open>_zeroInitStruct\<close> are created together by the adapter's
  constructor (both null or both set), so one optional value of this record stands for
  the pair.
\<close>

record ze_graph_ext =
  getGraphHandle :: "blob \<Rightarrow> error + ze_graph_handle"
  pfnGetProperties :: "ze_graph_handle \<Rightarrow> ze_result \<times> nat"
  pfnGetArgumentProperties3 :: "ze_graph_handle \<Rightarrow> nat \<Rightarrow> ze_result \<times> ze_graph_argument_type"
  findCommandQueueGroupOrdinal :: "error + nat"
  createCommandQueue :: "nat \<Rightarrow> nat \<Rightarrow> bool \<Rightarrow> error option"
  set_workload_type :: "CommandQueue \<Rightarrow> nat \<Rightarrow> error option"
  initializeGraph :: "ze_graph_handle \<Rightarrow> nat \<Rightarrow> error option"
  get_batch_size :: "network_metadata \<Rightarrow> nat option"
  setGraphArgumentValue :: "ze_graph_handle option \<Rightarrow> 32 word \<Rightarrow> 64 word \<Rightarrow> error option"
  destroyGraph :: "ze_graph_handle \<Rightarrow> ze_result"

section \<open>The graph artifact (\<open>PluginGraph\<close>)\<close>

text \<open>
  The fields of \<open>PluginGraph\<close> and of its base \<open>IGraph\<close> that the sources read or write.
  \<open>_last_submitted_event\<close> is a vector of event pointers; \<open>resize\<close> fills it with null
  slots.
\<close>

record PluginGraph =
  zeGraphExt :: "ze_graph_ext option"
  handle :: "ze_graph_handle option"
  g_metadata :: network_metadata
  blobPtr :: blob
  g_log_level :: log_level
  input_descriptors :: "ArgumentDescriptor list"
  output_descriptors :: "ArgumentDescriptor list"
  command_queue_group_ordinal :: nat
  command_queue :: "CommandQueue option"
  batch_size :: "nat option"
  last_submitted_event :: "nat option list"

text \<open>
  \<open>THROW_ON_FAIL_FOR_LEVELZERO_EXT\<close>: any status other than success throws, carrying the
  name of the failed call.
\<close>

definition throw_on_fail :: "string \<Rightarrow> ze_result \<Rightarrow> unit outcome" where
  "throw_on_fail step r =
     (if r = ZE_RESULT_SUCCESS then ret () else throw (LevelZeroFailure step r))"

definition opt_throw :: "error option \<Rightarrow> unit outcome" where
  "opt_throw r = (case r of None \<Rightarrow> ret () | Some e \<Rightarrow> throw e)"

text \<open>
  The loop of \<open>initialize\<close> over the argument indices \<open>0 .. numGraphArgs - 1\<close>: each
  argument is queried and appended to the input or to the output descriptors.
\<close>

fun get_arguments ::
  "ze_graph_ext \<Rightarrow> ze_graph_handle \<Rightarrow> nat list \<Rightarrow> PluginGraph \<Rightarrow> PluginGraph outcome" where
  "get_arguments ze h [] g = ret g"
| "get_arguments ze h (index # rest) g =
     (case pfnGetArgumentProperties3 ze h index of (result, arg3) \<Rightarrow>
        and_then (throw_on_fail ''pfnGetArgumentProperties3'' result) (\<lambda>_.
          if arg3 = ZE_GRAPH_ARGUMENT_TYPE_INPUT
          then get_arguments ze h rest
                 (g\<lparr>input_descriptors :=
                       input_descriptors g @ [\<lparr>info = arg3, idx = of_nat index\<rparr>]\<rparr>)
          else get_arguments ze h rest
                 (g\<lparr>output_descriptors :=
                       output_descriptors g @ [\<lparr>info = arg3, idx = of_nat index\<rparr>]\<rparr>)))"

text \<open>
  \<open>initialize\<close> does nothing without a driver or without a handle. Otherwise it queries
  the graph's arguments, finds the queue group, creates the command queue (its priority
  is kept as configured), applies the workload type, initializes the graph in the driver,
  computes the batch size unless the compiler decides it, and sizes the event slots for
  sequential runs. When a call throws, the exception is the outcome and the partly
  initialized graph is dropped.
\<close>

definition initialize :: "config \<Rightarrow> PluginGraph \<Rightarrow> PluginGraph outcome" where
  "initialize cfg g =
     (case (zeGraphExt g, handle g) of
        (Some ze, Some h) \<Rightarrow>
          and_then (say LOG_DEBUG ''Graph initialize start'') (\<lambda>_.
          and_then (say LOG_DEBUG ''performing pfnGetProperties'') (\<lambda>_.
          case pfnGetProperties ze h of (result, numGraphArgs) \<Rightarrow>
          and_then (throw_on_fail ''pfnGetProperties'' result) (\<lambda>_.
          and_then (say LOG_DEBUG ''performing pfnGetArgumentProperties3'') (\<lambda>_.
          and_then (get_arguments ze h [0..<numGraphArgs] g) (\<lambda>g1.
          and_then (lift (findCommandQueueGroupOrdinal ze)) (\<lambda>ordinal.
          let turbo = (case TURBO cfg of None \<Rightarrow> False | Some t \<Rightarrow> t);
              queue = \<lparr>cq_priority = MODEL_PRIORITY cfg, cq_ordinal = ordinal,
                       cq_turbo = turbo\<rparr>;
              g2 = g1\<lparr>command_queue_group_ordinal := ordinal, command_queue := Some queue\<rparr>
          in
          and_then (opt_throw (createCommandQueue ze (MODEL_PRIORITY cfg) ordinal turbo)) (\<lambda>_.
          and_then (case WORKLOAD_TYPE cfg of
                      None \<Rightarrow> ret ()
                    | Some w \<Rightarrow> opt_throw (set_workload_type ze queue w)) (\<lambda>_.
          and_then (opt_throw (initializeGraph ze h ordinal)) (\<lambda>_.
          let g3 = (if BATCH_MODE cfg \<noteq> BATCH_COMPILER
                    then g2\<lparr>batch_size := get_batch_size ze (g_metadata g2)\<rparr> else g2);
              g4 = (if RUN_INFERENCES_SEQUENTIALLY cfg
                    then g3\<lparr>last_submitted_event :=
                              take (case batch_size g3 of None \<Rightarrow> 1 | Some b \<Rightarrow> b)
                                   (last_submitted_event g3)
                              @ replicate ((case batch_size g3 of None \<Rightarrow> 1 | Some b \<Rightarrow> b)
                                           - length (last_submitted_event g3)) None\<rparr>
                    else g3)
          in
          and_then (say LOG_DEBUG ''Graph initialize finish'') (\<lambda>_. ret g4))))))))))
      | _ \<Rightarrow> ret g)"

text \<open>
  The constructor stores its arguments and initializes the graph unless the
  configuration defers it.
\<close>

definition new_PluginGraph ::
  "ze_graph_ext option \<Rightarrow> ze_graph_handle option \<Rightarrow> network_metadata \<Rightarrow> blob \<Rightarrow> config
     \<Rightarrow> PluginGraph outcome" where
  "new_PluginGraph ze graphHandle md blobp cfg =
     (let g = \<lparr>zeGraphExt = ze, handle = graphHandle, g_metadata = md, blobPtr = blobp,
                g_log_level = LOG_LEVEL cfg,
                input_descriptors = [], output_descriptors = [],
                command_queue_group_ordinal = 0, command_queue = None,
                batch_size = None, last_submitted_event = []\<rparr>
      in if \<not> CREATE_EXECUTOR cfg \<or> DEFER_WEIGHTS_LOAD cfg
         then and_then
                (say LOG_INFO (''Graph initialize is deferred from the '' @ CHR 0x22 # ''Graph''
                               @ CHR 0x22 # '' constructor''))
                (\<lambda>_. ret g)
         else initialize cfg g)"

section \<open>The compiler adapter (\<open>PluginCompilerAdapter\<close>)\<close>

text \<open>
  The compiler library (\<open>ICompiler\<close>) is loaded at run time and is a parameter. A call
  returns its value or the exception it raised. \<open>compileWS_v2\<close> and \<open>compileWS_v3\<close> are
  called repeatedly; their last argument is the number of the call (which the adapter
  passes explicitly to \<open>compileWS_v3\<close> as \<open>i++\<close>, and which stands for the compiler's own
  progress in \<open>compileWS_v2\<close>), and \<open>None\<close> is a null description.
\<close>

record 'm ICompiler =
  compile_c :: "'m \<Rightarrow> config \<Rightarrow> error + network_description"
  compileWS_v1 :: "'m \<Rightarrow> config \<Rightarrow> error + network_description list"
  compileWS_v2 :: "'m \<Rightarrow> config \<Rightarrow> nat \<Rightarrow> error + network_description option"
  compileWS_v3 :: "'m \<Rightarrow> config \<Rightarrow> nat \<Rightarrow> error + network_description option"
  parse_c :: "blob \<Rightarrow> config \<Rightarrow> error + network_metadata"

record 'm PluginCompilerAdapter =
  compiler :: "'m ICompiler"
  a_zeGraphExt :: "ze_graph_ext option"

definition starts_with :: "string \<Rightarrow> string \<Rightarrow> bool" where
  "starts_with str prefix = (take (length prefix) str = prefix)"

definition isInit :: "string \<Rightarrow> bool" where
  "isInit nm = starts_with nm ''init''"

definition isMain :: "string \<Rightarrow> bool" where
  "isMain nm = starts_with nm ''main''"

definition no_handle_msg :: string where
  "no_handle_msg = ''Failed to obtain the level zero graph handle. Inference requests for this model are not allowed. Only exports are available''"

text \<open>
  The guarded \<open>try { graphHandle = getGraphHandle(...) } catch (...) { info }\<close> block of
  \<open>compile\<close> and of the version 1 loop: with no driver the handle stays null, and every
  exception of the driver call is swallowed and logged.
\<close>

definition try_getGraphHandle :: "ze_graph_ext option \<Rightarrow> blob \<Rightarrow> ze_graph_handle option outcome" where
  "try_getGraphHandle ze b =
     (case ze of
        None \<Rightarrow> ret None
      | Some z \<Rightarrow>
          (case getGraphHandle z b of
             Inr h \<Rightarrow> ret (Some h)
           | Inl e \<Rightarrow> and_then (say LOG_INFO no_handle_msg) (\<lambda>_. ret None)))"

definition compile ::
  "'m PluginCompilerAdapter \<Rightarrow> 'm \<Rightarrow> config \<Rightarrow> PluginGraph outcome" where
  "compile a model cfg =
     and_then (say LOG_DEBUG ''compile start'') (\<lambda>_.
     and_then (lift (compile_c (compiler a) model cfg)) (\<lambda>networkDesc.
     and_then (say LOG_DEBUG ''compile end'') (\<lambda>_.
     and_then (try_getGraphHandle (a_zeGraphExt a) (compiledNetwork networkDesc)) (\<lambda>graphHandle.
     new_PluginGraph (a_zeGraphExt a) graphHandle (metadata networkDesc)
       (compiledNetwork networkDesc) cfg))))"

text \<open>In \<open>parse\<close> the driver call is not guarded: its exception leaves \<open>parse\<close>.\<close>

definition parse ::
  "'m PluginCompilerAdapter \<Rightarrow> blob \<Rightarrow> config \<Rightarrow> PluginGraph outcome" where
  "parse a network cfg =
     and_then (say LOG_DEBUG ''parse start'') (\<lambda>_.
     and_then (lift (parse_c (compiler a) network cfg)) (\<lambda>networkMeta.
     and_then (say LOG_DEBUG ''parse end'') (\<lambda>_.
     and_then (case a_zeGraphExt a of
                 None \<Rightarrow> ret None
               | Some z \<Rightarrow> and_then (lift (getGraphHandle z network)) (\<lambda>h. ret (Some h)))
       (\<lambda>graphHandle.
     new_PluginGraph (a_zeGraphExt a) graphHandle networkMeta network cfg))))"

text \<open>
  Version 1: every description of the returned vector is wrapped, in order, each with
  its own guarded handle realization.
\<close>

fun wrap_descriptions ::
  "ze_graph_ext option \<Rightarrow> config \<Rightarrow> network_description list \<Rightarrow> PluginGraph list
     \<Rightarrow> PluginGraph list outcome" where
  "wrap_descriptions ze cfg [] results = ret results"
| "wrap_descriptions ze cfg (networkDesc # rest) results =
     and_then (try_getGraphHandle ze (compiledNetwork networkDesc)) (\<lambda>graphHandle.
     and_then (new_PluginGraph ze graphHandle (metadata networkDesc)
                 (compiledNetwork networkDesc) cfg) (\<lambda>g.
     wrap_descriptions ze cfg rest (results @ [g])))"

definition compileWS_version1 ::
  "'m PluginCompilerAdapter \<Rightarrow> 'm \<Rightarrow> config \<Rightarrow> PluginGraph list outcome" where
  "compileWS_version1 a model cfg =
     and_then (lift (compileWS_v1 (compiler a) model cfg)) (\<lambda>initMainNetworkDescriptions.
       if initMainNetworkDescriptions = []
       then throw (UndefinedBehaviour ''back() of an empty vector'')
       else if \<not> isMain (name (metadata (last initMainNetworkDescriptions)))
       then throw (AssertFailed ''Unexpected network name for main:''
                     (name (metadata (last initMainNetworkDescriptions))))
       else wrap_descriptions (a_zeGraphExt a) cfg initMainNetworkDescriptions [])"

text \<open>
  Versions 2 and 3: the \<open>while (auto networkDescription = compile(...))\<close> loop. \<open>call i\<close>
  is the \<open>i\<close>-th call of the compiler. The loop ends on a null description, on a "main"
  description (kept), or on the assertion; an "init" description is appended to
  \<open>initDscrs\<close> and the loop continues. The result holds \<open>initDscrs\<close>,
  \<open>mainNetworkDescription\<close> (null unless a "main" was met) and the number of compiler
  calls made. A compiler that answers "init" for ever keeps the loop running: then the
  value is \<open>None\<close>.
\<close>

partial_function (option) collect_segments ::
  "(nat \<Rightarrow> error + network_description option) \<Rightarrow> nat \<Rightarrow> network_description list
     \<Rightarrow> (error + network_description list \<times> network_description option \<times> nat) option" where
  "collect_segments call i initDscrs =
     (case call i of
        Inl e \<Rightarrow> Some (Inl e)
      | Inr None \<Rightarrow> Some (Inr (initDscrs, None, Suc i))
      | Inr (Some networkDescription) \<Rightarrow>
          if isInit (name (metadata networkDescription))
          then collect_segments call (Suc i) (initDscrs @ [networkDescription])
          else if \<not> isMain (name (metadata networkDescription))
          then Some (Inl (AssertFailed ''Unexpected network name: ''
                            (name (metadata networkDescription))))
          else Some (Inr (initDscrs, Some networkDescription, Suc i)))"

text \<open>
  \<open>initNetworkDescription = std::move(initDscrs[0])\<close>: the index is not checked, so on an
  empty vector the behaviour is undefined.
\<close>

definition first_init :: "network_description list \<Rightarrow> network_description option" where
  "first_init initDscrs = (case initDscrs of [] \<Rightarrow> None | d # _ \<Rightarrow> Some d)"

text \<open>
  The one \<open>try\<close> block after the \<open>switch\<close> realizes the init handle and then the main
  handle: an exception of the first call leaves both null, one of the second leaves the
  main handle null. Dereferencing a null \<open>mainNetworkDescription\<close> is undefined.
\<close>

definition realize_init_main ::
  "ze_graph_ext option \<Rightarrow> network_description \<Rightarrow> network_description option
     \<Rightarrow> (ze_graph_handle option \<times> ze_graph_handle option) outcome" where
  "realize_init_main ze initNetworkDescription mainNetworkDescription =
     (case ze of
        None \<Rightarrow> ret (None, None)
      | Some z \<Rightarrow>
          (case getGraphHandle z (compiledNetwork initNetworkDescription) of
             Inl e \<Rightarrow> and_then (say LOG_INFO no_handle_msg) (\<lambda>_. ret (None, None))
           | Inr hi \<Rightarrow>
               (case mainNetworkDescription of
                  None \<Rightarrow> throw (UndefinedBehaviour ''mainNetworkDescription is null'')
                | Some mainDesc \<Rightarrow>
                    (case getGraphHandle z (compiledNetwork mainDesc) of
                       Inl e \<Rightarrow> and_then (say LOG_INFO no_handle_msg)
                                  (\<lambda>_. ret (Some hi, None))
                     | Inr hm \<Rightarrow> ret (Some hi, Some hm)))))"

definition finish_split ::
  "ze_graph_ext option \<Rightarrow> config \<Rightarrow> network_description list \<Rightarrow> network_description option
     \<Rightarrow> PluginGraph list outcome" where
  "finish_split ze cfg initDscrs mainNetworkDescription =
     (case first_init initDscrs of
        None \<Rightarrow> throw (UndefinedBehaviour ''initDscrs[0] of an empty vector'')
      | Some initNetworkDescription \<Rightarrow>
          and_then (say LOG_DEBUG ''compile end'') (\<lambda>_.
          and_then (realize_init_main ze initNetworkDescription mainNetworkDescription)
            (\<lambda>(initGraphHandle, mainGraphHandle).
          and_then (new_PluginGraph ze initGraphHandle (metadata initNetworkDescription)
                      (compiledNetwork initNetworkDescription) cfg) (\<lambda>initPluginGraph.
          case mainNetworkDescription of
            None \<Rightarrow> throw (UndefinedBehaviour ''mainNetworkDescription is null'')
          | Some mainDesc \<Rightarrow>
              and_then (new_PluginGraph ze mainGraphHandle (metadata mainDesc)
                          (compiledNetwork mainDesc) cfg) (\<lambda>mainPluginGraph.
              ret [initPluginGraph, mainPluginGraph])))))"

text \<open>
  \<open>model->clone()\<close> gives an equal model. Version 3 passes the caller's model to the
  first call and a fresh clone of the original to every later one.
\<close>

definition clone :: "'m \<Rightarrow> 'm" where
  "clone m = m"

definition split_calls ::
  "'m PluginCompilerAdapter \<Rightarrow> 'm \<Rightarrow> config \<Rightarrow> nat \<Rightarrow> error + network_description option" where
  "split_calls a model cfg =
     (if SEPARATE_WEIGHTS_VERSION cfg = 2
      then compileWS_v2 (compiler a) model cfg
      else (let originalModel = clone model
            in (\<lambda>i. compileWS_v3 (compiler a)
                       (if i = 0 then model else clone originalModel) cfg i)))"

text \<open>
  \<open>compileWS\<close>: the version selector chooses the protocol; any other value throws. The
  result is \<open>None\<close> when the collection loop does not end. (The line written to
  \<open>std::cout\<close> with the elapsed time is left out.)
\<close>

definition compileWS ::
  "'m PluginCompilerAdapter \<Rightarrow> 'm \<Rightarrow> config \<Rightarrow> PluginGraph list outcome option" where
  "compileWS a model cfg =
     (if SEPARATE_WEIGHTS_VERSION cfg = 1
      then Some (and_then (say LOG_DEBUG ''compile start'')
                   (\<lambda>_. compileWS_version1 a model cfg))
      else if SEPARATE_WEIGHTS_VERSION cfg = 2 \<or> SEPARATE_WEIGHTS_VERSION cfg = 3
      then (case collect_segments (split_calls a model cfg) 0 [] of
              None \<Rightarrow> None
            | Some (Inl e) \<Rightarrow> Some (and_then (say LOG_DEBUG ''compile start'') (\<lambda>_. throw e))
            | Some (Inr (initDscrs, mainNetworkDescription, calls)) \<Rightarrow>
                Some (and_then (say LOG_DEBUG ''compile start'') (\<lambda>_.
                        finish_split (a_zeGraphExt a) cfg initDscrs mainNetworkDescription)))
      else Some (and_then (say LOG_DEBUG ''compile start'') (\<lambda>_.
             throw (Thrown (''Invalid '' @ CHR 0x22 # ''SEPARATE_WEIGHTS_VERSION'' @ CHR 0x22
                            # '' value found within the '' @ CHR 0x22 # ''compileWS''
                            @ CHR 0x22 # '' call'')))))"


section \<open>Exporting and tearing down a graph\<close>

text \<open>
  An output stream is the bytes written so far and its error state (\<open>!stream\<close>). Every
  insertion on a stream in error state writes nothing. Failures of the sink itself are
  not modelled: a stream is in error state because it was handed over so, or because an
  empty stream buffer was inserted.
\<close>

record ostream =
  written :: "byte list"
  failed :: bool

definition digit_char :: "nat \<Rightarrow> byte" where
  "digit_char d = of_nat (48 + d)"

text \<open>
  \<open>stream << n\<close> for an unsigned integer is formatted output: the decimal digits of \<open>n\<close>
  as text, most significant first, with no padding (default flags).
\<close>

function decimal :: "nat \<Rightarrow> byte list" where
  "decimal n = (if n < 10 then [digit_char n] else decimal (n div 10) @ [digit_char (n mod 10)])"
  by pat_completeness auto
termination
  by (relation "measure id") auto

definition put_uint32 :: "32 word \<Rightarrow> ostream \<Rightarrow> ostream" where
  "put_uint32 n s = (if failed s then s else s\<lparr>written := written s @ decimal (unat n)\<rparr>)"

definition put_char :: "byte \<Rightarrow> ostream \<Rightarrow> ostream" where
  "put_char c s = (if failed s then s else s\<lparr>written := written s @ [c]\<rparr>)"

text \<open>
  \<open>stream << content.rdbuf()\<close> copies the buffer's characters; when it inserts no
  character it sets \<open>failbit\<close>.
\<close>

definition put_rdbuf :: "byte list \<Rightarrow> ostream \<Rightarrow> ostream" where
  "put_rdbuf content s =
     (if failed s then s
      else if content = [] then s\<lparr>failed := True\<rparr>
      else s\<lparr>written := written s @ content\<rparr>)"

definition stream_write :: "byte list \<Rightarrow> ostream \<Rightarrow> ostream" where
  "stream_write bs s = (if failed s then s else s\<lparr>written := written s @ bs\<rparr>)"

text \<open>
  The loop of \<open>custom_export_split_init\<close> over the init graphs; the flag is false when
  the loop left the function through \<open>return\<close> after a failed write.
\<close>

fun write_init_blobs :: "PluginGraph list \<Rightarrow> ostream \<Rightarrow> ostream \<times> bool" where
  "write_init_blobs [] s = (s, True)"
| "write_init_blobs (initGraph # rest) s =
     (let initBlob = blobPtr initGraph;
          initBlobSize = (of_nat (length initBlob) :: 32 word);
          s1 = stream_write initBlob (put_uint32 initBlobSize s)
      in if failed s1 then (s1, False) else write_init_blobs rest s1)"

text \<open>
  \<open>xmlContent\<close> and \<open>binContent\<close> are what the \<open>Serialize\<close> pass wrote for the init model;
  the pass is outside the sources and its two outputs are parameters. Sizes are cast to
  \<open>uint32_t\<close>. The sums in the log message are taken in \<open>nat\<close>.
\<close>

definition custom_export_split_init ::
  "PluginGraph \<Rightarrow> ostream \<Rightarrow> PluginGraph list \<Rightarrow> byte list \<Rightarrow> byte list
     \<Rightarrow> ostream \<times> log_entry list" where
  "custom_export_split_init this stream initGraphs xmlContent binContent =
     (let xmlSize = (of_nat (length xmlContent) :: 32 word);
          binSize = (of_nat (length binContent) :: 32 word);
          s1 = put_uint32 xmlSize stream;
          s2 = put_rdbuf xmlContent s1;
          s3 = put_uint32 binSize s2;
          s4 = put_rdbuf binContent s3;
          mainBlobSize = (of_nat (length (blobPtr this)) :: 32 word);
          s5 = put_uint32 mainBlobSize s4;
          s6 = stream_write (blobPtr this) s5;
          initCount = (of_nat (length initGraphs) :: 32 word);
          s7 = put_uint32 initCount s6;
          s8 = put_char 58 s7;
          (s9, completed) = write_init_blobs initGraphs s8
      in if \<not> completed
         then (s9, [Log LOG_ERROR (Text ''Write blob to stream failed. Blob is broken!'')])
         else if level_rank LOG_INFO \<le> level_rank (g_log_level this)
         then (let totalInitBlobSize = sum_list (map (\<lambda>g. length (blobPtr g)) initGraphs)
               in (s9, [Log LOG_INFO
                          (BlobSizes (length (blobPtr this) + totalInitBlobSize)
                             (length (blobPtr this) + totalInitBlobSize
                                + (4 + length initGraphs) * 4 + 1 + unat xmlSize + unat binSize)),
                        Log LOG_INFO (Text ''Write blob to stream successfully.'')]))
         else (s9, []))"

text \<open>The hash of the log line of \<open>export_blob\<close>, in 32-bit arithmetic.\<close>

definition blob_hash :: "byte list \<Rightarrow> 32 word" where
  "blob_hash bs = fold (\<lambda>b result. (push_bit 7 result + result) + ucast b) bs 1171117"

definition export_blob :: "PluginGraph \<Rightarrow> ostream \<Rightarrow> ostream \<times> log_entry list \<times> nat" where
  "export_blob this stream =
     (let s1 = stream_write (blobPtr this) stream
      in if failed s1
         then (s1, [Log LOG_ERROR (Text ''Write blob to stream failed. Blob is broken!'')], 0)
         else (s1,
               (if level_rank LOG_INFO \<le> level_rank (g_log_level this)
                then [Log LOG_INFO (BlobSizeHash (length (blobPtr this)) (blob_hash (blobPtr this)))]
                else [])
               @ [Log LOG_INFO (Text ''Write blob to stream successfully.'')],
               length (blobPtr this)))"

definition not_initialized_msg :: string where
  "not_initialized_msg = ''Zero compiler adapter wasn'' @ CHR 0x27 # ''t initialized''"

definition set_argument_value :: "PluginGraph \<Rightarrow> 32 word \<Rightarrow> 64 word \<Rightarrow> error + unit" where
  "set_argument_value this argi argv =
     (case zeGraphExt this of
        None \<Rightarrow> Inl (Thrown not_initialized_msg)
      | Some z \<Rightarrow>
          (case setGraphArgumentValue z (handle this) argi argv of
             Some e \<Rightarrow> Inl e
           | None \<Rightarrow> Inr ()))"

text \<open>
  The destructor. Each effect is recorded in order: the driver call with its status,
  clearing the event slots, releasing the command queue. A non-null handle with a null
  \<open>_zeGraphExt\<close> would dereference a null pointer.
\<close>

datatype teardown_step = DestroyGraph ze_graph_handle ze_result | ClearEvents | ResetQueue

definition destroy_PluginGraph :: "PluginGraph \<Rightarrow> error + PluginGraph \<times> teardown_step list" where
  "destroy_PluginGraph this =
     (case (case handle this of
              None \<Rightarrow> Inr (this, [])
            | Some h \<Rightarrow>
                (case zeGraphExt this of
                   None \<Rightarrow> Inl (UndefinedBehaviour ''_zeGraphExt is null'')
                 | Some z \<Rightarrow>
                     (let result = destroyGraph z h
                      in Inr (if result = ZE_RESULT_SUCCESS then this\<lparr>handle := None\<rparr> else this,
                              [DestroyGraph h result])))) of
        Inl e \<Rightarrow> Inl e
      | Inr (g1, t1) \<Rightarrow>
          (let (g2, t2) = (if last_submitted_event g1 \<noteq> []
                           then (g1\<lparr>last_submitted_event := []\<rparr>, t1 @ [ClearEvents])
                           else (g1, t1));
               (g3, t3) = (if command_queue g2 \<noteq> None
                           then (g2\<lparr>command_queue := None\<rparr>, t2 @ [ResetQueue])
                           else (g2, t2))
           in Inr (g3, t3)))"

text \<open>
  The blob layout as the specification documents it: every size is a 4-byte \<open>uint32\<close>
  field (little-endian, the host order), and one \<open>':'\<close> byte follows the init count.
\<close>

definition le32 :: "32 word \<Rightarrow> byte list" where
  "le32 w = [ucast w, ucast (drop_bit 8 w), ucast (drop_bit 16 w), ucast (drop_bit 24 w)]"

definition documented_split_init_layout ::
  "byte list \<Rightarrow> byte list \<Rightarrow> byte list \<Rightarrow> byte list list \<Rightarrow> byte list" where
  "documented_split_init_layout xmlBytes binBytes mainBlob initBlobs =
     le32 (of_nat (length xmlBytes)) @ xmlBytes
     @ le32 (of_nat (length binBytes)) @ binBytes
     @ le32 (of_nat (length mainBlob)) @ mainBlob
     @ le32 (of_nat (length initBlobs)) @ [58]
     @ concat (map (\<lambda>b. le32 (of_nat (length b)) @ b) initBlobs)"

text \<open>
  What the export writes for one blob: its size as decimal text, then its bytes.
\<close>

definition text_framed :: "byte list \<Rightarrow> byte list" where
  "text_framed b = decimal (unat (of_nat (length b) :: 32 word)) @ b"

text \<open>
  Modelled from the spec: the code that reads an exported blob back is missing from the
  sources. The reader follows the documented order of the parts and takes every size by
  formatted extraction (\<open>stream >> size\<close>, then \<open>read\<close> of that many bytes): a size is the
  longest run of decimal digits, which must be non-empty and fit \<open>uint32_t\<close>.
\<close>

definition is_digit :: "byte \<Rightarrow> bool" where
  "is_digit c = (48 \<le> c \<and> c \<le> 57)"

definition digits_value :: "byte list \<Rightarrow> nat" where
  "digits_value ds = foldl (\<lambda>acc c. 10 * acc + (unat c - 48)) 0 ds"

definition read_uint32 :: "byte list \<Rightarrow> (nat \<times> byte list) option" where
  "read_uint32 bs =
     (let ds = takeWhile is_digit bs
      in if ds = [] \<or> 2 ^ 32 \<le> digits_value ds then None
         else Some (digits_value ds, dropWhile is_digit bs))"

definition read_blob :: "byte list \<Rightarrow> (byte list \<times> byte list) option" where
  "read_blob bs =
     (case read_uint32 bs of
        None \<Rightarrow> None
      | Some (n, rest) \<Rightarrow> if length rest < n then None else Some (take n rest, drop n rest))"

fun read_blobs :: "nat \<Rightarrow> byte list \<Rightarrow> (byte list list \<times> byte list) option" where
  "read_blobs 0 bs = Some ([], bs)"
| "read_blobs (Suc k) bs =
     (case read_blob bs of
        None \<Rightarrow> None
      | Some (b, rest) \<Rightarrow>
          (case read_blobs k rest of
             None \<Rightarrow> None
           | Some (others, rest2) \<Rightarrow> Some (b # others, rest2)))"

definition read_split_init ::
  "byte list \<Rightarrow> (byte list \<times> byte list \<times> byte list \<times> byte list list) option" where
  "read_split_init bs =
     (case read_blob bs of None \<Rightarrow> None | Some (xmlBytes, r1) \<Rightarrow>
      case read_blob r1 of None \<Rightarrow> None | Some (binBytes, r2) \<Rightarrow>
      case read_blob r2 of None \<Rightarrow> None | Some (mainBlob, r3) \<Rightarrow>
      case read_uint32 r3 of None \<Rightarrow> None | Some (initCount, r4) \<Rightarrow>
      case r4 of [] \<Rightarrow> None | c # r5 \<Rightarrow>
        if c \<noteq> 58 then None
        else (case read_blobs initCount r5 of
                None \<Rightarrow> None
              | Some (initBlobs, r6) \<Rightarrow>
                  if r6 = [] then Some (xmlBytes, binBytes, mainBlob, initBlobs) else None))"

text \<open>
  A size can be told from the bytes after it only when those do not begin with a decimal
  digit. A plain blob is non-empty, does not begin with a digit and is shorter than
  \<open>2^32\<close> bytes.
\<close>

definition no_digit_head :: "byte list \<Rightarrow> bool" where
  "no_digit_head bs = (case bs of [] \<Rightarrow> True | c # _ \<Rightarrow> \<not> is_digit c)"

definition plain_blob :: "byte list \<Rightarrow> bool" where
  "plain_blob b = (b \<noteq> [] \<and> no_digit_head b \<and> length b < 2 ^ 32)"


section \<open>The execution pipeline (\<open>Pipeline\<close>)\<close>

text \<open>
  Addresses and \<open>size_t\<close> values are 64-bit words: the product \<open>i * size\<close> and the pointer
  addition wrap as the machine's do.
\<close>

type_synonym address = "64 word"

record TensorData =
  mem :: address
  size_t :: "64 word"

text \<open>
  Modelled from the spec: the class \<open>ZeroExecutor\<close> is missing from the sources. The
  executor holds the graph, its input and output descriptors, and the argument values
  last set on the graph.
\<close>

record ZeroExecutor =
  ex_graph :: ze_graph_handle
  ex_input_descriptors :: "ArgumentDescriptor list"
  ex_output_descriptors :: "ArgumentDescriptor list"
  ex_arguments :: "32 word \<rightharpoonup> address"
  ex_group_ordinal :: nat
  ex_mutable_command_list_version :: "32 word"

text \<open>
  Modelled from the spec: \<open>ZeroExecutor::setArgumentValue\<close> is missing from the sources;
  it binds one argument of the graph to an address.
\<close>

definition setArgumentValue :: "ZeroExecutor \<Rightarrow> 32 word \<Rightarrow> address \<Rightarrow> ZeroExecutor" where
  "setArgumentValue ex argi argv = ex\<lparr>ex_arguments := (ex_arguments ex)(argi \<mapsto> argv)\<rparr>"

text \<open>
  Modelled from the spec: the class \<open>CommandList\<close> is missing from the sources. A command
  list is an appendable, then sealed sequence of device instructions (barrier, timestamp,
  execute-graph, signal-event), with the argument bindings recorded for the graph it
  executes. A signal-event instruction names the event by its position in the pipeline.
  The list was created with or without support for mutable updates.
\<close>

datatype instruction =
    Barrier
  | NpuTimestamp address
  | GraphExecute ze_graph_handle "nat option"
  | SignalEvent nat

record CommandList =
  instructions :: "instruction list"
  bindings :: "32 word \<rightharpoonup> address"
  closed :: bool
  mutable_support :: bool
  cl_group_ordinal :: nat

text \<open>
  Modelled from the spec: the constructor of \<open>CommandList\<close> is missing from the sources; a new list is
  empty and open.
\<close>

definition new_CommandList :: "nat \<Rightarrow> bool \<Rightarrow> CommandList" where
  "new_CommandList ordinal mtbl =
     \<lparr>instructions = [], bindings = Map.empty, closed = False, mutable_support = mtbl,
      cl_group_ordinal = ordinal\<rparr>"

text \<open>
  Modelled from the spec: \<open>CommandList::appendBarrier\<close> is missing from the sources; it appends a
  barrier instruction.
\<close>

definition appendBarrier :: "CommandList \<Rightarrow> CommandList" where
  "appendBarrier cl = cl\<lparr>instructions := instructions cl @ [Barrier]\<rparr>"

text \<open>
  Modelled from the spec: \<open>CommandList::appendNpuTimestamp\<close> is missing from the sources; it
  appends a device-timestamp instruction that writes to the given address.
\<close>

definition appendNpuTimestamp :: "address \<Rightarrow> CommandList \<Rightarrow> CommandList" where
  "appendNpuTimestamp ts cl = cl\<lparr>instructions := instructions cl @ [NpuTimestamp ts]\<rparr>"

text \<open>
  Modelled from the spec: \<open>CommandList::appendGraphExecute\<close> is missing from the sources; it
  appends the execute-graph instruction, which records the argument values the graph
  holds at that moment.
\<close>

definition appendGraphExecute :: "ZeroExecutor \<Rightarrow> nat option \<Rightarrow> CommandList \<Rightarrow> CommandList" where
  "appendGraphExecute ex query cl =
     cl\<lparr>instructions := instructions cl @ [GraphExecute (ex_graph ex) query],
        bindings := ex_arguments ex\<rparr>"

text \<open>
  Modelled from the spec: \<open>Event::AppendSignalEvent\<close> is missing from the sources; it appends to
  the list an instruction that signals the event.
\<close>

definition AppendSignalEvent :: "nat \<Rightarrow> CommandList \<Rightarrow> CommandList" where
  "AppendSignalEvent ev cl = cl\<lparr>instructions := instructions cl @ [SignalEvent ev]\<rparr>"

text \<open>
  Modelled from the spec: \<open>CommandList::close\<close> is missing from the sources; it seals the list.
\<close>

definition close :: "CommandList \<Rightarrow> CommandList" where
  "close cl = cl\<lparr>closed := True\<rparr>"

text \<open>
  Modelled from the spec: \<open>CommandList::updateMutableCommandList\<close> is missing from the
  sources. The narrow update of a sealed list patches one recorded argument binding in
  place; on a list built without mutable support the behaviour is undefined.
\<close>

definition updateMutableCommandList ::
  "32 word \<Rightarrow> address \<Rightarrow> CommandList \<Rightarrow> error + CommandList" where
  "updateMutableCommandList arg_index arg_value cl =
     (if mutable_support cl
      then Inr (cl\<lparr>bindings := (bindings cl)(arg_index \<mapsto> arg_value)\<rparr>)
      else Inl (UndefinedBehaviour ''command list without mutable support''))"

text \<open>
  Modelled from the spec: the classes \<open>Event\<close> and \<open>Fence\<close> are missing from the
  sources. Each is a binary completion signal; an event is taken from the pool at an
  index.
\<close>

record Event =
  ev_index :: "32 word"
  ev_signaled :: bool

record Fence =
  f_signaled :: bool

text \<open>
  Modelled from the spec: the constructors of \<open>Event\<close> and \<open>Fence\<close> are missing from the
  sources; a new event or fence is unsignalled.
\<close>

definition new_Event :: "32 word \<Rightarrow> Event" where
  "new_Event index = \<lparr>ev_index = index, ev_signaled = False\<rparr>"

definition new_Fence :: Fence where
  "new_Fence = \<lparr>f_signaled = False\<rparr>"

text \<open>
  Modelled from the spec: \<open>Event::reset\<close> and \<open>Fence::reset\<close> are missing from the
  sources; each returns the primitive to its unsignalled state.
\<close>

definition Event_reset :: "Event \<Rightarrow> Event" where
  "Event_reset e = e\<lparr>ev_signaled := False\<rparr>"

definition Fence_reset :: "Fence \<Rightarrow> Fence" where
  "Fence_reset f = f\<lparr>f_signaled := False\<rparr>"

text \<open>
  Modelled from the spec: \<open>Event::hostSynchronize\<close> and \<open>Fence::hostSynchronize\<close> are
  missing from the sources; the host wait returns once the primitive is signalled, and
  blocks for ever on one that is never signalled.
\<close>

definition Event_hostSynchronize :: "Event \<Rightarrow> bool" where
  "Event_hostSynchronize e = ev_signaled e"

definition Fence_hostSynchronize :: "Fence \<Rightarrow> bool" where
  "Fence_hostSynchronize f = f_signaled f"

text \<open>
  Modelled from the spec: the class \<open>NpuInferProfiling\<close> is missing from the sources. It
  holds the addresses of the two device timestamps; \<open>sampleNpuTimestamps\<close> takes one
  more sample.
\<close>

record NpuInferProfiling =
  npu_ts_infer_start :: address
  npu_ts_infer_end :: address
  samples :: nat

definition sampleNpuTimestamps :: "NpuInferProfiling \<Rightarrow> NpuInferProfiling" where
  "sampleNpuTimestamps prof = prof\<lparr>samples := Suc (samples prof)\<rparr>"

record Pipeline =
  executor :: ZeroExecutor
  event_pool_size :: "32 word"
  command_lists :: "CommandList list"
  events :: "Event list"
  fences :: "Fence list"
  sync_output_with_fences :: bool
  npu_profiling :: "NpuInferProfiling option"
  profiling_query_created :: bool
  submitted :: "nat list"

text \<open>
  A pipeline operation ends by returning, by an exception or undefined behaviour, or not
  at all (a host wait for a signal that never comes).
\<close>

datatype stop = Raised error | WaitsForever

text \<open>
  The address of slice \<open>i\<close> of a tensor, \<open>mem + (i * size) / numberOfCommandLists\<close>, and
  the inner loops of the constructor: the \<open>ioIndex\<close>-th tensor is bound to the argument
  index of the \<open>ioIndex\<close>-th descriptor at the address of its slice.
  \<open>vector::at\<close> throws beyond the end; reading an empty \<open>std::optional\<close> through \<open>->\<close>
  is undefined.
\<close>

definition slice_address :: "TensorData \<Rightarrow> 64 word \<Rightarrow> 64 word \<Rightarrow> address" where
  "slice_address t i numberOfCommandLists = mem t + (i * size_t t) div numberOfCommandLists"

fun bind_arguments ::
  "ArgumentDescriptor list \<Rightarrow> TensorData option list \<Rightarrow> nat \<Rightarrow> 64 word \<Rightarrow> 64 word
     \<Rightarrow> ZeroExecutor \<Rightarrow> stop + ZeroExecutor" where
  "bind_arguments [] tensorsData ioIndex i numberOfCommandLists ex = Inr ex"
| "bind_arguments (desc # rest) tensorsData ioIndex i numberOfCommandLists ex =
     (if length tensorsData \<le> ioIndex then Inl (Raised OutOfRange)
      else (case tensorsData ! ioIndex of
              None \<Rightarrow> Inl (Raised (UndefinedBehaviour ''empty optional''))
            | Some t \<Rightarrow>
                bind_arguments rest tensorsData (Suc ioIndex) i numberOfCommandLists
                  (setArgumentValue ex (idx desc) (slice_address t i numberOfCommandLists))))"

text \<open>
  What the constructor appends to command list \<open>i\<close> after the arguments are bound.
\<close>

definition record_commands ::
  "ZeroExecutor \<Rightarrow> NpuInferProfiling option \<Rightarrow> nat option \<Rightarrow> bool \<Rightarrow> nat \<Rightarrow> CommandList
     \<Rightarrow> CommandList" where
  "record_commands ex profiling query sync_fences i cl =
     (let cl1 = (case profiling of
                   None \<Rightarrow> cl
                 | Some p \<Rightarrow> appendNpuTimestamp (npu_ts_infer_start p) (appendBarrier cl));
          cl2 = appendGraphExecute ex query cl1;
          cl3 = (case profiling of
                   None \<Rightarrow> cl2
                 | Some p \<Rightarrow> appendNpuTimestamp (npu_ts_infer_end p) (appendBarrier cl2));
          cl4 = (if \<not> sync_fences then AppendSignalEvent i (appendBarrier cl3) else cl3)
      in close cl4)"

text \<open>
  The second loop of the constructor, over the command-list indices. The executor's
  argument values and the command lists are the state.
\<close>

fun build_command_lists ::
  "TensorData option list \<Rightarrow> TensorData option list \<Rightarrow> 64 word
     \<Rightarrow> NpuInferProfiling option \<Rightarrow> nat option \<Rightarrow> bool
     \<Rightarrow> nat list \<Rightarrow> ZeroExecutor \<times> CommandList list
     \<Rightarrow> stop + ZeroExecutor \<times> CommandList list" where
  "build_command_lists inputTensorsData outputTensorsData n profiling query sync_fences []
     st = Inr st"
| "build_command_lists inputTensorsData outputTensorsData n profiling query sync_fences
     (i # rest) (ex, cls) =
     (case bind_arguments (ex_input_descriptors ex) inputTensorsData 0 (of_nat i) n ex of
        Inl e \<Rightarrow> Inl e
      | Inr ex1 \<Rightarrow>
          (case bind_arguments (ex_output_descriptors ex1) outputTensorsData 0 (of_nat i) n ex1 of
             Inl e \<Rightarrow> Inl e
           | Inr ex2 \<Rightarrow>
               if length cls \<le> i then Inl (Raised OutOfRange)
               else build_command_lists inputTensorsData outputTensorsData n profiling query
                      sync_fences rest
                      (ex2, cls[i := record_commands ex2 profiling query sync_fences i (cls ! i)])))"

text \<open>
  The constructor. \<open>pool_created\<close> is what \<open>profiling_pool.create()\<close> returns and \<open>query\<close>
  the handle of the profiling query; \<open>sync_fences\<close> is the member
  \<open>sync_output_with_fences_\<close>, whose initial value is set in the class declaration. The
  event pool has \<open>numberOfCommandLists\<close> events, or one when that is zero.
\<close>

definition new_Pipeline ::
  "ZeroExecutor \<Rightarrow> bool \<Rightarrow> nat option \<Rightarrow> NpuInferProfiling option
     \<Rightarrow> TensorData option list \<Rightarrow> TensorData option list \<Rightarrow> 64 word \<Rightarrow> bool
     \<Rightarrow> stop + Pipeline" where
  "new_Pipeline ex pool_created query profiling inputTensorsData outputTensorsData
     numberOfCommandLists sync_fences =
     (let pool_size = (if numberOfCommandLists \<noteq> 0 then ucast numberOfCommandLists else 1);
          indices = [0..<unat numberOfCommandLists];
          cls0 = map (\<lambda>i. new_CommandList (ex_group_ordinal ex)
                              (ex_mutable_command_list_version ex \<noteq> 0)) indices;
          evs = map (\<lambda>i. new_Event (of_nat i)) indices;
          fcs = map (\<lambda>i. new_Fence) indices
      in case build_command_lists inputTensorsData outputTensorsData numberOfCommandLists
                profiling query sync_fences indices (ex, cls0) of
           Inl e \<Rightarrow> Inl e
         | Inr (ex', cls) \<Rightarrow>
             Inr \<lparr>executor = ex', event_pool_size = pool_size, command_lists = cls,
                  events = evs, fences = fcs, sync_output_with_fences = sync_fences,
                  npu_profiling = profiling, profiling_query_created = pool_created,
                  submitted = []\<rparr>)"

text \<open>
  Modelled from the spec: \<open>CommandQueue::executeCommandList\<close> is missing from the
  sources. The queue consumes closed command lists. Device work is asynchronous; the
  model runs a submitted list at once: each signal-event instruction signals its event,
  and a fence given with the submission is signalled when the list is done.
\<close>

fun run_instructions :: "instruction list \<Rightarrow> Event list \<Rightarrow> Event list" where
  "run_instructions [] evs = evs"
| "run_instructions (SignalEvent k # rest) evs =
     run_instructions rest
       (if k < length evs then evs[k := (evs ! k)\<lparr>ev_signaled := True\<rparr>] else evs)"
| "run_instructions (_ # rest) evs = run_instructions rest evs"

definition Fence_signal :: "Fence \<Rightarrow> Fence" where
  "Fence_signal f = f\<lparr>f_signaled := True\<rparr>"

definition executeCommandList ::
  "CommandList \<Rightarrow> Fence option \<Rightarrow> Event list \<Rightarrow> stop + Event list \<times> Fence option" where
  "executeCommandList cl fence evs =
     (if \<not> closed cl then Inl (Raised (UndefinedBehaviour ''command list is not closed''))
      else Inr (run_instructions (instructions cl) evs, map_option Fence_signal fence))"

text \<open>\<open>push\<close>: every command list is submitted in index order, with its fence in fence mode.\<close>

fun push_loop :: "nat list \<Rightarrow> Pipeline \<Rightarrow> stop + Pipeline" where
  "push_loop [] p = Inr p"
| "push_loop (i # rest) p =
     (if length (command_lists p) \<le> i then Inl (Raised OutOfRange)
      else if sync_output_with_fences p
      then (if length (fences p) \<le> i then Inl (Raised OutOfRange)
            else (case executeCommandList (command_lists p ! i) (Some (fences p ! i)) (events p) of
                    Inl e \<Rightarrow> Inl e
                  | Inr (evs, fence) \<Rightarrow>
                      push_loop rest
                        (p\<lparr>events := evs,
                           fences := (case fence of None \<Rightarrow> fences p
                                      | Some f \<Rightarrow> (fences p)[i := f]),
                           submitted := submitted p @ [i]\<rparr>)))
      else (case executeCommandList (command_lists p ! i) None (events p) of
              Inl e \<Rightarrow> Inl e
            | Inr (evs, fence) \<Rightarrow>
                push_loop rest (p\<lparr>events := evs, submitted := submitted p @ [i]\<rparr>)))"

definition push :: "Pipeline \<Rightarrow> stop + Pipeline" where
  "push p = push_loop [0..<length (command_lists p)] p"

text \<open>
  \<open>pull\<close>: the host waits on the fence or on the event of every index in order; a wait on
  a primitive that is not signalled does not return. With profiling, the timestamps are
  sampled after every wait.
\<close>

fun pull_loop :: "nat list \<Rightarrow> Pipeline \<Rightarrow> stop + Pipeline" where
  "pull_loop [] p = Inr p"
| "pull_loop (i # rest) p =
     (if sync_output_with_fences p \<and> length (fences p) \<le> i then Inl (Raised OutOfRange)
      else if \<not> sync_output_with_fences p \<and> length (events p) \<le> i then Inl (Raised OutOfRange)
      else if \<not> (if sync_output_with_fences p then Fence_hostSynchronize (fences p ! i)
                  else Event_hostSynchronize (events p ! i))
      then Inl WaitsForever
      else pull_loop rest
             (case npu_profiling p of
                None \<Rightarrow> p
              | Some prof \<Rightarrow> p\<lparr>npu_profiling := Some (sampleNpuTimestamps prof)\<rparr>))"

definition pull :: "Pipeline \<Rightarrow> stop + Pipeline" where
  "pull p = pull_loop [0..<length (command_lists p)] p"

text \<open>\<open>reset\<close>: the fence or the event of every index is reset.\<close>

fun reset_loop :: "nat list \<Rightarrow> Pipeline \<Rightarrow> stop + Pipeline" where
  "reset_loop [] p = Inr p"
| "reset_loop (i # rest) p =
     (if sync_output_with_fences p
      then (if length (fences p) \<le> i then Inl (Raised OutOfRange)
            else reset_loop rest (p\<lparr>fences := (fences p)[i := Fence_reset (fences p ! i)]\<rparr>))
      else (if length (events p) \<le> i then Inl (Raised OutOfRange)
            else reset_loop rest (p\<lparr>events := (events p)[i := Event_reset (events p ! i)]\<rparr>)))"

definition reset :: "Pipeline \<Rightarrow> stop + Pipeline" where
  "reset p = reset_loop [0..<length (command_lists p)] p"

text \<open>
  \<open>updateCommandList\<close>: in every command list the binding of \<open>index\<close> is patched to the
  slice of the new tensor, and the list is closed again.
\<close>

fun update_loop :: "TensorData \<Rightarrow> 32 word \<Rightarrow> 64 word \<Rightarrow> nat list \<Rightarrow> Pipeline \<Rightarrow> stop + Pipeline" where
  "update_loop tensorsData index numberOfCommandLists [] p = Inr p"
| "update_loop tensorsData index numberOfCommandLists (i # rest) p =
     (if length (command_lists p) \<le> i then Inl (Raised OutOfRange)
      else (case updateMutableCommandList index
                   (slice_address tensorsData (of_nat i) numberOfCommandLists)
                   (command_lists p ! i) of
              Inl e \<Rightarrow> Inl (Raised e)
            | Inr cl \<Rightarrow>
                update_loop tensorsData index numberOfCommandLists rest
                  (p\<lparr>command_lists := (command_lists p)[i := close cl]\<rparr>)))"

definition updateCommandList :: "Pipeline \<Rightarrow> TensorData \<Rightarrow> 32 word \<Rightarrow> stop + Pipeline" where
  "updateCommandList p tensorsData index =
     (let numberOfCommandLists = (of_nat (length (command_lists p)) :: 64 word)
      in update_loop tensorsData index numberOfCommandLists
           [0..<length (command_lists p)] p)"

text \<open>One round of use: \<open>reset(); push(); pull()\<close>, and \<open>n\<close> rounds in a row.\<close>

definition reset_push_pull :: "Pipeline \<Rightarrow> stop + Pipeline" where
  "reset_push_pull p =
     (case reset p of
        Inl e \<Rightarrow> Inl e
      | Inr p1 \<Rightarrow> (case push p1 of Inl e \<Rightarrow> Inl e | Inr p2 \<Rightarrow> pull p2))"

fun rounds :: "nat \<Rightarrow> Pipeline \<Rightarrow> stop + Pipeline" where
  "rounds 0 p = Inr p"
| "rounds (Suc n) p = (case reset_push_pull p of Inl e \<Rightarrow> Inl e | Inr p1 \<Rightarrow> rounds n p1)"

text \<open>
  What the constructor leaves in command list \<open>i\<close>: the list is closed, every declared
  argument is bound to slice \<open>i\<close> of its tensor, and the only event the list signals is
  event \<open>i\<close> (in event mode it does).
\<close>

definition list_built ::
  "ArgumentDescriptor list \<Rightarrow> ArgumentDescriptor list \<Rightarrow> TensorData option list
     \<Rightarrow> TensorData option list \<Rightarrow> 64 word \<Rightarrow> bool \<Rightarrow> nat \<Rightarrow> CommandList \<Rightarrow> bool" where
  "list_built ins outs its ots n s i cl =
     (closed cl
      \<and> (\<forall>k<length ins. bindings cl (idx (ins ! k)) = Some (slice_address (the (its ! k)) (of_nat i) n))
      \<and> (\<forall>k<length outs. bindings cl (idx (outs ! k)) = Some (slice_address (the (ots ! k)) (of_nat i) n))
      \<and> (\<not> s \<longrightarrow> SignalEvent i \<in> set (instructions cl))
      \<and> (\<forall>k. SignalEvent k \<in> set (instructions cl) \<longrightarrow> k = i))"

text \<open>
  A well-formed pipeline has as many events and fences as command lists, its lists are
  closed, and in event mode list \<open>i\<close> signals event \<open>i\<close>.
\<close>

definition pipeline_wf :: "Pipeline \<Rightarrow> bool" where
  "pipeline_wf p =
     (length (events p) = length (command_lists p)
      \<and> length (fences p) = length (command_lists p)
      \<and> (\<forall>i<length (command_lists p).
            closed (command_lists p ! i)
            \<and> (\<not> sync_output_with_fences p \<longrightarrow>
                  SignalEvent i \<in> set (instructions (command_lists p ! i)))))"


section \<open>Example inputs\<close>

definition ex_config :: "nat \<Rightarrow> config" where
  "ex_config v = \<lparr>LOG_LEVEL = LOG_INFO, CREATE_EXECUTOR = True, DEFER_WEIGHTS_LOAD = False,
                  SEPARATE_WEIGHTS_VERSION = v, TURBO = None, MODEL_PRIORITY = 0,
                  WORKLOAD_TYPE = None, BATCH_MODE = BATCH_AUTO,
                  RUN_INFERENCES_SEQUENTIALLY = False\<rparr>"

definition ex_init0 :: network_description where
  "ex_init0 = \<lparr>metadata = \<lparr>name = ''init0''\<rparr>, compiledNetwork = [1, 2]\<rparr>"

definition ex_init1 :: network_description where
  "ex_init1 = \<lparr>metadata = \<lparr>name = ''init1''\<rparr>, compiledNetwork = [3]\<rparr>"

definition ex_main :: network_description where
  "ex_main = \<lparr>metadata = \<lparr>name = ''main''\<rparr>, compiledNetwork = [4, 5, 6]\<rparr>"

definition ex_answers :: "network_description list \<Rightarrow> nat \<Rightarrow> error + network_description option" where
  "ex_answers segs i = Inr (if i < length segs then Some (segs ! i) else None)"

definition ex_compiler :: "network_description list \<Rightarrow> unit ICompiler" where
  "ex_compiler segs =
     \<lparr>compile_c = (\<lambda>m c. Inr ex_main),
      compileWS_v1 = (\<lambda>m c. Inr segs),
      compileWS_v2 = (\<lambda>m c. ex_answers segs),
      compileWS_v3 = (\<lambda>m c. ex_answers segs),
      parse_c = (\<lambda>b c. Inr \<lparr>name = ''main''\<rparr>)\<rparr>"

definition ex_adapter :: "network_description list \<Rightarrow> ze_graph_ext option \<Rightarrow> unit PluginCompilerAdapter" where
  "ex_adapter segs ze = \<lparr>compiler = ex_compiler segs, a_zeGraphExt = ze\<rparr>"


definition ex_ze_failing :: ze_graph_ext where
  "ex_ze_failing =
     \<lparr>getGraphHandle = (\<lambda>b. Inl (LevelZeroFailure ''pfnCreate2'' (ZE_RESULT_ERROR 1))),
      pfnGetProperties = (\<lambda>h. (ZE_RESULT_SUCCESS, 0)),
      pfnGetArgumentProperties3 = (\<lambda>h i. (ZE_RESULT_SUCCESS, ZE_GRAPH_ARGUMENT_TYPE_INPUT)),
      findCommandQueueGroupOrdinal = Inr 0,
      createCommandQueue = (\<lambda>priority ordinal turbo. None),
      set_workload_type = (\<lambda>q w. None),
      initializeGraph = (\<lambda>h n. None),
      get_batch_size = (\<lambda>m. None),
      setGraphArgumentValue =
        (\<lambda>h i v. case h of
                    None \<Rightarrow> Some (LevelZeroFailure ''pfnSetArgumentValue'' (ZE_RESULT_ERROR 2))
                  | Some _ \<Rightarrow> None),
      destroyGraph = (\<lambda>h. ZE_RESULT_SUCCESS)\<rparr>"


definition ex_config_deferred :: "nat \<Rightarrow> config" where
  "ex_config_deferred v = (ex_config v)\<lparr>DEFER_WEIGHTS_LOAD := True\<rparr>"

definition ex_ze_init_only :: ze_graph_ext where
  "ex_ze_init_only =
     ex_ze_failing\<lparr>getGraphHandle :=
       (\<lambda>b. if b = compiledNetwork ex_init0 then Inr 7
            else Inl (LevelZeroFailure ''pfnCreate2'' (ZE_RESULT_ERROR 1)))\<rparr>"


definition ex_realized_graph :: PluginGraph where
  "ex_realized_graph =
     \<lparr>zeGraphExt = Some ex_ze_failing, handle = Some 5, g_metadata = \<lparr>name = ''main''\<rparr>,
      blobPtr = [4, 5, 6], g_log_level = LOG_INFO, input_descriptors = [],
      output_descriptors = [], command_queue_group_ordinal = 0,
      command_queue = Some \<lparr>cq_priority = 0, cq_ordinal = 0, cq_turbo = False\<rparr>,
      batch_size = None, last_submitted_event = [None]\<rparr>"

definition ex_export_only_graph :: PluginGraph where
  "ex_export_only_graph =
     \<lparr>zeGraphExt = Some ex_ze_failing, handle = None, g_metadata = \<lparr>name = ''main''\<rparr>,
      blobPtr = [4, 5, 6], g_log_level = LOG_INFO, input_descriptors = [],
      output_descriptors = [], command_queue_group_ordinal = 0, command_queue = None,
      batch_size = None, last_submitted_event = []\<rparr>"


definition ex_stream :: ostream where
  "ex_stream = \<lparr>written = [], failed = False\<rparr>"

definition ex_empty_graph :: PluginGraph where
  "ex_empty_graph = ex_export_only_graph\<lparr>blobPtr := []\<rparr>"


definition ex_executor :: ZeroExecutor where
  "ex_executor =
     \<lparr>ex_graph = 5,
      ex_input_descriptors = [\<lparr>info = ZE_GRAPH_ARGUMENT_TYPE_INPUT, idx = 0\<rparr>],
      ex_output_descriptors = [\<lparr>info = ZE_GRAPH_ARGUMENT_TYPE_OUTPUT, idx = 1\<rparr>],
      ex_arguments = Map.empty, ex_group_ordinal = 0,
      ex_mutable_command_list_version = 1\<rparr>"

definition ex_input :: TensorData where
  "ex_input = \<lparr>mem = 1000, size_t = 64\<rparr>"

definition ex_output :: TensorData where
  "ex_output = \<lparr>mem = 2000, size_t = 32\<rparr>"

definition ex_command_list :: "address \<Rightarrow> address \<Rightarrow> nat \<Rightarrow> CommandList" where
  "ex_command_list a b i =
     \<lparr>instructions = [GraphExecute 5 None, Barrier, SignalEvent i],
      bindings = [0 \<mapsto> a, 1 \<mapsto> b], closed = True, mutable_support = True,
      cl_group_ordinal = 0\<rparr>"

definition ex_pipeline :: Pipeline where
  "ex_pipeline =
     \<lparr>executor = ex_executor\<lparr>ex_arguments := [0 \<mapsto> 1032, 1 \<mapsto> 2016]\<rparr>,
      event_pool_size = 2,
      command_lists = [ex_command_list 1000 2000 0, ex_command_list 1032 2016 1],
      events = [\<lparr>ev_index = 0, ev_signaled = False\<rparr>, \<lparr>ev_index = 1, ev_signaled = False\<rparr>],
      fences = [\<lparr>f_signaled = False\<rparr>, \<lparr>f_signaled = False\<rparr>],
      sync_output_with_fences = False, npu_profiling = None,
      profiling_query_created = False, submitted = []\<rparr>"

definition ex_signaled_pipeline :: Pipeline where
  "ex_signaled_pipeline =
     ex_pipeline\<lparr>events := [\<lparr>ev_index = 0, ev_signaled = True\<rparr>,
                              \<lparr>ev_index = 1, ev_signaled = True\<rparr>]\<rparr>"


section \<open>Outcomes and the graph constructor\<close>

lemma and_then_Inr:
  "and_then m f = (l, Inr y) \<longleftrightarrow>
     (\<exists>l1 x l2. m = (l1, Inr x) \<and> f x = (l2, Inr y) \<and> l = l1 @ l2)"
  by (auto simp: and_then_def split: prod.splits sum.splits)

lemma and_then_ret [simp]: "and_then (ret x) f = f x"
  by (simp add: and_then_def ret_def split: prod.splits)

lemma and_then_throw [simp]: "and_then (throw e) f = throw e"
  by (simp add: and_then_def throw_def)

lemma and_then_say: "and_then (say lv s) f = (case f () of (l, r) \<Rightarrow> (Log lv (Text s) # l, r))"
  by (simp add: and_then_def say_def split: prod.splits)

lemma and_then_lift_Inr [simp]: "and_then (lift (Inr x)) f = f x"
  by (simp add: and_then_def lift_def split: prod.splits)

lemma and_then_lift_Inl [simp]: "and_then (lift (Inl e)) f = throw e"
  by (simp add: and_then_def lift_def throw_def)

lemma get_arguments_keeps:
  "get_arguments ze h is g = (l, Inr g') \<Longrightarrow>
     blobPtr g' = blobPtr g \<and> g_metadata g' = g_metadata g \<and> handle g' = handle g
     \<and> zeGraphExt g' = zeGraphExt g"
proof (induction "is" arbitrary: g l)
  case Nil
  then show ?case by (simp add: ret_def)
next
  case (Cons i "is")
  then show ?case
    by (auto simp: and_then_Inr throw_on_fail_def ret_def throw_def split: prod.splits if_splits)
qed

lemma initialize_keeps:
  assumes "initialize cfg g = (l, Inr g')"
  shows "blobPtr g' = blobPtr g \<and> g_metadata g' = g_metadata g \<and> handle g' = handle g
     \<and> zeGraphExt g' = zeGraphExt g"
proof (cases "zeGraphExt g")
  case None
  with assms show ?thesis by (simp add: initialize_def ret_def)
next
  case (Some ze)
  show ?thesis
  proof (cases "handle g")
    case None
    with Some assms show ?thesis by (simp add: initialize_def ret_def)
  next
    case (Some h)
    with \<open>zeGraphExt g = Some ze\<close> assms show ?thesis
      by (auto simp: initialize_def and_then_Inr Let_def ret_def say_def
               split: prod.splits dest!: get_arguments_keeps)
  qed
qed

lemma new_PluginGraph_keeps:
  assumes "new_PluginGraph ze h md b cfg = (l, Inr g)"
  shows "blobPtr g = b \<and> g_metadata g = md \<and> handle g = h \<and> zeGraphExt g = ze"
  using assms
  by (auto simp: new_PluginGraph_def Let_def and_then_say ret_def split: if_splits dest!: initialize_keeps)

section \<open>The split-weights collection loop\<close>

lemma new_PluginGraph_no_driver:
  "\<exists>l g. new_PluginGraph ze None md b cfg = (l, Inr g)"
  by (auto simp: new_PluginGraph_def Let_def and_then_say ret_def initialize_def split: option.splits)

lemma new_PluginGraph_deferred:
  "\<not> CREATE_EXECUTOR cfg \<or> DEFER_WEIGHTS_LOAD cfg \<Longrightarrow> \<exists>l g. new_PluginGraph ze h md b cfg = (l, Inr g)"
  by (auto simp: new_PluginGraph_def Let_def and_then_say ret_def)

lemma new_PluginGraph_no_ext: "\<exists>l g. new_PluginGraph None h md b cfg = (l, Inr g)"
  by (auto simp: new_PluginGraph_def Let_def and_then_say ret_def initialize_def
           split: option.splits)

lemma new_PluginGraph_total:
  assumes "\<not> CREATE_EXECUTOR cfg \<or> DEFER_WEIGHTS_LOAD cfg \<or> ze = None"
  shows "\<exists>l g. new_PluginGraph ze h md b cfg = (l, Inr g)"
  using assms new_PluginGraph_deferred [of cfg ze h md b] new_PluginGraph_no_ext [of h md b cfg]
  by auto

lemma try_getGraphHandle_total: "\<exists>l h. try_getGraphHandle ze b = (l, Inr h)"
  by (auto simp: try_getGraphHandle_def ret_def and_then_say split: option.splits sum.splits)

lemma try_getGraphHandle_None: "\<exists>l. try_getGraphHandle None b = (l, Inr None)"
  by (auto simp: try_getGraphHandle_def ret_def)

lemma collect_segments_inits:
  assumes "\<forall>j<k. \<exists>d. call (i + j) = Inr (Some d) \<and> isInit (name (metadata d))"
  shows "collect_segments call i acc =
         collect_segments call (i + k) (acc @ map (\<lambda>j. the (projr (call j))) [i..<i + k])"
  using assms
proof (induction k arbitrary: i acc)
  case 0
  then show ?case by simp
next
  case (Suc k)
  from Suc.prems obtain d where d: "call i = Inr (Some d)" "isInit (name (metadata d))"
    by (metis add.right_neutral zero_less_Suc)
  have rest: "\<forall>j<k. \<exists>d. call (Suc i + j) = Inr (Some d) \<and> isInit (name (metadata d))"
    using Suc.prems by (metis Suc_less_eq add_Suc_shift)
  have "collect_segments call i acc = collect_segments call (Suc i) (acc @ [d])"
    by (subst collect_segments.simps) (simp add: d)
  also have "\<dots> = collect_segments call (Suc i + k)
                     ((acc @ [d]) @ map (\<lambda>j. the (projr (call j))) [Suc i..<Suc i + k])"
    by (rule Suc.IH [OF rest])
  also have "(acc @ [d]) @ map (\<lambda>j. the (projr (call j))) [Suc i..<Suc i + k]
             = acc @ map (\<lambda>j. the (projr (call j))) [i..<i + Suc k]"
  proof -
    have "[i..<i + Suc k] = i # [Suc i..<Suc i + k]"
      by (simp add: upt_conv_Cons)
    then show ?thesis by (simp add: d)
  qed
  finally show ?case by simp
qed

lemma collect_segments_stop:
  assumes "call i = Inr (Some s)" "\<not> isInit (name (metadata s))"
  shows "collect_segments call i acc =
         Some (if isMain (name (metadata s)) then Inr (acc, Some s, Suc i)
               else Inl (AssertFailed ''Unexpected network name: '' (name (metadata s))))"
  by (subst collect_segments.simps) (simp add: assms)

lemma collect_segments_result:
  assumes "\<forall>j<k. \<exists>d. call j = Inr (Some d) \<and> isInit (name (metadata d))"
      and "call k = Inr (Some s)" "\<not> isInit (name (metadata s))"
  shows "collect_segments call 0 [] =
         Some (if isMain (name (metadata s))
               then Inr (map (\<lambda>j. the (projr (call j))) [0..<k], Some s, Suc k)
               else Inl (AssertFailed ''Unexpected network name: '' (name (metadata s))))"
proof -
  have "collect_segments call 0 [] =
        collect_segments call (0 + k) ([] @ map (\<lambda>j. the (projr (call j))) [0..<0 + k])"
    by (rule collect_segments_inits) (simp add: assms(1))
  then show ?thesis
    using collect_segments_stop [of call k s] assms(2,3) by simp
qed

lemma isMain_not_isInit: "isMain n \<Longrightarrow> \<not> isInit n"
  by (auto simp: isMain_def isInit_def starts_with_def)

lemma realize_init_main_total:
  "\<exists>l hi hm. realize_init_main ze d (Some m) = (l, Inr (hi, hm))"
  by (auto simp: realize_init_main_def ret_def and_then_say split: option.splits sum.splits)

lemma finish_split_artifacts:
  assumes "finish_split ze cfg (d0 # ds) (Some s) = (l, Inr gs)"
  shows "\<exists>gi gm. gs = [gi, gm] \<and> blobPtr gi = compiledNetwork d0 \<and> g_metadata gi = metadata d0
                 \<and> blobPtr gm = compiledNetwork s \<and> g_metadata gm = metadata s"
  using assms
  by (auto simp: finish_split_def first_init_def and_then_Inr ret_def
           dest!: new_PluginGraph_keeps)

lemma finish_split_total:
  assumes "\<not> CREATE_EXECUTOR cfg \<or> DEFER_WEIGHTS_LOAD cfg \<or> ze = None"
  shows "\<exists>l gs. finish_split ze cfg (d0 # ds) (Some s) = (l, Inr gs)"
proof -
  obtain l1 hi hm where r: "realize_init_main ze d0 (Some s) = (l1, Inr (hi, hm))"
    using realize_init_main_total by blast
  obtain l2 gi where gi: "new_PluginGraph ze hi (metadata d0) (compiledNetwork d0) cfg = (l2, Inr gi)"
    using new_PluginGraph_total [OF assms] by blast
  obtain l3 gm where gm: "new_PluginGraph ze hm (metadata s) (compiledNetwork s) cfg = (l3, Inr gm)"
    using new_PluginGraph_total [OF assms] by blast
  show ?thesis
    by (simp add: finish_split_def first_init_def say_def r gi gm and_then_def ret_def)
qed

text \<open>
  Claim C2. Under protocol versions 2 and 3, let the compiler answer \<open>k\<close> "init"
  descriptions and then a description \<open>s\<close> that is not an "init". If \<open>s\<close> is a "main",
  the loop ends there after exactly \<open>k + 1\<close> compiler calls, holding the \<open>k\<close> init
  descriptions in order and \<open>s\<close>; if \<open>s\<close> is neither, the assertion fails and \<open>compileWS\<close>
  throws it. With at least one init, whatever \<open>compileWS\<close> returns is the pair of
  artifacts built from the first init description and from \<open>s\<close>: the later inits are
  dropped. Without a driver or with deferred initialization the constructors cannot
  fail, and the pair is returned.
\<close>

theorem compileWS_split_collects_until_main:
  assumes ver: "SEPARATE_WEIGHTS_VERSION cfg = 2 \<or> SEPARATE_WEIGHTS_VERSION cfg = 3"
      and inits: "\<forall>j<k. \<exists>d. split_calls a model cfg j = Inr (Some d) \<and> isInit (name (metadata d))"
      and stop: "split_calls a model cfg k = Inr (Some s)"
      and other: "\<not> isInit (name (metadata s))"
  shows "collect_segments (split_calls a model cfg) 0 [] =
           Some (if isMain (name (metadata s))
                 then Inr (map (\<lambda>j. the (projr (split_calls a model cfg j))) [0..<k], Some s, Suc k)
                 else Inl (AssertFailed ''Unexpected network name: '' (name (metadata s))))
         \<and> (\<not> isMain (name (metadata s)) \<longrightarrow>
              compileWS a model cfg =
                Some ([Log LOG_DEBUG (Text ''compile start'')],
                      Inl (AssertFailed ''Unexpected network name: '' (name (metadata s)))))
         \<and> (isMain (name (metadata s)) \<and> 0 < k \<longrightarrow>
              (\<exists>l r. compileWS a model cfg = Some (l, r)
                 \<and> (\<forall>gs. r = Inr gs \<longrightarrow>
                       (\<exists>gi gm. gs = [gi, gm]
                          \<and> blobPtr gi = compiledNetwork (the (projr (split_calls a model cfg 0)))
                          \<and> g_metadata gi = metadata (the (projr (split_calls a model cfg 0)))
                          \<and> blobPtr gm = compiledNetwork s \<and> g_metadata gm = metadata s))
                 \<and> (\<not> CREATE_EXECUTOR cfg \<or> DEFER_WEIGHTS_LOAD cfg \<or> a_zeGraphExt a = None
                      \<longrightarrow> (\<exists>gs. r = Inr gs))))"
proof -
  let ?call = "split_calls a model cfg"
  let ?inits = "map (\<lambda>j. the (projr (?call j))) [0..<k]"
  have coll: "collect_segments ?call 0 [] =
           Some (if isMain (name (metadata s)) then Inr (?inits, Some s, Suc k)
                 else Inl (AssertFailed ''Unexpected network name: '' (name (metadata s))))"
    by (rule collect_segments_result [OF inits stop other])
  have not12: "SEPARATE_WEIGHTS_VERSION cfg \<noteq> 1" using ver by auto
  have bad: "compileWS a model cfg =
                Some ([Log LOG_DEBUG (Text ''compile start'')],
                      Inl (AssertFailed ''Unexpected network name: '' (name (metadata s))))"
    if "\<not> isMain (name (metadata s))"
    using that ver not12 by (simp add: compileWS_def coll and_then_say throw_def)
  have good: "\<exists>l r. compileWS a model cfg = Some (l, r)
                 \<and> (\<forall>gs. r = Inr gs \<longrightarrow>
                       (\<exists>gi gm. gs = [gi, gm]
                          \<and> blobPtr gi = compiledNetwork (the (projr (?call 0)))
                          \<and> g_metadata gi = metadata (the (projr (?call 0)))
                          \<and> blobPtr gm = compiledNetwork s \<and> g_metadata gm = metadata s))
                 \<and> (\<not> CREATE_EXECUTOR cfg \<or> DEFER_WEIGHTS_LOAD cfg \<or> a_zeGraphExt a = None
                      \<longrightarrow> (\<exists>gs. r = Inr gs))"
    if m: "isMain (name (metadata s))" and k: "0 < k"
  proof -
    have shape: "?inits = the (projr (?call 0)) # map (\<lambda>j. the (projr (?call j))) [Suc 0..<k]"
      using k by (simp add: upt_conv_Cons)
    let ?rest = "map (\<lambda>j. the (projr (?call j))) [Suc 0..<k]"
    let ?d0 = "the (projr (?call 0))"
    obtain l r where fs: "finish_split (a_zeGraphExt a) cfg (?d0 # ?rest) (Some s) = (l, r)"
      by (cases "finish_split (a_zeGraphExt a) cfg (?d0 # ?rest) (Some s)") auto
    have c: "compileWS a model cfg = Some (Log LOG_DEBUG (Text ''compile start'') # l, r)"
      using ver not12 m by (simp add: compileWS_def coll shape and_then_say fs)
    have art: "\<exists>gi gm. gs = [gi, gm] \<and> blobPtr gi = compiledNetwork ?d0
                 \<and> g_metadata gi = metadata ?d0
                 \<and> blobPtr gm = compiledNetwork s \<and> g_metadata gm = metadata s"
      if "r = Inr gs" for gs
      using finish_split_artifacts [of "a_zeGraphExt a" cfg ?d0 ?rest s l gs] fs that by simp
    have tot: "\<exists>gs. r = Inr gs"
      if "\<not> CREATE_EXECUTOR cfg \<or> DEFER_WEIGHTS_LOAD cfg \<or> a_zeGraphExt a = None"
      using finish_split_total [OF that, of ?d0 ?rest s] fs by auto
    show ?thesis
      apply (rule exI [of _ "Log LOG_DEBUG (Text ''compile start'') # l"])
      apply (rule exI [of _ r])
      using c art tot by auto
  qed
  show ?thesis using coll bad good by blast
qed

lemma ex_split_calls:
  "split_calls (ex_adapter segs ze) () (ex_config v) = ex_answers segs"
  by (simp add: split_calls_def ex_adapter_def ex_compiler_def ex_config_def Let_def)

theorem compileWS_split_collects_until_main_witness:
  "collect_segments (split_calls (ex_adapter [ex_init0, ex_init1, ex_main] None) () (ex_config 2)) 0 []
     = Some (Inr ([ex_init0, ex_init1], Some ex_main, Suc 2))
   \<and> (\<exists>l gi gm. compileWS (ex_adapter [ex_init0, ex_init1, ex_main] None) () (ex_config 2)
                   = Some (l, Inr [gi, gm])
         \<and> blobPtr gi = compiledNetwork ex_init0 \<and> blobPtr gm = compiledNetwork ex_main)"
proof -
  let ?a = "ex_adapter [ex_init0, ex_init1, ex_main] None"
  let ?call = "split_calls ?a () (ex_config 2)"
  have ver: "SEPARATE_WEIGHTS_VERSION (ex_config 2) = 2 \<or> SEPARATE_WEIGHTS_VERSION (ex_config 2) = 3"
    by (simp add: ex_config_def)
  have inits: "\<forall>j<2. \<exists>d. ?call j = Inr (Some d) \<and> isInit (name (metadata d))"
    by (auto simp: ex_split_calls ex_answers_def less_Suc_eq numeral_2_eq_2 isInit_def
                   starts_with_def ex_init0_def ex_init1_def)
  have stop: "?call 2 = Inr (Some ex_main)"
    by (simp add: ex_split_calls ex_answers_def)
  have other: "\<not> isInit (name (metadata ex_main))"
    by (simp add: isInit_def starts_with_def ex_main_def)
  have m: "isMain (name (metadata ex_main))"
    by (simp add: isMain_def starts_with_def ex_main_def)
  have l: "map (\<lambda>j. the (projr (?call j))) [0..<2] = [ex_init0, ex_init1]"
    by (simp add: ex_split_calls ex_answers_def upt_conv_Cons numeral_2_eq_2)
  have d0: "the (projr (?call 0)) = ex_init0"
    by (simp add: ex_split_calls ex_answers_def)
  note T = compileWS_split_collects_until_main [OF ver inits stop other]
  have c1: "collect_segments ?call 0 [] = Some (Inr ([ex_init0, ex_init1], Some ex_main, Suc 2))"
    using conjunct1 [OF T] by (simp only: m l if_True)
  have z: "a_zeGraphExt ?a = None"
    by (simp add: ex_adapter_def)
  have c3: "\<exists>l gi gm. compileWS ?a () (ex_config 2) = Some (l, Inr [gi, gm])
         \<and> blobPtr gi = compiledNetwork ex_init0 \<and> blobPtr gm = compiledNetwork ex_main"
    using conjunct2 [OF conjunct2 [OF T]] m z unfolding d0 by fastforce
  show ?thesis using c1 c3 by (rule conjI)
qed

text \<open>
  Claim C10. Under protocol versions 2 and 3, when the compiler answers \<open>k\<close> "init"
  descriptions and then a "main", the loop leaves exactly those \<open>k\<close> descriptions in
  \<open>initDscrs\<close>; the unchecked \<open>initDscrs[0]\<close>, read as an optional value, is absent exactly
  when \<open>k = 0\<close>, where \<open>compileWS\<close> runs into the undefined behaviour, and is the first
  init description as soon as one init precedes the main.
\<close>

theorem compileWS_first_init_unchecked:
  assumes ver: "SEPARATE_WEIGHTS_VERSION cfg = 2 \<or> SEPARATE_WEIGHTS_VERSION cfg = 3"
      and inits: "\<forall>j<k. \<exists>d. split_calls a model cfg j = Inr (Some d) \<and> isInit (name (metadata d))"
      and stop: "split_calls a model cfg k = Inr (Some s)"
      and main: "isMain (name (metadata s))"
  shows "\<exists>initDscrs. collect_segments (split_calls a model cfg) 0 [] = Some (Inr (initDscrs, Some s, Suc k))
           \<and> length initDscrs = k
           \<and> (first_init initDscrs = None \<longleftrightarrow> k = 0)
           \<and> (0 < k \<longrightarrow> first_init initDscrs = Some (the (projr (split_calls a model cfg 0))))
           \<and> (k = 0 \<longrightarrow> compileWS a model cfg =
                 Some ([Log LOG_DEBUG (Text ''compile start'')],
                       Inl (UndefinedBehaviour ''initDscrs[0] of an empty vector'')))"
proof -
  let ?call = "split_calls a model cfg"
  let ?inits = "map (\<lambda>j. the (projr (?call j))) [0..<k]"
  have other: "\<not> isInit (name (metadata s))"
    by (rule isMain_not_isInit [OF main])
  have coll: "collect_segments ?call 0 [] = Some (Inr (?inits, Some s, Suc k))"
    using collect_segments_result [OF inits stop other] main by simp
  have not1: "SEPARATE_WEIGHTS_VERSION cfg \<noteq> 1" using ver by auto
  have e: "first_init ?inits = None \<longleftrightarrow> k = 0"
    by (cases k) (simp_all add: first_init_def upt_conv_Cons split: list.splits)
  have f: "first_init ?inits = Some (the (projr (?call 0)))" if "0 < k"
    using that by (simp add: first_init_def upt_conv_Cons)
  have u: "compileWS a model cfg =
                 Some ([Log LOG_DEBUG (Text ''compile start'')],
                       Inl (UndefinedBehaviour ''initDscrs[0] of an empty vector''))" if "k = 0"
    using that ver not1 coll
    by (simp add: compileWS_def finish_split_def first_init_def and_then_say throw_def)
  show ?thesis using coll e f u by auto
qed

theorem compileWS_first_init_unchecked_witness:
  "compileWS (ex_adapter [ex_main] None) () (ex_config 2) =
     Some ([Log LOG_DEBUG (Text ''compile start'')],
           Inl (UndefinedBehaviour ''initDscrs[0] of an empty vector''))
   \<and> (\<exists>initDscrs. collect_segments (split_calls (ex_adapter [ex_init0, ex_main] None) () (ex_config 2)) 0 []
          = Some (Inr (initDscrs, Some ex_main, 2)) \<and> first_init initDscrs = Some ex_init0)"
proof -
  have ver: "SEPARATE_WEIGHTS_VERSION (ex_config 2) = 2 \<or> SEPARATE_WEIGHTS_VERSION (ex_config 2) = 3"
    by (simp add: ex_config_def)
  have m: "isMain (name (metadata ex_main))"
    by (simp add: isMain_def starts_with_def ex_main_def)
  have i0: "\<forall>j<0. \<exists>d. split_calls (ex_adapter [ex_main] None) () (ex_config 2) j = Inr (Some d)
               \<and> isInit (name (metadata d))" by simp
  have s0: "split_calls (ex_adapter [ex_main] None) () (ex_config 2) 0 = Inr (Some ex_main)"
    by (simp add: ex_split_calls ex_answers_def)
  have i1: "\<forall>j<1. \<exists>d. split_calls (ex_adapter [ex_init0, ex_main] None) () (ex_config 2) j = Inr (Some d)
               \<and> isInit (name (metadata d))"
    by (simp add: ex_split_calls ex_answers_def isInit_def starts_with_def ex_init0_def)
  have s1: "split_calls (ex_adapter [ex_init0, ex_main] None) () (ex_config 2) 1 = Inr (Some ex_main)"
    by (simp add: ex_split_calls ex_answers_def)
  have a: "compileWS (ex_adapter [ex_main] None) () (ex_config 2) =
     Some ([Log LOG_DEBUG (Text ''compile start'')],
           Inl (UndefinedBehaviour ''initDscrs[0] of an empty vector''))"
    using compileWS_first_init_unchecked [OF ver i0 s0 m] by simp
  have b: "\<exists>initDscrs. collect_segments (split_calls (ex_adapter [ex_init0, ex_main] None) () (ex_config 2)) 0 []
          = Some (Inr (initDscrs, Some ex_main, 2)) \<and> first_init initDscrs = Some ex_init0"
  proof -
    have d0: "the (projr (split_calls (ex_adapter [ex_init0, ex_main] None) () (ex_config 2) 0)) = ex_init0"
      by (simp add: ex_split_calls ex_answers_def)
    show ?thesis
      using compileWS_first_init_unchecked [OF ver i1 s1 m] unfolding d0
      by (auto simp: numeral_2_eq_2)
  qed
  show ?thesis using a b by simp
qed

section \<open>Version 1 and handle realization\<close>

lemma wrap_descriptions_order:
  assumes "wrap_descriptions ze cfg ds acc = (l, Inr gs)"
  shows "\<exists>new. gs = acc @ new
           \<and> list_all2 (\<lambda>g d. blobPtr g = compiledNetwork d \<and> g_metadata g = metadata d
                               \<and> snd (try_getGraphHandle ze (compiledNetwork d)) = Inr (handle g))
                new ds"
  using assms
proof (induction ds arbitrary: acc l)
  case Nil
  then show ?case by (simp add: ret_def)
next
  case (Cons d ds)
  from Cons.prems obtain l1 h l2 g l3
    where h: "try_getGraphHandle ze (compiledNetwork d) = (l1, Inr h)"
      and g: "new_PluginGraph ze h (metadata d) (compiledNetwork d) cfg = (l2, Inr g)"
      and r: "wrap_descriptions ze cfg ds (acc @ [g]) = (l3, Inr gs)"
    by (auto simp: and_then_Inr)
  from Cons.IH [OF r] obtain new where new: "gs = (acc @ [g]) @ new"
      "list_all2 (\<lambda>g d. blobPtr g = compiledNetwork d \<and> g_metadata g = metadata d
                               \<and> snd (try_getGraphHandle ze (compiledNetwork d)) = Inr (handle g))
                new ds"
    by blast
  from new_PluginGraph_keeps [OF g] h new show ?case
    by (intro exI [of _ "g # new"]) simp
qed

lemma and_then_Inl:
  "and_then m f = (l, Inl e) \<longleftrightarrow>
     (m = (l, Inl e) \<or> (\<exists>l1 x l2. m = (l1, Inr x) \<and> f x = (l2, Inl e) \<and> l = l1 @ l2))"
  by (auto simp: and_then_def split: prod.splits sum.splits)

lemma try_getGraphHandle_no_throw: "try_getGraphHandle ze b \<noteq> (l, Inl e)"
  by (auto simp: try_getGraphHandle_def ret_def and_then_say split: option.splits sum.splits)

lemma wrap_descriptions_error:
  assumes "wrap_descriptions ze cfg ds acc = (l, Inl e)"
  shows "\<exists>d\<in>set ds. \<exists>h l'. new_PluginGraph ze h (metadata d) (compiledNetwork d) cfg = (l', Inl e)"
  using assms
proof (induction ds arbitrary: acc l)
  case Nil
  then show ?case by (simp add: ret_def)
next
  case (Cons d ds)
  then show ?case
    by (fastforce simp: and_then_Inl try_getGraphHandle_no_throw)
qed

lemma wrap_descriptions_total:
  assumes "\<And>h md b. \<exists>l g. new_PluginGraph ze h md b cfg = (l, Inr g)"
  shows "\<exists>l gs. wrap_descriptions ze cfg ds acc = (l, Inr gs)"
proof (cases "wrap_descriptions ze cfg ds acc")
  case (Pair l r)
  show ?thesis
  proof (cases r)
    case (Inl e)
    with Pair wrap_descriptions_error [of ze cfg ds acc l e] assms show ?thesis
      by (metis Inl_Inr_False snd_conv)
  next
    case (Inr gs)
    with Pair show ?thesis by simp
  qed
qed

text \<open>
  Claim C7. Under protocol version 1, for a non-empty list of descriptions returned by the
  one compiler call: if the name of the last one does not start with "main", \<open>compileWS\<close>
  throws the assertion; otherwise every description is wrapped, and whatever is returned
  has one artifact per description, in the compiler's order, each holding that
  description's blob and metadata. The only other exit is an exception of an artifact's
  constructor, which cannot occur without a driver or with deferred initialization.
\<close>

theorem compileWS_v1_last_must_be_main:
  assumes ver: "SEPARATE_WEIGHTS_VERSION cfg = 1"
      and descs: "compileWS_v1 (compiler a) model cfg = Inr descs"
      and nonempty: "descs \<noteq> []"
  shows "(\<not> isMain (name (metadata (last descs))) \<longrightarrow>
            compileWS a model cfg =
              Some ([Log LOG_DEBUG (Text ''compile start'')],
                    Inl (AssertFailed ''Unexpected network name for main:''
                           (name (metadata (last descs))))))
       \<and> (isMain (name (metadata (last descs))) \<longrightarrow>
            (\<exists>l r. compileWS a model cfg = Some (l, r)
               \<and> (\<forall>gs. r = Inr gs \<longrightarrow>
                     list_all2 (\<lambda>g d. blobPtr g = compiledNetwork d \<and> g_metadata g = metadata d)
                       gs descs)
               \<and> (\<forall>e. r = Inl e \<longrightarrow>
                     (\<exists>d\<in>set descs. \<exists>h l'.
                        new_PluginGraph (a_zeGraphExt a) h (metadata d) (compiledNetwork d) cfg
                          = (l', Inl e)))
               \<and> (\<not> CREATE_EXECUTOR cfg \<or> DEFER_WEIGHTS_LOAD cfg \<or> a_zeGraphExt a = None
                    \<longrightarrow> (\<exists>gs. r = Inr gs))))"
proof (intro conjI impI)
  assume "\<not> isMain (name (metadata (last descs)))"
  then show "compileWS a model cfg =
              Some ([Log LOG_DEBUG (Text ''compile start'')],
                    Inl (AssertFailed ''Unexpected network name for main:''
                           (name (metadata (last descs)))))"
    using ver descs nonempty
    by (simp add: compileWS_def compileWS_version1_def and_then_say throw_def)
next
  assume m: "isMain (name (metadata (last descs)))"
  let ?ze = "a_zeGraphExt a"
  obtain l r where w: "wrap_descriptions ?ze cfg descs [] = (l, r)"
    by (cases "wrap_descriptions ?ze cfg descs []") auto
  have c: "compileWS a model cfg = Some (Log LOG_DEBUG (Text ''compile start'') # l, r)"
    using ver descs nonempty m w
    by (simp add: compileWS_def compileWS_version1_def and_then_say)
  have ord: "list_all2 (\<lambda>g d. blobPtr g = compiledNetwork d \<and> g_metadata g = metadata d) gs descs"
    if "r = Inr gs" for gs
  proof -
    from wrap_descriptions_order [of ?ze cfg descs "[]" l gs] w that
    have "list_all2 (\<lambda>g d. blobPtr g = compiledNetwork d \<and> g_metadata g = metadata d
                               \<and> snd (try_getGraphHandle ?ze (compiledNetwork d)) = Inr (handle g))
                gs descs" by simp
    then show ?thesis by (rule list_all2_mono) simp
  qed
  have err: "\<exists>d\<in>set descs. \<exists>h l'.
                new_PluginGraph ?ze h (metadata d) (compiledNetwork d) cfg = (l', Inl e)"
    if "r = Inl e" for e
    using wrap_descriptions_error [of ?ze cfg descs "[]" l e] w that by simp
  have tot: "\<exists>gs. r = Inr gs"
    if d: "\<not> CREATE_EXECUTOR cfg \<or> DEFER_WEIGHTS_LOAD cfg \<or> ?ze = None"
  proof -
    have "\<exists>l g. new_PluginGraph ?ze h md b cfg = (l, Inr g)" for h md b
      using d new_PluginGraph_deferred [of cfg ?ze h md b] new_PluginGraph_no_ext [of h md b cfg]
      by auto
    from wrap_descriptions_total [of ?ze cfg descs "[]", OF this] w show ?thesis by simp
  qed
  show "\<exists>l r. compileWS a model cfg = Some (l, r)
               \<and> (\<forall>gs. r = Inr gs \<longrightarrow>
                     list_all2 (\<lambda>g d. blobPtr g = compiledNetwork d \<and> g_metadata g = metadata d)
                       gs descs)
               \<and> (\<forall>e. r = Inl e \<longrightarrow>
                     (\<exists>d\<in>set descs. \<exists>h l'.
                        new_PluginGraph (a_zeGraphExt a) h (metadata d) (compiledNetwork d) cfg
                          = (l', Inl e)))
               \<and> (\<not> CREATE_EXECUTOR cfg \<or> DEFER_WEIGHTS_LOAD cfg \<or> a_zeGraphExt a = None
                    \<longrightarrow> (\<exists>gs. r = Inr gs))"
    apply (rule exI [of _ "Log LOG_DEBUG (Text ''compile start'') # l"])
    apply (rule exI [of _ r])
    using c ord err tot by auto
qed

theorem compileWS_v1_last_must_be_main_witness:
  "(\<exists>l gi gm. compileWS (ex_adapter [ex_init0, ex_main] None) () (ex_config 1)
                  = Some (l, Inr [gi, gm])
       \<and> blobPtr gi = compiledNetwork ex_init0 \<and> g_metadata gi = metadata ex_init0
       \<and> blobPtr gm = compiledNetwork ex_main \<and> g_metadata gm = metadata ex_main)
   \<and> compileWS (ex_adapter [ex_main, ex_init0] None) () (ex_config 1) =
       Some ([Log LOG_DEBUG (Text ''compile start'')],
             Inl (AssertFailed ''Unexpected network name for main:'' ''init0''))"
proof -
  have ver: "SEPARATE_WEIGHTS_VERSION (ex_config 1) = 1"
    by (simp add: ex_config_def)
  have d1: "compileWS_v1 (compiler (ex_adapter [ex_init0, ex_main] None)) () (ex_config 1)
              = Inr [ex_init0, ex_main]"
    by (simp add: ex_adapter_def ex_compiler_def)
  have d2: "compileWS_v1 (compiler (ex_adapter [ex_main, ex_init0] None)) () (ex_config 1)
              = Inr [ex_main, ex_init0]"
    by (simp add: ex_adapter_def ex_compiler_def)
  have m1: "isMain (name (metadata (last [ex_init0, ex_main])))"
    by (simp add: isMain_def starts_with_def ex_main_def)
  have m2: "\<not> isMain (name (metadata (last [ex_main, ex_init0])))"
    by (simp add: isMain_def starts_with_def ex_init0_def)
  have n2: "name (metadata (last [ex_main, ex_init0])) = ''init0''"
    by (simp add: ex_init0_def)
  have z: "a_zeGraphExt (ex_adapter [ex_init0, ex_main] None) = None"
    by (simp add: ex_adapter_def)
  have "\<exists>l r. compileWS (ex_adapter [ex_init0, ex_main] None) () (ex_config 1) = Some (l, r)
       \<and> (\<exists>gs. r = Inr gs)
       \<and> (\<forall>gs. r = Inr gs \<longrightarrow>
             list_all2 (\<lambda>g d. blobPtr g = compiledNetwork d \<and> g_metadata g = metadata d)
               gs [ex_init0, ex_main])"
    using conjunct2 [OF compileWS_v1_last_must_be_main [OF ver d1]] m1 z by fastforce
  then have a: "\<exists>l gi gm. compileWS (ex_adapter [ex_init0, ex_main] None) () (ex_config 1)
                  = Some (l, Inr [gi, gm])
       \<and> blobPtr gi = compiledNetwork ex_init0 \<and> g_metadata gi = metadata ex_init0
       \<and> blobPtr gm = compiledNetwork ex_main \<and> g_metadata gm = metadata ex_main"
    by (auto simp: list_all2_Cons2)
  have b: "compileWS (ex_adapter [ex_main, ex_init0] None) () (ex_config 1) =
       Some ([Log LOG_DEBUG (Text ''compile start'')],
             Inl (AssertFailed ''Unexpected network name for main:'' ''init0''))"
    using conjunct1 [OF compileWS_v1_last_must_be_main [OF ver d2]] m2 unfolding n2 by simp
  show ?thesis using a b by (rule conjI)
qed

lemma new_PluginGraph_null_handle:
  "\<exists>l g. new_PluginGraph ze None md b cfg = (l, Inr g) \<and> handle g = None \<and> blobPtr g = b
          \<and> g_metadata g = md \<and> zeGraphExt g = ze"
proof -
  obtain l g where g: "new_PluginGraph ze None md b cfg = (l, Inr g)"
    using new_PluginGraph_no_driver by blast
  with new_PluginGraph_keeps [OF g] show ?thesis by simp
qed

lemma try_getGraphHandle_fails:
  "getGraphHandle z b = Inl e \<Longrightarrow>
     try_getGraphHandle (Some z) b = ([Log LOG_INFO (Text no_handle_msg)], Inr None)"
  by (simp add: try_getGraphHandle_def and_then_say ret_def)

lemma wrap_descriptions_all_fail:
  assumes "\<forall>d\<in>set ds. \<exists>e. getGraphHandle z (compiledNetwork d) = Inl e"
  shows "\<exists>l gs. wrap_descriptions (Some z) cfg ds acc = (l, Inr (acc @ gs))
           \<and> list_all2 (\<lambda>g d. handle g = None \<and> blobPtr g = compiledNetwork d
                               \<and> g_metadata g = metadata d) gs ds
           \<and> (ds \<noteq> [] \<longrightarrow> Log LOG_INFO (Text no_handle_msg) \<in> set l)"
  using assms
proof (induction ds arbitrary: acc)
  case Nil
  then show ?case by (simp add: ret_def)
next
  case (Cons d ds)
  from Cons.prems obtain e where e: "getGraphHandle z (compiledNetwork d) = Inl e" by auto
  obtain l1 g where g: "new_PluginGraph (Some z) None (metadata d) (compiledNetwork d) cfg = (l1, Inr g)"
      "handle g = None" "blobPtr g = compiledNetwork d" "g_metadata g = metadata d"
    using new_PluginGraph_null_handle by blast
  from Cons.IH [of "acc @ [g]"] Cons.prems obtain l2 gs
    where r: "wrap_descriptions (Some z) cfg ds (acc @ [g]) = (l2, Inr ((acc @ [g]) @ gs))"
      "list_all2 (\<lambda>g d. handle g = None \<and> blobPtr g = compiledNetwork d
                               \<and> g_metadata g = metadata d) gs ds"
    by auto
  show ?case
    apply (rule exI [of _ "Log LOG_INFO (Text no_handle_msg) # l1 @ l2"])
    apply (rule exI [of _ "g # gs"])
    using g r by (simp add: try_getGraphHandle_fails [OF e] and_then_def)
qed

lemma finish_split_init_fails:
  assumes "getGraphHandle z (compiledNetwork d0) = Inl e"
  shows "\<exists>l gi gm. finish_split (Some z) cfg (d0 # ds) (Some s) = (l, Inr [gi, gm])
           \<and> handle gi = None \<and> handle gm = None
           \<and> blobPtr gi = compiledNetwork d0 \<and> g_metadata gi = metadata d0
           \<and> blobPtr gm = compiledNetwork s \<and> g_metadata gm = metadata s
           \<and> Log LOG_INFO (Text no_handle_msg) \<in> set l"
proof -
  have r: "realize_init_main (Some z) d0 (Some s) = ([Log LOG_INFO (Text no_handle_msg)], Inr (None, None))"
    using assms by (simp add: realize_init_main_def and_then_say ret_def)
  obtain l1 gi where gi: "new_PluginGraph (Some z) None (metadata d0) (compiledNetwork d0) cfg = (l1, Inr gi)"
      "handle gi = None" "blobPtr gi = compiledNetwork d0" "g_metadata gi = metadata d0"
    using new_PluginGraph_null_handle by blast
  obtain l2 gm where gm: "new_PluginGraph (Some z) None (metadata s) (compiledNetwork s) cfg = (l2, Inr gm)"
      "handle gm = None" "blobPtr gm = compiledNetwork s" "g_metadata gm = metadata s"
    using new_PluginGraph_null_handle by blast
  show ?thesis
    apply (rule exI [of _ "Log LOG_DEBUG (Text ''compile end'') # Log LOG_INFO (Text no_handle_msg) # l1 @ l2"])
    apply (rule exI [of _ gi])
    apply (rule exI [of _ gm])
    using gi gm by (simp add: finish_split_def first_init_def r and_then_def say_def ret_def)
qed

lemma try_getGraphHandle_value:
  "snd (try_getGraphHandle (Some z) b) =
     Inr (case getGraphHandle z b of Inl e \<Rightarrow> None | Inr h \<Rightarrow> Some h)"
  by (simp add: try_getGraphHandle_def ret_def and_then_say split: sum.splits)

lemma compileWS_v1_deferred_handles:
  assumes ze: "a_zeGraphExt a = Some z"
      and ver: "SEPARATE_WEIGHTS_VERSION cfg = 1"
      and descs: "compileWS_v1 (compiler a) model cfg = Inr descs" "descs \<noteq> []"
                 "isMain (name (metadata (last descs)))"
      and deferred: "\<not> CREATE_EXECUTOR cfg \<or> DEFER_WEIGHTS_LOAD cfg"
  shows "\<exists>l gs. compileWS a model cfg = Some (l, Inr gs)
           \<and> list_all2 (\<lambda>g d. handle g = (case getGraphHandle z (compiledNetwork d) of
                                             Inl e \<Rightarrow> None | Inr h \<Rightarrow> Some h)
                               \<and> blobPtr g = compiledNetwork d \<and> g_metadata g = metadata d)
                gs descs"
proof -
  have "\<exists>l g. new_PluginGraph (Some z) h md b cfg = (l, Inr g)" for h md b
    using new_PluginGraph_deferred [OF deferred] by blast
  from wrap_descriptions_total [of "Some z" cfg descs "[]", OF this]
  obtain l gs where w: "wrap_descriptions (Some z) cfg descs [] = (l, Inr gs)" by blast
  from wrap_descriptions_order [OF w]
  have "list_all2 (\<lambda>g d. blobPtr g = compiledNetwork d \<and> g_metadata g = metadata d
                               \<and> snd (try_getGraphHandle (Some z) (compiledNetwork d)) = Inr (handle g))
                gs descs" by simp
  then have o: "list_all2 (\<lambda>g d. handle g = (case getGraphHandle z (compiledNetwork d) of
                                             Inl e \<Rightarrow> None | Inr h \<Rightarrow> Some h)
                               \<and> blobPtr g = compiledNetwork d \<and> g_metadata g = metadata d)
                gs descs"
    by (rule list_all2_mono) (auto simp: try_getGraphHandle_value)
  have "compileWS a model cfg = Some (Log LOG_DEBUG (Text ''compile start'') # l, Inr gs)"
    using ver descs ze w by (simp add: compileWS_def compileWS_version1_def and_then_say)
  with o show ?thesis by blast
qed

lemma finish_split_main_fails:
  assumes "getGraphHandle z (compiledNetwork d0) = Inr hi"
      and "getGraphHandle z (compiledNetwork s) = Inl e"
      and deferred: "\<not> CREATE_EXECUTOR cfg \<or> DEFER_WEIGHTS_LOAD cfg"
  shows "\<exists>l gi gm. finish_split (Some z) cfg (d0 # ds) (Some s) = (l, Inr [gi, gm])
           \<and> handle gi = Some hi \<and> handle gm = None
           \<and> blobPtr gi = compiledNetwork d0 \<and> g_metadata gi = metadata d0
           \<and> blobPtr gm = compiledNetwork s \<and> g_metadata gm = metadata s
           \<and> Log LOG_INFO (Text no_handle_msg) \<in> set l"
proof -
  have r: "realize_init_main (Some z) d0 (Some s)
             = ([Log LOG_INFO (Text no_handle_msg)], Inr (Some hi, None))"
    using assms(1,2) by (simp add: realize_init_main_def and_then_say ret_def)
  obtain l1 gi where gi: "new_PluginGraph (Some z) (Some hi) (metadata d0) (compiledNetwork d0) cfg
                            = (l1, Inr gi)"
    using new_PluginGraph_deferred [OF deferred] by blast
  obtain l2 gm where gm: "new_PluginGraph (Some z) None (metadata s) (compiledNetwork s) cfg
                            = (l2, Inr gm)"
    using new_PluginGraph_deferred [OF deferred] by blast
  show ?thesis
    apply (rule exI [of _ "Log LOG_DEBUG (Text ''compile end'') # Log LOG_INFO (Text no_handle_msg) # l1 @ l2"])
    apply (rule exI [of _ gi])
    apply (rule exI [of _ gm])
    using new_PluginGraph_keeps [OF gi] new_PluginGraph_keeps [OF gm] gi gm
    by (simp add: finish_split_def first_init_def r and_then_def say_def ret_def)
qed

lemma compileWS_split_shape:
  assumes ver: "SEPARATE_WEIGHTS_VERSION cfg = 2 \<or> SEPARATE_WEIGHTS_VERSION cfg = 3"
      and first: "split_calls a model cfg 0 = Inr (Some d0)" "isInit (name (metadata d0))"
      and inits: "\<forall>j<k. \<exists>d. split_calls a model cfg (Suc j) = Inr (Some d) \<and> isInit (name (metadata d))"
      and stop: "split_calls a model cfg (Suc k) = Inr (Some s)" "isMain (name (metadata s))"
  shows "\<exists>rest. compileWS a model cfg =
           Some (and_then (say LOG_DEBUG ''compile start'')
                   (\<lambda>_. finish_split (a_zeGraphExt a) cfg (d0 # rest) (Some s)))"
proof -
  let ?call = "split_calls a model cfg"
  have all: "\<forall>j<Suc k. \<exists>d. ?call j = Inr (Some d) \<and> isInit (name (metadata d))"
  proof (intro allI impI)
    fix j assume "j < Suc k"
    then show "\<exists>d. ?call j = Inr (Some d) \<and> isInit (name (metadata d))"
      using first inits by (cases j) auto
  qed
  have other: "\<not> isInit (name (metadata s))"
    using stop(2) by (rule isMain_not_isInit)
  have coll: "collect_segments ?call 0 [] =
                Some (Inr (map (\<lambda>j. the (projr (?call j))) [0..<Suc k], Some s, Suc (Suc k)))"
    using collect_segments_result [OF all stop(1) other] stop(2) by simp
  have "\<exists>rest. map (\<lambda>j. the (projr (?call j))) [0..<Suc k] = d0 # rest"
    using first by (simp add: upt_conv_Cons del: upt_Suc)
  then obtain rest where shape: "map (\<lambda>j. the (projr (?call j))) [0..<Suc k] = d0 # rest" ..
  have not1: "SEPARATE_WEIGHTS_VERSION cfg \<noteq> 1" using ver by auto
  have "compileWS a model cfg =
           Some (and_then (say LOG_DEBUG ''compile start'')
                   (\<lambda>_. finish_split (a_zeGraphExt a) cfg (d0 # rest) (Some s)))"
    using ver not1 unfolding compileWS_def coll shape by simp
  then show ?thesis ..
qed

text \<open>
  Claim C4. With a driver present, a failure \<open>e\<close> of \<open>getGraphHandle\<close> leaves \<open>parse\<close> as
  the exception \<open>e\<close>. In \<open>compile\<close>, and in \<open>compileWS\<close> under every protocol version, the
  same failure is caught: the call returns its artifacts, the artifact whose realization
  failed has a null handle and holds the compiled blob and metadata, and the
  informational message is in the log. This is shown when every realization fails and,
  with deferred initialization (so that no constructor touches the driver), when some
  succeed: under version 1 each artifact's handle is null exactly where the driver call
  failed, and under versions 2 and 3 a failure for the main blob leaves the init handle
  set and the main handle null.
\<close>

theorem handle_failure_propagates_only_from_parse:
  assumes ze: "a_zeGraphExt a = Some z"
  shows "(parse_c (compiler a) network cfg = Inr md \<and> getGraphHandle z network = Inl e \<longrightarrow>
            parse a network cfg =
              ([Log LOG_DEBUG (Text ''parse start''), Log LOG_DEBUG (Text ''parse end'')], Inl e))
       \<and> (compile_c (compiler a) model cfg = Inr nd
            \<and> getGraphHandle z (compiledNetwork nd) = Inl e \<longrightarrow>
            (\<exists>l g. compile a model cfg = (l, Inr g) \<and> handle g = None
                 \<and> blobPtr g = compiledNetwork nd \<and> g_metadata g = metadata nd
                 \<and> Log LOG_INFO (Text no_handle_msg) \<in> set l))
       \<and> (SEPARATE_WEIGHTS_VERSION cfg = 1 \<and> compileWS_v1 (compiler a) model cfg = Inr descs
            \<and> descs \<noteq> [] \<and> isMain (name (metadata (last descs)))
            \<and> (\<forall>d\<in>set descs. \<exists>e. getGraphHandle z (compiledNetwork d) = Inl e) \<longrightarrow>
            (\<exists>l gs. compileWS a model cfg = Some (l, Inr gs)
                 \<and> list_all2 (\<lambda>g d. handle g = None \<and> blobPtr g = compiledNetwork d
                                     \<and> g_metadata g = metadata d) gs descs
                 \<and> Log LOG_INFO (Text no_handle_msg) \<in> set l))
       \<and> (SEPARATE_WEIGHTS_VERSION cfg = 1 \<and> compileWS_v1 (compiler a) model cfg = Inr descs
            \<and> descs \<noteq> [] \<and> isMain (name (metadata (last descs)))
            \<and> (\<not> CREATE_EXECUTOR cfg \<or> DEFER_WEIGHTS_LOAD cfg) \<longrightarrow>
            (\<exists>l gs. compileWS a model cfg = Some (l, Inr gs)
                 \<and> list_all2 (\<lambda>g d. handle g = (case getGraphHandle z (compiledNetwork d) of
                                                   Inl e \<Rightarrow> None | Inr h \<Rightarrow> Some h)
                                     \<and> blobPtr g = compiledNetwork d
                                     \<and> g_metadata g = metadata d) gs descs))
       \<and> ((SEPARATE_WEIGHTS_VERSION cfg = 2 \<or> SEPARATE_WEIGHTS_VERSION cfg = 3)
            \<and> split_calls a model cfg 0 = Inr (Some d0) \<and> isInit (name (metadata d0))
            \<and> (\<forall>j<k. \<exists>d. split_calls a model cfg (Suc j) = Inr (Some d) \<and> isInit (name (metadata d)))
            \<and> split_calls a model cfg (Suc k) = Inr (Some s) \<and> isMain (name (metadata s))
            \<and> getGraphHandle z (compiledNetwork d0) = Inl e \<longrightarrow>
            (\<exists>l gi gm. compileWS a model cfg = Some (l, Inr [gi, gm])
                 \<and> handle gi = None \<and> handle gm = None
                 \<and> blobPtr gi = compiledNetwork d0 \<and> g_metadata gi = metadata d0
                 \<and> blobPtr gm = compiledNetwork s \<and> g_metadata gm = metadata s
                 \<and> Log LOG_INFO (Text no_handle_msg) \<in> set l))
       \<and> ((SEPARATE_WEIGHTS_VERSION cfg = 2 \<or> SEPARATE_WEIGHTS_VERSION cfg = 3)
            \<and> split_calls a model cfg 0 = Inr (Some d0) \<and> isInit (name (metadata d0))
            \<and> (\<forall>j<k. \<exists>d. split_calls a model cfg (Suc j) = Inr (Some d) \<and> isInit (name (metadata d)))
            \<and> split_calls a model cfg (Suc k) = Inr (Some s) \<and> isMain (name (metadata s))
            \<and> getGraphHandle z (compiledNetwork d0) = Inr hi
            \<and> getGraphHandle z (compiledNetwork s) = Inl e
            \<and> (\<not> CREATE_EXECUTOR cfg \<or> DEFER_WEIGHTS_LOAD cfg) \<longrightarrow>
            (\<exists>l gi gm. compileWS a model cfg = Some (l, Inr [gi, gm])
                 \<and> handle gi = Some hi \<and> handle gm = None
                 \<and> blobPtr gi = compiledNetwork d0 \<and> g_metadata gi = metadata d0
                 \<and> blobPtr gm = compiledNetwork s \<and> g_metadata gm = metadata s
                 \<and> Log LOG_INFO (Text no_handle_msg) \<in> set l))"
proof (intro conjI impI)
  assume "parse_c (compiler a) network cfg = Inr md \<and> getGraphHandle z network = Inl e"
  then show "parse a network cfg =
              ([Log LOG_DEBUG (Text ''parse start''), Log LOG_DEBUG (Text ''parse end'')], Inl e)"
    using ze by (simp add: parse_def and_then_say) (simp add: throw_def)
next
  assume h: "compile_c (compiler a) model cfg = Inr nd
            \<and> getGraphHandle z (compiledNetwork nd) = Inl e"
  obtain l1 g where g: "new_PluginGraph (Some z) None (metadata nd) (compiledNetwork nd) cfg = (l1, Inr g)"
      "handle g = None" "blobPtr g = compiledNetwork nd" "g_metadata g = metadata nd"
    using new_PluginGraph_null_handle by blast
  have "compile a model cfg =
          (Log LOG_DEBUG (Text ''compile start'') # Log LOG_DEBUG (Text ''compile end'')
             # Log LOG_INFO (Text no_handle_msg) # l1, Inr g)"
    using h ze g(1) try_getGraphHandle_fails [of z "compiledNetwork nd" e]
    by (simp add: compile_def and_then_say) (simp add: and_then_def)
  with g show "\<exists>l g. compile a model cfg = (l, Inr g) \<and> handle g = None
                 \<and> blobPtr g = compiledNetwork nd \<and> g_metadata g = metadata nd
                 \<and> Log LOG_INFO (Text no_handle_msg) \<in> set l"
    by simp
next
  assume h: "SEPARATE_WEIGHTS_VERSION cfg = 1 \<and> compileWS_v1 (compiler a) model cfg = Inr descs
            \<and> descs \<noteq> [] \<and> isMain (name (metadata (last descs)))
            \<and> (\<forall>d\<in>set descs. \<exists>e. getGraphHandle z (compiledNetwork d) = Inl e)"
  then have "\<forall>d\<in>set descs. \<exists>e. getGraphHandle z (compiledNetwork d) = Inl e" by blast
  from wrap_descriptions_all_fail [OF this, of cfg "[]"] obtain l gs
    where w: "wrap_descriptions (Some z) cfg descs [] = (l, Inr gs)"
      "list_all2 (\<lambda>g d. handle g = None \<and> blobPtr g = compiledNetwork d
                               \<and> g_metadata g = metadata d) gs descs"
      "Log LOG_INFO (Text no_handle_msg) \<in> set l"
    using h by auto
  have "compileWS a model cfg = Some (Log LOG_DEBUG (Text ''compile start'') # l, Inr gs)"
    using h ze w(1) by (simp add: compileWS_def compileWS_version1_def and_then_say)
  with w show "\<exists>l gs. compileWS a model cfg = Some (l, Inr gs)
                 \<and> list_all2 (\<lambda>g d. handle g = None \<and> blobPtr g = compiledNetwork d
                                     \<and> g_metadata g = metadata d) gs descs
                 \<and> Log LOG_INFO (Text no_handle_msg) \<in> set l"
    by auto
next
  assume h: "SEPARATE_WEIGHTS_VERSION cfg = 1 \<and> compileWS_v1 (compiler a) model cfg = Inr descs
            \<and> descs \<noteq> [] \<and> isMain (name (metadata (last descs)))
            \<and> (\<not> CREATE_EXECUTOR cfg \<or> DEFER_WEIGHTS_LOAD cfg)"
  then show "\<exists>l gs. compileWS a model cfg = Some (l, Inr gs)
                 \<and> list_all2 (\<lambda>g d. handle g = (case getGraphHandle z (compiledNetwork d) of
                                                   Inl e \<Rightarrow> None | Inr h \<Rightarrow> Some h)
                                     \<and> blobPtr g = compiledNetwork d
                                     \<and> g_metadata g = metadata d) gs descs"
    using compileWS_v1_deferred_handles [OF ze, of cfg model descs] by blast
next
  assume h: "(SEPARATE_WEIGHTS_VERSION cfg = 2 \<or> SEPARATE_WEIGHTS_VERSION cfg = 3)
            \<and> split_calls a model cfg 0 = Inr (Some d0) \<and> isInit (name (metadata d0))
            \<and> (\<forall>j<k. \<exists>d. split_calls a model cfg (Suc j) = Inr (Some d) \<and> isInit (name (metadata d)))
            \<and> split_calls a model cfg (Suc k) = Inr (Some s) \<and> isMain (name (metadata s))
            \<and> getGraphHandle z (compiledNetwork d0) = Inl e"
  then obtain rest where c: "compileWS a model cfg =
           Some (and_then (say LOG_DEBUG ''compile start'')
                   (\<lambda>_. finish_split (a_zeGraphExt a) cfg (d0 # rest) (Some s)))"
    using compileWS_split_shape [of cfg a model d0 k s] by blast
  have e: "getGraphHandle z (compiledNetwork d0) = Inl e" using h by blast
  from finish_split_init_fails [OF e, of cfg rest s]
  obtain l gi gm where f:
      "finish_split (Some z) cfg (d0 # rest) (Some s) = (l, Inr [gi, gm])"
      "handle gi = None \<and> handle gm = None
           \<and> blobPtr gi = compiledNetwork d0 \<and> g_metadata gi = metadata d0
           \<and> blobPtr gm = compiledNetwork s \<and> g_metadata gm = metadata s
           \<and> Log LOG_INFO (Text no_handle_msg) \<in> set l"
    by blast
  have "compileWS a model cfg = Some (Log LOG_DEBUG (Text ''compile start'') # l, Inr [gi, gm])"
    unfolding c using ze by (simp add: and_then_say f(1))
  with f(2) show "\<exists>l gi gm. compileWS a model cfg = Some (l, Inr [gi, gm])
                 \<and> handle gi = None \<and> handle gm = None
                 \<and> blobPtr gi = compiledNetwork d0 \<and> g_metadata gi = metadata d0
                 \<and> blobPtr gm = compiledNetwork s \<and> g_metadata gm = metadata s
                 \<and> Log LOG_INFO (Text no_handle_msg) \<in> set l"
    by auto
next
  assume h: "(SEPARATE_WEIGHTS_VERSION cfg = 2 \<or> SEPARATE_WEIGHTS_VERSION cfg = 3)
            \<and> split_calls a model cfg 0 = Inr (Some d0) \<and> isInit (name (metadata d0))
            \<and> (\<forall>j<k. \<exists>d. split_calls a model cfg (Suc j) = Inr (Some d) \<and> isInit (name (metadata d)))
            \<and> split_calls a model cfg (Suc k) = Inr (Some s) \<and> isMain (name (metadata s))
            \<and> getGraphHandle z (compiledNetwork d0) = Inr hi
            \<and> getGraphHandle z (compiledNetwork s) = Inl e
            \<and> (\<not> CREATE_EXECUTOR cfg \<or> DEFER_WEIGHTS_LOAD cfg)"
  then obtain rest where c: "compileWS a model cfg =
           Some (and_then (say LOG_DEBUG ''compile start'')
                   (\<lambda>_. finish_split (a_zeGraphExt a) cfg (d0 # rest) (Some s)))"
    using compileWS_split_shape [of cfg a model d0 k s] by blast
  have i: "getGraphHandle z (compiledNetwork d0) = Inr hi"
   and m: "getGraphHandle z (compiledNetwork s) = Inl e"
   and d: "\<not> CREATE_EXECUTOR cfg \<or> DEFER_WEIGHTS_LOAD cfg"
    using h by blast+
  from finish_split_main_fails [OF i m d, of rest]
  obtain l gi gm where f:
      "finish_split (Some z) cfg (d0 # rest) (Some s) = (l, Inr [gi, gm])"
      "handle gi = Some hi \<and> handle gm = None
           \<and> blobPtr gi = compiledNetwork d0 \<and> g_metadata gi = metadata d0
           \<and> blobPtr gm = compiledNetwork s \<and> g_metadata gm = metadata s
           \<and> Log LOG_INFO (Text no_handle_msg) \<in> set l"
    by blast
  have "compileWS a model cfg = Some (Log LOG_DEBUG (Text ''compile start'') # l, Inr [gi, gm])"
    unfolding c using ze by (simp add: and_then_say f(1))
  with f(2) show "\<exists>l gi gm. compileWS a model cfg = Some (l, Inr [gi, gm])
                 \<and> handle gi = Some hi \<and> handle gm = None
                 \<and> blobPtr gi = compiledNetwork d0 \<and> g_metadata gi = metadata d0
                 \<and> blobPtr gm = compiledNetwork s \<and> g_metadata gm = metadata s
                 \<and> Log LOG_INFO (Text no_handle_msg) \<in> set l"
    by auto
qed

theorem handle_failure_propagates_only_from_parse_witness:
  "parse (ex_adapter [ex_init0, ex_main] (Some ex_ze_failing)) [7] (ex_config 1) =
     ([Log LOG_DEBUG (Text ''parse start''), Log LOG_DEBUG (Text ''parse end'')],
      Inl (LevelZeroFailure ''pfnCreate2'' (ZE_RESULT_ERROR 1)))
   \<and> (\<exists>l g. compile (ex_adapter [ex_init0, ex_main] (Some ex_ze_failing)) () (ex_config 1) = (l, Inr g)
          \<and> handle g = None \<and> blobPtr g = compiledNetwork ex_main
          \<and> Log LOG_INFO (Text no_handle_msg) \<in> set l)
   \<and> (\<exists>l gs. compileWS (ex_adapter [ex_init0, ex_main] (Some ex_ze_failing)) () (ex_config 1)
                = Some (l, Inr gs)
          \<and> list_all2 (\<lambda>g d. handle g = None \<and> blobPtr g = compiledNetwork d
                              \<and> g_metadata g = metadata d) gs [ex_init0, ex_main])
   \<and> (\<exists>l gi gm. compileWS (ex_adapter [ex_init0, ex_main] (Some ex_ze_failing)) () (ex_config 2)
                = Some (l, Inr [gi, gm]) \<and> handle gi = None \<and> handle gm = None)
   \<and> (\<exists>l gi gm. compileWS (ex_adapter [ex_init0, ex_main] (Some ex_ze_init_only)) ()
                    (ex_config_deferred 3)
                = Some (l, Inr [gi, gm]) \<and> handle gi = Some 7 \<and> handle gm = None)"
proof -
  let ?a = "ex_adapter [ex_init0, ex_main] (Some ex_ze_failing)"
  let ?b = "ex_adapter [ex_init0, ex_main] (Some ex_ze_init_only)"
  let ?e = "LevelZeroFailure ''pfnCreate2'' (ZE_RESULT_ERROR 1)"
  have ze: "a_zeGraphExt ?a = Some ex_ze_failing"
    by (simp add: ex_adapter_def)
  have zb: "a_zeGraphExt ?b = Some ex_ze_init_only"
    by (simp add: ex_adapter_def)
  have gh: "getGraphHandle ex_ze_failing b = Inl ?e" for b
    by (simp add: ex_ze_failing_def)
  have gi: "getGraphHandle ex_ze_init_only (compiledNetwork ex_init0) = Inr 7"
    by (simp add: ex_ze_init_only_def)
  have gm: "getGraphHandle ex_ze_init_only (compiledNetwork ex_main) = Inl ?e"
    by (simp add: ex_ze_init_only_def ex_main_def ex_init0_def)
  have p: "parse_c (compiler ?a) [7] (ex_config 1) = Inr \<lparr>name = ''main''\<rparr>"
    by (simp add: ex_adapter_def ex_compiler_def)
  have c: "compile_c (compiler ?a) () (ex_config 1) = Inr ex_main"
    by (simp add: ex_adapter_def ex_compiler_def)
  have v1: "SEPARATE_WEIGHTS_VERSION (ex_config 1) = 1"
    by (simp add: ex_config_def)
  have d1: "compileWS_v1 (compiler ?a) () (ex_config 1) = Inr [ex_init0, ex_main]"
    by (simp add: ex_adapter_def ex_compiler_def)
  have m: "isMain (name (metadata ex_main))"
    by (simp add: isMain_def starts_with_def ex_main_def)
  have i: "isInit (name (metadata ex_init0))"
    by (simp add: isInit_def starts_with_def ex_init0_def)
  have v2: "SEPARATE_WEIGHTS_VERSION (ex_config 2) = 2 \<or> SEPARATE_WEIGHTS_VERSION (ex_config 2) = 3"
    by (simp add: ex_config_def)
  have v3: "SEPARATE_WEIGHTS_VERSION (ex_config_deferred 3) = 2
            \<or> SEPARATE_WEIGHTS_VERSION (ex_config_deferred 3) = 3"
    by (simp add: ex_config_def ex_config_deferred_def)
  have df: "\<not> CREATE_EXECUTOR (ex_config_deferred 3) \<or> DEFER_WEIGHTS_LOAD (ex_config_deferred 3)"
    by (simp add: ex_config_deferred_def)
  have s0: "split_calls ?a () (ex_config 2) 0 = Inr (Some ex_init0)"
    by (simp add: ex_split_calls ex_answers_def)
  have s1: "split_calls ?a () (ex_config 2) (Suc 0) = Inr (Some ex_main)"
    by (simp add: ex_split_calls ex_answers_def)
  have sc: "split_calls ?b () (ex_config_deferred 3) = ex_answers [ex_init0, ex_main]"
    by (simp add: split_calls_def ex_adapter_def ex_compiler_def ex_config_def
          ex_config_deferred_def Let_def)
  have t0: "split_calls ?b () (ex_config_deferred 3) 0 = Inr (Some ex_init0)"
    by (simp add: sc ex_answers_def)
  have t1: "split_calls ?b () (ex_config_deferred 3) (Suc 0) = Inr (Some ex_main)"
    by (simp add: sc ex_answers_def)
  note T1 = handle_failure_propagates_only_from_parse
              [OF ze, of "[7]" "ex_config 1" "\<lparr>name = ''main''\<rparr>" ?e "()" ex_main
                  "[ex_init0, ex_main]" ex_init0 0 ex_main]
  note T2 = handle_failure_propagates_only_from_parse
              [OF ze, of "[7]" "ex_config 2" "\<lparr>name = ''main''\<rparr>" ?e "()" ex_main
                  "[ex_init0, ex_main]" ex_init0 0 ex_main]
  note T3 = handle_failure_propagates_only_from_parse
              [OF zb, of "[7]" "ex_config_deferred 3" "\<lparr>name = ''main''\<rparr>" ?e "()" ex_main
                  "[ex_init0, ex_main]" ex_init0 0 ex_main 7]
  have w1: "parse ?a [7] (ex_config 1) =
     ([Log LOG_DEBUG (Text ''parse start''), Log LOG_DEBUG (Text ''parse end'')], Inl ?e)"
    using conjunct1 [OF T1] p gh by simp
  have w2: "\<exists>l g. compile ?a () (ex_config 1) = (l, Inr g)
          \<and> handle g = None \<and> blobPtr g = compiledNetwork ex_main
          \<and> Log LOG_INFO (Text no_handle_msg) \<in> set l"
    using conjunct1 [OF conjunct2 [OF T1]] c gh by auto
  have w3: "\<exists>l gs. compileWS ?a () (ex_config 1) = Some (l, Inr gs)
          \<and> list_all2 (\<lambda>g d. handle g = None \<and> blobPtr g = compiledNetwork d
                              \<and> g_metadata g = metadata d) gs [ex_init0, ex_main]"
    using conjunct1 [OF conjunct2 [OF conjunct2 [OF T1]]] v1 d1 m gh by auto
  have w4: "\<exists>l gi gm. compileWS ?a () (ex_config 2) = Some (l, Inr [gi, gm])
          \<and> handle gi = None \<and> handle gm = None"
    using conjunct1 [OF conjunct2 [OF conjunct2 [OF conjunct2 [OF conjunct2 [OF T2]]]]]
          v2 s0 s1 m i gh by auto
  have w5: "\<exists>l gi gm. compileWS ?b () (ex_config_deferred 3) = Some (l, Inr [gi, gm])
          \<and> handle gi = Some 7 \<and> handle gm = None"
    using conjunct2 [OF conjunct2 [OF conjunct2 [OF conjunct2 [OF conjunct2 [OF T3]]]]]
          v3 t0 t1 m i gi gm df by auto
  show ?thesis using w1 w2 w3 w4 w5 by simp
qed


section \<open>Teardown, export-only artifacts and the export format\<close>

text \<open>
  Claim C9. Tearing down a realized graph (driver present, handle set) calls the driver's
  \<open>destroyGraph\<close> on the handle once, clears the handle exactly when the driver reports
  success and leaves it unchanged otherwise, then clears the last-submitted-event slots
  and then releases the command queue, in this order; nothing else of the graph changes.
\<close>

theorem teardown_realized_graph:
  assumes "zeGraphExt g = Some z" and "handle g = Some h"
  shows "destroy_PluginGraph g =
           Inr (g\<lparr>handle := (if destroyGraph z h = ZE_RESULT_SUCCESS then None else Some h),
                   last_submitted_event := [], command_queue := None\<rparr>,
                DestroyGraph h (destroyGraph z h)
                  # (if last_submitted_event g \<noteq> [] then [ClearEvents] else [])
                  @ (if command_queue g \<noteq> None then [ResetQueue] else []))"
  using assms by (cases g) (auto simp: destroy_PluginGraph_def Let_def)

theorem teardown_realized_graph_witness:
  "destroy_PluginGraph ex_realized_graph =
     Inr (ex_realized_graph\<lparr>handle := None, last_submitted_event := [], command_queue := None\<rparr>,
          [DestroyGraph 5 ZE_RESULT_SUCCESS, ClearEvents, ResetQueue])"
proof -
  have z: "zeGraphExt ex_realized_graph = Some ex_ze_failing"
    by (simp add: ex_realized_graph_def)
  have h: "handle ex_realized_graph = Some 5"
    by (simp add: ex_realized_graph_def)
  show ?thesis
    using teardown_realized_graph [OF z h]
    by (simp add: ex_realized_graph_def ex_ze_failing_def)
qed

text \<open>
  The artifact that \<open>compile\<close> returns after a failed handle realization keeps the driver
  adapter, so \<open>set_argument_value\<close> on it reaches the driver with a null handle and ends
  with the driver's own error, not with the adapter's distinct one.
\<close>

theorem export_only_set_argument_value_counterexample:
  "compile (ex_adapter [ex_init0, ex_main] (Some ex_ze_failing)) () (ex_config 1) =
     ([Log LOG_DEBUG (Text ''compile start''), Log LOG_DEBUG (Text ''compile end''),
       Log LOG_INFO (Text no_handle_msg)], Inr ex_export_only_graph)
   \<and> set_argument_value ex_export_only_graph 0 0 =
       Inl (LevelZeroFailure ''pfnSetArgumentValue'' (ZE_RESULT_ERROR 2))
   \<and> set_argument_value ex_export_only_graph 0 0 \<noteq> Inl (Thrown not_initialized_msg)"
  by (simp add: compile_def ex_adapter_def ex_compiler_def ex_config_def ex_ze_failing_def
        try_getGraphHandle_def new_PluginGraph_def initialize_def and_then_def say_def ret_def
        lift_def ex_export_only_graph_def ex_main_def set_argument_value_def)

text \<open>
  Claim C5, as amended. For an artifact with a null handle: \<open>export_blob\<close> on a stream in
  good state appends the blob's bytes, returns their number and logs no error;
  \<open>set_argument_value\<close> throws the distinct "adapter wasn't initialized" error when the
  artifact has no driver adapter, and with an adapter it passes the null handle to the
  driver's \<open>setGraphArgumentValue\<close> and ends as the driver call ends.
\<close>

theorem export_only_operations:
  assumes "handle g = None"
  shows "(\<not> failed stream \<longrightarrow>
            (\<exists>l. export_blob g stream =
                   (stream\<lparr>written := written stream @ blobPtr g\<rparr>, l, length (blobPtr g))
                 \<and> Log LOG_ERROR (Text ''Write blob to stream failed. Blob is broken!'') \<notin> set l))
       \<and> (zeGraphExt g = None \<longrightarrow>
            set_argument_value g argi argv = Inl (Thrown not_initialized_msg))
       \<and> (\<forall>z. zeGraphExt g = Some z \<longrightarrow>
            set_argument_value g argi argv =
              (case setGraphArgumentValue z None argi argv of Some e \<Rightarrow> Inl e | None \<Rightarrow> Inr ()))"
  using assms
  by (auto simp: export_blob_def stream_write_def Let_def set_argument_value_def)

theorem export_only_operations_witness:
  "(\<exists>l. export_blob ex_export_only_graph ex_stream = (\<lparr>written = [4, 5, 6], failed = False\<rparr>, l, 3))
   \<and> set_argument_value (ex_export_only_graph\<lparr>zeGraphExt := None\<rparr>) 0 0
       = Inl (Thrown not_initialized_msg)
   \<and> set_argument_value ex_export_only_graph 0 0
       = Inl (LevelZeroFailure ''pfnSetArgumentValue'' (ZE_RESULT_ERROR 2))"
proof -
  have h1: "handle ex_export_only_graph = None"
    by (simp add: ex_export_only_graph_def)
  have h2: "handle (ex_export_only_graph\<lparr>zeGraphExt := None\<rparr>) = None"
    by (simp add: ex_export_only_graph_def)
  have a: "\<exists>l. export_blob ex_export_only_graph ex_stream
                 = (\<lparr>written = [4, 5, 6], failed = False\<rparr>, l, 3)"
    using conjunct1 [OF export_only_operations [OF h1, of ex_stream]]
    by (auto simp: ex_stream_def ex_export_only_graph_def)
  have b: "set_argument_value (ex_export_only_graph\<lparr>zeGraphExt := None\<rparr>) 0 0
             = Inl (Thrown not_initialized_msg)"
    using conjunct1 [OF conjunct2 [OF export_only_operations [OF h2, of _ 0 0]]]
    by (simp add: ex_export_only_graph_def)
  have c: "set_argument_value ex_export_only_graph 0 0
             = Inl (LevelZeroFailure ''pfnSetArgumentValue'' (ZE_RESULT_ERROR 2))"
    using conjunct2 [OF conjunct2 [OF export_only_operations [OF h1, of _ 0 0]]]
    by (simp add: ex_export_only_graph_def ex_ze_failing_def)
  show ?thesis using a b c by simp
qed

declare decimal.simps [simp del]

lemma unat_digit_char: "d < 10 \<Longrightarrow> unat (digit_char d) = 48 + d"
  by (simp add: digit_char_def unat_of_nat del: of_nat_add)

lemma is_digit_digit_char: "d < 10 \<Longrightarrow> is_digit (digit_char d)"
  using unat_digit_char [of d] by (simp add: is_digit_def word_le_nat_alt)

lemma decimal_all_digits: "c \<in> set (decimal n) \<Longrightarrow> is_digit c"
proof (induction n arbitrary: c rule: decimal.induct)
  case (1 n)
  show ?case
  proof (cases "n < 10")
    case True
    with "1.prems" show ?thesis
      by (subst (asm) decimal.simps) (simp add: is_digit_digit_char)
  next
    case False
    with "1.prems" have "c \<in> set (decimal (n div 10)) \<or> c = digit_char (n mod 10)"
      by (subst (asm) decimal.simps) auto
    then show ?thesis
      using "1.IH" [OF False] is_digit_digit_char [of "n mod 10"] by auto
  qed
qed

lemma decimal_not_Nil: "decimal n \<noteq> []"
  by (subst decimal.simps) simp

lemma digits_value_snoc: "digits_value (ds @ [c]) = 10 * digits_value ds + (unat c - 48)"
  by (simp add: digits_value_def)

lemma digits_value_decimal: "digits_value (decimal n) = n"
proof (induction n rule: decimal.induct)
  case (1 n)
  show ?case
  proof (cases "n < 10")
    case True
    then show ?thesis
      by (subst decimal.simps) (simp add: digits_value_def unat_digit_char)
  next
    case False
    then have "digits_value (decimal n)
                 = 10 * digits_value (decimal (n div 10)) + (unat (digit_char (n mod 10)) - 48)"
      by (subst decimal.simps) (simp add: digits_value_snoc)
    also have "\<dots> = 10 * (n div 10) + n mod 10"
      using "1.IH" [OF False] by (simp add: unat_digit_char)
    finally show ?thesis by simp
  qed
qed

lemma takeWhile_no_digit_head: "no_digit_head bs \<Longrightarrow> takeWhile is_digit bs = []"
  by (cases bs) (simp_all add: no_digit_head_def)

lemma dropWhile_no_digit_head: "no_digit_head bs \<Longrightarrow> dropWhile is_digit bs = bs"
  by (cases bs) (simp_all add: no_digit_head_def)

lemma read_uint32_decimal:
  assumes "n < 2 ^ 32" and "no_digit_head rest"
  shows "read_uint32 (decimal n @ rest) = Some (n, rest)"
proof -
  have t: "takeWhile is_digit (decimal n @ rest) = decimal n"
    using assms(2) by (simp add: takeWhile_append2 decimal_all_digits takeWhile_no_digit_head)
  have d: "dropWhile is_digit (decimal n @ rest) = rest"
    using assms(2) by (simp add: dropWhile_append2 decimal_all_digits dropWhile_no_digit_head)
  show ?thesis
    using assms(1) by (simp add: read_uint32_def t d decimal_not_Nil digits_value_decimal)
qed

lemma read_blob_text_framed:
  assumes "length b < 2 ^ 32" and "no_digit_head (b @ rest)"
  shows "read_blob (text_framed b @ rest) = Some (b, rest)"
proof -
  have u: "unat (of_nat (length b) :: 32 word) = length b"
    using assms(1) by (simp add: unat_of_nat)
  have "read_uint32 (decimal (length b) @ (b @ rest)) = Some (length b, b @ rest)"
    by (rule read_uint32_decimal [OF assms])
  then show ?thesis
    by (simp add: read_blob_def text_framed_def u)
qed

lemma no_digit_head_append: "b \<noteq> [] \<Longrightarrow> no_digit_head b \<Longrightarrow> no_digit_head (b @ rest)"
  by (cases b) (simp_all add: no_digit_head_def)

lemma read_blob_plain:
  "plain_blob b \<Longrightarrow> read_blob (text_framed b @ rest) = Some (b, rest)"
  by (simp add: plain_blob_def read_blob_text_framed no_digit_head_append)

lemma read_blobs_text_framed:
  assumes "\<forall>b\<in>set (butlast bs). plain_blob b"
      and "bs \<noteq> [] \<longrightarrow> length (last bs) < 2 ^ 32 \<and> no_digit_head (last bs)"
  shows "read_blobs (length bs) (concat (map text_framed bs)) = Some (bs, [])"
  using assms
proof (induction bs)
  case Nil
  then show ?case by simp
next
  case (Cons b bs)
  show ?case
  proof (cases "bs = []")
    case True
    with Cons.prems have "read_blob (text_framed b @ []) = Some (b, [])"
      by (intro read_blob_text_framed) simp_all
    with True show ?thesis by simp
  next
    case False
    with Cons.prems have b: "plain_blob b" by simp
    have "read_blobs (length bs) (concat (map text_framed bs)) = Some (bs, [])"
      using Cons.prems False by (intro Cons.IH) simp_all
    with read_blob_plain [OF b, of "concat (map text_framed bs)"] show ?thesis by simp
  qed
qed

lemma write_init_blobs_good:
  assumes "\<not> failed s"
  shows "write_init_blobs gs s =
           (s\<lparr>written := written s @ concat (map (\<lambda>g. text_framed (blobPtr g)) gs)\<rparr>, True)"
  using assms
proof (induction gs arbitrary: s)
  case Nil
  then show ?case by simp
next
  case (Cons g gs)
  let ?s1 = "s\<lparr>written := written s @ text_framed (blobPtr g)\<rparr>"
  have s1: "stream_write (blobPtr g) (put_uint32 (of_nat (length (blobPtr g))) s) = ?s1"
    using Cons.prems by (simp add: stream_write_def put_uint32_def text_framed_def)
  have "\<not> failed ?s1" using Cons.prems by simp
  from Cons.IH [OF this] show ?case
    using Cons.prems by (simp add: s1 Let_def)
qed

lemma custom_export_split_init_written:
  assumes "\<not> failed stream" and "xmlContent \<noteq> []" and "binContent \<noteq> []"
  shows "fst (custom_export_split_init this stream initGraphs xmlContent binContent) =
           stream\<lparr>written := written stream
              @ text_framed xmlContent @ text_framed binContent @ text_framed (blobPtr this)
              @ decimal (unat (of_nat (length initGraphs) :: 32 word)) @ [58]
              @ concat (map (\<lambda>g. text_framed (blobPtr g)) initGraphs)\<rparr>"
proof -
  let ?s8 = "stream\<lparr>written := written stream
              @ text_framed xmlContent @ text_framed binContent @ text_framed (blobPtr this)
              @ decimal (unat (of_nat (length initGraphs) :: 32 word)) @ [58]\<rparr>"
  have g: "\<not> failed ?s8" using assms(1) by simp
  show ?thesis
    using assms
    by (simp add: custom_export_split_init_def Let_def put_uint32_def put_rdbuf_def
          stream_write_def put_char_def text_framed_def write_init_blobs_good split: prod.splits)
qed

lemma no_digit_head_colon: "no_digit_head (58 # bs)"
  by (simp add: no_digit_head_def is_digit_def)

text \<open>
  Claim C6, as amended. On a stream in good state and with non-empty XML and weights
  contents, the multi-init export appends exactly: for the XML, the weights and the main
  blob, and after the init count and one \<open>':'\<close> byte for every init blob, the size (cast
  to \<open>uint32_t\<close>) as decimal text followed by the bytes; the stream stays good. Reading
  these bytes back with formatted sizes recovers the four parts byte for byte when every
  part is shorter than \<open>2^32\<close> bytes and no size is directly followed by a digit: the XML,
  the weights, the main blob and every init blob but the last are non-empty and do not
  begin with a decimal digit, and the last init blob does not begin with one.
\<close>

theorem custom_export_split_init_text_layout:
  assumes good: "\<not> failed stream" and xml: "xmlContent \<noteq> []" and bin: "binContent \<noteq> []"
  shows "written (fst (custom_export_split_init this stream initGraphs xmlContent binContent)) =
           written stream
             @ text_framed xmlContent @ text_framed binContent @ text_framed (blobPtr this)
             @ decimal (unat (of_nat (length initGraphs) :: 32 word)) @ [58]
             @ concat (map (\<lambda>g. text_framed (blobPtr g)) initGraphs)
       \<and> \<not> failed (fst (custom_export_split_init this stream initGraphs xmlContent binContent))
       \<and> (plain_blob xmlContent \<and> plain_blob binContent \<and> plain_blob (blobPtr this)
            \<and> length initGraphs < 2 ^ 32
            \<and> (\<forall>g\<in>set (butlast initGraphs). plain_blob (blobPtr g))
            \<and> (initGraphs \<noteq> [] \<longrightarrow> length (blobPtr (last initGraphs)) < 2 ^ 32
                                     \<and> no_digit_head (blobPtr (last initGraphs)))
          \<longrightarrow> read_split_init
                (drop (length (written stream))
                   (written (fst (custom_export_split_init this stream initGraphs
                                    xmlContent binContent))))
              = Some (xmlContent, binContent, blobPtr this, map blobPtr initGraphs))"
proof -
  let ?out = "fst (custom_export_split_init this stream initGraphs xmlContent binContent)"
  let ?count = "decimal (unat (of_nat (length initGraphs) :: 32 word))"
  let ?inits = "concat (map (\<lambda>g. text_framed (blobPtr g)) initGraphs)"
  note w = custom_export_split_init_written [OF good xml bin, of this initGraphs]
  have layout: "written ?out = written stream
             @ text_framed xmlContent @ text_framed binContent @ text_framed (blobPtr this)
             @ ?count @ [58] @ ?inits"
    by (simp add: w)
  have ok: "\<not> failed ?out"
    using good by (simp add: w)
  have roundtrip: "read_split_init (drop (length (written stream)) (written ?out))
              = Some (xmlContent, binContent, blobPtr this, map blobPtr initGraphs)"
    if h: "plain_blob xmlContent \<and> plain_blob binContent \<and> plain_blob (blobPtr this)
            \<and> length initGraphs < 2 ^ 32
            \<and> (\<forall>g\<in>set (butlast initGraphs). plain_blob (blobPtr g))
            \<and> (initGraphs \<noteq> [] \<longrightarrow> length (blobPtr (last initGraphs)) < 2 ^ 32
                                     \<and> no_digit_head (blobPtr (last initGraphs)))"
  proof -
    let ?bs = "map blobPtr initGraphs"
    have c: "unat (of_nat (length initGraphs) :: 32 word) = length initGraphs"
      using h by (simp add: unat_of_nat)
    have i: "?inits = concat (map text_framed ?bs)"
      by (simp add: comp_def)
    have r4: "read_uint32 (decimal (length initGraphs) @ (58 # ?inits))
                = Some (length initGraphs, 58 # ?inits)"
      using h by (intro read_uint32_decimal no_digit_head_colon) simp
    have "\<forall>b\<in>set (butlast ?bs). plain_blob b"
      using h by (simp add: map_butlast [symmetric])
    moreover have "?bs \<noteq> [] \<longrightarrow> length (last ?bs) < 2 ^ 32 \<and> no_digit_head (last ?bs)"
      using h by (simp add: last_map)
    ultimately have r5: "read_blobs (length ?bs) (concat (map text_framed ?bs)) = Some (?bs, [])"
      by (rule read_blobs_text_framed)
    have "read_split_init (text_framed xmlContent @ text_framed binContent
             @ text_framed (blobPtr this) @ decimal (length initGraphs) @ 58 # ?inits)
           = Some (xmlContent, binContent, blobPtr this, ?bs)"
      using h r4 r5 by (simp add: read_split_init_def read_blob_plain i)
    then show ?thesis
      by (simp add: layout c)
  qed
  show ?thesis using layout ok roundtrip by blast
qed

theorem custom_export_split_init_text_layout_witness:
  "written (fst (custom_export_split_init ex_export_only_graph ex_stream
                   [ex_export_only_graph, ex_empty_graph] [60] [98])) =
     [49, 60, 49, 98, 51, 4, 5, 6, 50, 58, 51, 4, 5, 6, 48]
   \<and> read_split_init [49, 60, 49, 98, 51, 4, 5, 6, 50, 58, 51, 4, 5, 6, 48]
       = Some ([60], [98], [4, 5, 6], [[4, 5, 6], []])"
proof -
  have good: "\<not> failed ex_stream" by (simp add: ex_stream_def)
  have xml: "[60 :: byte] \<noteq> []" by simp
  have bin: "[98 :: byte] \<noteq> []" by simp
  note T = custom_export_split_init_text_layout
             [OF good xml bin, of ex_export_only_graph "[ex_export_only_graph, ex_empty_graph]"]
  have w: "written (fst (custom_export_split_init ex_export_only_graph ex_stream
                   [ex_export_only_graph, ex_empty_graph] [60] [98])) =
     [49, 60, 49, 98, 51, 4, 5, 6, 50, 58, 51, 4, 5, 6, 48]"
    using conjunct1 [OF T]
    by (simp add: ex_stream_def text_framed_def decimal.simps digit_char_def
          ex_export_only_graph_def ex_empty_graph_def)
  have p: "plain_blob [60] \<and> plain_blob [98] \<and> plain_blob (blobPtr ex_export_only_graph)
            \<and> length [ex_export_only_graph, ex_empty_graph] < 2 ^ 32
            \<and> (\<forall>g\<in>set (butlast [ex_export_only_graph, ex_empty_graph]). plain_blob (blobPtr g))
            \<and> ([ex_export_only_graph, ex_empty_graph] \<noteq> [] \<longrightarrow>
                  length (blobPtr (last [ex_export_only_graph, ex_empty_graph])) < 2 ^ 32
                  \<and> no_digit_head (blobPtr (last [ex_export_only_graph, ex_empty_graph])))"
    by (simp add: plain_blob_def no_digit_head_def is_digit_def ex_export_only_graph_def
          ex_empty_graph_def)
  have r: "read_split_init [49, 60, 49, 98, 51, 4, 5, 6, 50, 58, 51, 4, 5, 6, 48]
       = Some ([60], [98], [4, 5, 6], [[4, 5, 6], []])"
    using conjunct2 [OF conjunct2 [OF T]] p unfolding w
    by (simp add: ex_stream_def ex_export_only_graph_def ex_empty_graph_def)
  show ?thesis using w r by (rule conjI)
qed

text \<open>
  The sizes are not 4-byte fields: one-byte XML and weights with a three-byte main blob
  and init blob give 14 bytes, against the 29 of the documented layout. An empty XML
  content puts the stream into its error state after the first size; an empty main blob
  makes its size run into the init count, and reading back fails.
\<close>

theorem custom_export_split_init_documented_layout_counterexample:
  "written (fst (custom_export_split_init ex_export_only_graph ex_stream
                   [ex_export_only_graph] [60] [98])) =
     [49, 60, 49, 98, 51, 4, 5, 6, 49, 58, 51, 4, 5, 6]
   \<and> documented_split_init_layout [60] [98] (blobPtr ex_export_only_graph)
        [blobPtr ex_export_only_graph] =
     [1, 0, 0, 0, 60, 1, 0, 0, 0, 98, 3, 0, 0, 0, 4, 5, 6, 1, 0, 0, 0, 58, 3, 0, 0, 0, 4, 5, 6]
   \<and> written (fst (custom_export_split_init ex_export_only_graph ex_stream [] [] [])) = [48]
   \<and> failed (fst (custom_export_split_init ex_export_only_graph ex_stream [] [] []))
   \<and> written (fst (custom_export_split_init ex_empty_graph ex_stream [] [60] [98])) =
       [49, 60, 49, 98, 48, 48, 58]
   \<and> read_split_init [49, 60, 49, 98, 48, 48, 58] = None"
  by (simp add: custom_export_split_init_def Let_def put_uint32_def put_rdbuf_def
        stream_write_def put_char_def ex_stream_def ex_export_only_graph_def ex_empty_graph_def
        decimal.simps digit_char_def documented_split_init_layout_def le32_def
        read_split_init_def read_blob_def read_uint32_def is_digit_def digits_value_def)


section \<open>Construction, re-binding and reuse of the pipeline\<close>

lemma bind_arguments_ok:
  assumes "k + length ds \<le> length ts" and "\<forall>j<length ds. ts ! (k + j) \<noteq> None"
  shows "\<exists>m. bind_arguments ds ts k i n ex = Inr (ex\<lparr>ex_arguments := m\<rparr>)
           \<and> (\<forall>a. a \<notin> idx ` set ds \<longrightarrow> m a = ex_arguments ex a)
           \<and> (distinct (map idx ds) \<longrightarrow>
                (\<forall>j<length ds. m (idx (ds ! j)) = Some (slice_address (the (ts ! (k + j))) i n)))"
  using assms
proof (induction ds arbitrary: k ex)
  case Nil
  show ?case by (rule exI [of _ "ex_arguments ex"]) simp
next
  case (Cons d ds)
  from Cons.prems have k: "k < length ts" by simp
  from Cons.prems(2) have "ts ! (k + 0) \<noteq> None" by blast
  then obtain t where t: "ts ! k = Some t" by auto
  let ?ex1 = "setArgumentValue ex (idx d) (slice_address t i n)"
  have p1: "Suc k + length ds \<le> length ts" using Cons.prems by simp
  have p2: "\<forall>j<length ds. ts ! (Suc k + j) \<noteq> None"
  proof (intro allI impI)
    fix j assume "j < length ds"
    then have "Suc j < length (d # ds)" by simp
    with Cons.prems(2) have "ts ! (k + Suc j) \<noteq> None" by blast
    then show "ts ! (Suc k + j) \<noteq> None" by simp
  qed
  from Cons.IH [OF p1 p2, of ?ex1] obtain m
    where m: "bind_arguments ds ts (Suc k) i n ?ex1 = Inr (?ex1\<lparr>ex_arguments := m\<rparr>)"
      and other: "\<forall>a. a \<notin> idx ` set ds \<longrightarrow> m a = ex_arguments ?ex1 a"
      and bound: "distinct (map idx ds) \<longrightarrow>
                (\<forall>j<length ds. m (idx (ds ! j)) = Some (slice_address (the (ts ! (Suc k + j))) i n))"
    by blast
  have r: "bind_arguments (d # ds) ts k i n ex = Inr (ex\<lparr>ex_arguments := m\<rparr>)"
    using k t m by (simp add: setArgumentValue_def)
  have o: "\<forall>a. a \<notin> idx ` set (d # ds) \<longrightarrow> m a = ex_arguments ex a"
    using other by (simp add: setArgumentValue_def)
  have b: "m (idx ((d # ds) ! j)) = Some (slice_address (the (ts ! (k + j))) i n)"
    if dist: "distinct (map idx (d # ds))" and j: "j < length (d # ds)" for j
  proof (cases j)
    case 0
    from dist have "idx d \<notin> idx ` set ds" by simp
    with other have "m (idx d) = ex_arguments ?ex1 (idx d)" by blast
    with 0 t show ?thesis by (simp add: setArgumentValue_def)
  next
    case (Suc j')
    with dist j bound show ?thesis by simp
  qed
  show ?case using r o b by blast
qed

lemma bindings_record_commands [simp]:
  "bindings (record_commands ex prof q s i cl) = ex_arguments ex"
  by (simp add: record_commands_def Let_def close_def AppendSignalEvent_def appendBarrier_def
        appendNpuTimestamp_def appendGraphExecute_def split: option.splits)

lemma closed_record_commands [simp]: "closed (record_commands ex prof q s i cl)"
  by (simp add: record_commands_def Let_def close_def)

lemma mutable_record_commands [simp]:
  "mutable_support (record_commands ex prof q s i cl) = mutable_support cl"
  by (simp add: record_commands_def Let_def close_def AppendSignalEvent_def appendBarrier_def
        appendNpuTimestamp_def appendGraphExecute_def split: option.splits)

lemma signal_record_commands:
  "\<not> s \<Longrightarrow> SignalEvent i \<in> set (instructions (record_commands ex prof q s i cl))"
  by (simp add: record_commands_def Let_def close_def AppendSignalEvent_def)

lemma signals_record_commands:
  "instructions cl = [] \<Longrightarrow>
     SignalEvent k \<in> set (instructions (record_commands ex prof q s i cl)) \<Longrightarrow> k = i"
  by (auto simp: record_commands_def Let_def close_def AppendSignalEvent_def appendBarrier_def
        appendNpuTimestamp_def appendGraphExecute_def split: option.splits if_splits)

lemma build_command_lists_ok:
  assumes ins: "length (ex_input_descriptors ex) \<le> length its"
               "\<forall>k<length (ex_input_descriptors ex). its ! k \<noteq> None"
      and outs: "length (ex_output_descriptors ex) \<le> length ots"
                "\<forall>k<length (ex_output_descriptors ex). ots ! k \<noteq> None"
      and dist: "distinct (map idx (ex_input_descriptors ex @ ex_output_descriptors ex))"
      and "distinct is" and "\<forall>i\<in>set is. i < length cls"
      and "\<forall>i\<in>set is. instructions (cls ! i) = []"
  shows "\<exists>m cls'. build_command_lists its ots n prof q s is (ex, cls)
                     = Inr (ex\<lparr>ex_arguments := m\<rparr>, cls')
           \<and> length cls' = length cls
           \<and> (\<forall>j<length cls. j \<notin> set is \<longrightarrow> cls' ! j = cls ! j)
           \<and> (\<forall>j\<in>set is. list_built (ex_input_descriptors ex) (ex_output_descriptors ex)
                               its ots n s j (cls' ! j)
                           \<and> mutable_support (cls' ! j) = mutable_support (cls ! j))"
  using assms
proof (induction "is" arbitrary: ex cls)
  case Nil
  show ?case by (rule exI [of _ "ex_arguments ex"]) simp
next
  case (Cons i "is")
  let ?ins = "ex_input_descriptors ex" and ?outs = "ex_output_descriptors ex"
  from bind_arguments_ok [of 0 ?ins its "of_nat i" n ex] Cons.prems(1,2)
  obtain m1 where m1: "bind_arguments ?ins its 0 (of_nat i) n ex = Inr (ex\<lparr>ex_arguments := m1\<rparr>)"
      and o1: "\<forall>a. a \<notin> idx ` set ?ins \<longrightarrow> m1 a = ex_arguments ex a"
      and b1: "distinct (map idx ?ins) \<longrightarrow>
                (\<forall>j<length ?ins. m1 (idx (?ins ! j)) = Some (slice_address (the (its ! j)) (of_nat i) n))"
    by auto
  let ?ex1 = "ex\<lparr>ex_arguments := m1\<rparr>"
  from bind_arguments_ok [of 0 ?outs ots "of_nat i" n ?ex1] Cons.prems(3,4)
  obtain m2 where m2: "bind_arguments ?outs ots 0 (of_nat i) n ?ex1 = Inr (?ex1\<lparr>ex_arguments := m2\<rparr>)"
      and o2: "\<forall>a. a \<notin> idx ` set ?outs \<longrightarrow> m2 a = m1 a"
      and b2: "distinct (map idx ?outs) \<longrightarrow>
                (\<forall>j<length ?outs. m2 (idx (?outs ! j)) = Some (slice_address (the (ots ! j)) (of_nat i) n))"
    by auto
  let ?ex2 = "ex\<lparr>ex_arguments := m2\<rparr>"
  have ex2: "?ex1\<lparr>ex_arguments := m2\<rparr> = ?ex2" by simp
  let ?cl = "record_commands ?ex2 prof q s i (cls ! i)"
  let ?cls1 = "cls[i := ?cl]"
  have i: "i < length cls" "i \<notin> set is" using Cons.prems by auto
  have step: "build_command_lists its ots n prof q s (i # is) (ex, cls)
                = build_command_lists its ots n prof q s is (?ex2, ?cls1)"
    using m1 m2 i by (simp add: ex2)
  have pre: "\<forall>j\<in>set is. instructions (?cls1 ! j) = []"
    using Cons.prems i by (auto simp: nth_list_update)
  from Cons.IH [of ?ex2 ?cls1] Cons.prems pre
  obtain m cls' where r: "build_command_lists its ots n prof q s is (?ex2, ?cls1)
                     = Inr (?ex2\<lparr>ex_arguments := m\<rparr>, cls')"
      and len: "length cls' = length ?cls1"
      and keep: "\<forall>j<length ?cls1. j \<notin> set is \<longrightarrow> cls' ! j = ?cls1 ! j"
      and built: "\<forall>j\<in>set is. list_built ?ins ?outs its ots n s j (cls' ! j)
                           \<and> mutable_support (cls' ! j) = mutable_support (?cls1 ! j)"
    by auto
  have here: "cls' ! i = ?cl" using keep i by simp
  have in_bound: "m2 (idx (?ins ! k)) = Some (slice_address (the (its ! k)) (of_nat i) n)"
    if "k < length ?ins" for k
  proof -
    have "idx (?ins ! k) \<in> idx ` set ?ins"
      using that by simp
    moreover have "idx ` set ?ins \<inter> idx ` set ?outs = {}"
      using Cons.prems(5) by simp
    ultimately have "idx (?ins ! k) \<notin> idx ` set ?outs"
      by blast
    then have "m2 (idx (?ins ! k)) = m1 (idx (?ins ! k))" using o2 by blast
    also have "\<dots> = Some (slice_address (the (its ! k)) (of_nat i) n)"
      using b1 Cons.prems(5) that by simp
    finally show ?thesis .
  qed
  have out_bound: "m2 (idx (?outs ! k)) = Some (slice_address (the (ots ! k)) (of_nat i) n)"
    if "k < length ?outs" for k
    using b2 Cons.prems(5) that by simp
  have sig: "\<forall>k. SignalEvent k \<in> set (instructions ?cl) \<longrightarrow> k = i"
    using signals_record_commands [of "cls ! i" _ ?ex2 prof q s i] Cons.prems(8) by auto
  have bi: "list_built ?ins ?outs its ots n s i (cls' ! i)"
    unfolding here list_built_def
    using in_bound out_bound sig by (simp add: signal_record_commands)
  have mi: "mutable_support (cls' ! i) = mutable_support (cls ! i)"
    unfolding here by simp
  have keep': "\<forall>j<length cls. j \<notin> set (i # is) \<longrightarrow> cls' ! j = cls ! j"
    using keep by (simp add: nth_list_update)
  have built': "\<forall>j\<in>set (i # is). list_built ?ins ?outs its ots n s j (cls' ! j)
                           \<and> mutable_support (cls' ! j) = mutable_support (cls ! j)"
    using built bi mi i by (auto simp: nth_list_update)
  show ?case
    apply (rule exI [of _ m])
    apply (rule exI [of _ cls'])
    using step r len keep' built' by simp
qed

lemma slice_offset_exact:
  fixes n sz :: "64 word"
  assumes "i < unat n" and "i * unat sz < 2 ^ 64"
  shows "unat ((of_nat i * sz) div n) = (i * unat sz) div unat n"
proof -
  have "unat n < 2 ^ 64" using unsigned_less [of n, where ?'a = nat] by simp
  with assms(1) have i: "unat (of_nat i :: 64 word) = i"
    by (simp add: unat_of_nat)
  have "unat (of_nat i * sz) = (i * unat sz) mod 2 ^ 64"
    by (simp add: unat_word_ariths i)
  with assms(2) have "unat (of_nat i * sz) = i * unat sz" by simp
  then show ?thesis by (simp add: unat_div)
qed

text \<open>
  Claim C1. When every declared input and output descriptor has its tensor and the
  descriptors' argument indices are distinct, the constructor returns a pipeline with
  exactly \<open>numberOfCommandLists\<close> command lists, events and fences, and in every command
  list \<open>i\<close> the binding of every input and output argument is the tensor's base address
  plus \<open>(i * size) / numberOfCommandLists\<close>, in \<open>size_t\<close> arithmetic; every list is
  closed. Where \<open>i * size\<close> does not exceed 64 bits the offset is the quotient of the
  natural numbers.
\<close>

theorem Pipeline_construction:
  assumes ins: "length (ex_input_descriptors ex) \<le> length inputTensorsData"
               "\<forall>k<length (ex_input_descriptors ex). inputTensorsData ! k \<noteq> None"
      and outs: "length (ex_output_descriptors ex) \<le> length outputTensorsData"
                "\<forall>k<length (ex_output_descriptors ex). outputTensorsData ! k \<noteq> None"
      and dist: "distinct (map idx (ex_input_descriptors ex @ ex_output_descriptors ex))"
  shows "\<exists>p. new_Pipeline ex pool_created query profiling inputTensorsData outputTensorsData
                numberOfCommandLists sync_fences = Inr p
           \<and> length (command_lists p) = unat numberOfCommandLists
           \<and> length (events p) = unat numberOfCommandLists
           \<and> length (fences p) = unat numberOfCommandLists
           \<and> (\<forall>i<unat numberOfCommandLists.
                 closed (command_lists p ! i)
                 \<and> (\<forall>k<length (ex_input_descriptors ex).
                       bindings (command_lists p ! i) (idx (ex_input_descriptors ex ! k))
                         = Some (mem (the (inputTensorsData ! k))
                                 + (of_nat i * size_t (the (inputTensorsData ! k)))
                                   div numberOfCommandLists))
                 \<and> (\<forall>k<length (ex_output_descriptors ex).
                       bindings (command_lists p ! i) (idx (ex_output_descriptors ex ! k))
                         = Some (mem (the (outputTensorsData ! k))
                                 + (of_nat i * size_t (the (outputTensorsData ! k)))
                                   div numberOfCommandLists))
                 \<and> (\<forall>sz. i * unat sz < 2 ^ 64 \<longrightarrow>
                       unat ((of_nat i * sz) div numberOfCommandLists)
                         = (i * unat sz) div unat numberOfCommandLists))"
proof -
  let ?n = "unat numberOfCommandLists"
  let ?cls0 = "map (\<lambda>i. new_CommandList (ex_group_ordinal ex)
                              (ex_mutable_command_list_version ex \<noteq> 0)) [0..<?n]"
  have d: "distinct [0..<?n]" by simp
  have r: "\<forall>i\<in>set [0..<?n]. i < length ?cls0" by simp
  have e: "\<forall>i\<in>set [0..<?n]. instructions (?cls0 ! i) = []"
    by (simp add: new_CommandList_def)
  from build_command_lists_ok [OF ins outs dist d r e, of numberOfCommandLists profiling query sync_fences]
  obtain m cls where b: "build_command_lists inputTensorsData outputTensorsData numberOfCommandLists
                           profiling query sync_fences [0..<?n] (ex, ?cls0)
                         = Inr (ex\<lparr>ex_arguments := m\<rparr>, cls)"
      and len: "length cls = length ?cls0"
      and built: "\<forall>j\<in>set [0..<?n]. list_built (ex_input_descriptors ex) (ex_output_descriptors ex)
                       inputTensorsData outputTensorsData numberOfCommandLists sync_fences j (cls ! j)
                     \<and> mutable_support (cls ! j) = mutable_support (?cls0 ! j)"
    by blast
  let ?p = "\<lparr>executor = ex\<lparr>ex_arguments := m\<rparr>,
             event_pool_size = (if numberOfCommandLists \<noteq> 0 then ucast numberOfCommandLists else 1),
             command_lists = cls,
             events = map (\<lambda>i. new_Event (of_nat i)) [0..<?n],
             fences = map (\<lambda>i. new_Fence) [0..<?n],
             sync_output_with_fences = sync_fences,
             npu_profiling = profiling, profiling_query_created = pool_created,
             submitted = []\<rparr>"
  have p: "new_Pipeline ex pool_created query profiling inputTensorsData outputTensorsData
             numberOfCommandLists sync_fences = Inr ?p"
    by (simp add: new_Pipeline_def Let_def b)
  have lists: "closed (cls ! i)
                 \<and> (\<forall>k<length (ex_input_descriptors ex).
                       bindings (cls ! i) (idx (ex_input_descriptors ex ! k))
                         = Some (mem (the (inputTensorsData ! k))
                                 + (of_nat i * size_t (the (inputTensorsData ! k)))
                                   div numberOfCommandLists))
                 \<and> (\<forall>k<length (ex_output_descriptors ex).
                       bindings (cls ! i) (idx (ex_output_descriptors ex ! k))
                         = Some (mem (the (outputTensorsData ! k))
                                 + (of_nat i * size_t (the (outputTensorsData ! k)))
                                   div numberOfCommandLists))"
    if "i < ?n" for i
    using built that by (simp add: list_built_def slice_address_def)
  have exact: "\<forall>sz. i * unat sz < 2 ^ 64 \<longrightarrow>
                 unat ((of_nat i * sz) div numberOfCommandLists)
                   = (i * unat sz) div unat numberOfCommandLists"
    if "i < ?n" for i
    using that by (simp add: slice_offset_exact)
  show ?thesis
    apply (rule exI [of _ ?p])
    using p len lists exact by simp
qed

theorem Pipeline_construction_witness:
  "\<exists>p. new_Pipeline ex_executor False None None [Some ex_input] [Some ex_output] 2 False = Inr p
      \<and> length (command_lists p) = 2 \<and> length (events p) = 2 \<and> length (fences p) = 2
      \<and> bindings (command_lists p ! 0) 0 = Some 1000
      \<and> bindings (command_lists p ! 0) 1 = Some 2000
      \<and> bindings (command_lists p ! 1) 0 = Some 1032
      \<and> bindings (command_lists p ! 1) 1 = Some 2016"
proof -
  have ins: "length (ex_input_descriptors ex_executor) \<le> length [Some ex_input]"
            "\<forall>k<length (ex_input_descriptors ex_executor). [Some ex_input] ! k \<noteq> None"
    by (simp_all add: ex_executor_def)
  have outs: "length (ex_output_descriptors ex_executor) \<le> length [Some ex_output]"
             "\<forall>k<length (ex_output_descriptors ex_executor). [Some ex_output] ! k \<noteq> None"
    by (simp_all add: ex_executor_def)
  have dist: "distinct (map idx (ex_input_descriptors ex_executor @ ex_output_descriptors ex_executor))"
    by (simp add: ex_executor_def)
  from Pipeline_construction [OF ins outs dist, of False None None 2 False]
  obtain p where p: "new_Pipeline ex_executor False None None [Some ex_input] [Some ex_output] 2 False = Inr p"
      and len: "length (command_lists p) = unat (2 :: 64 word)"
               "length (events p) = unat (2 :: 64 word)"
               "length (fences p) = unat (2 :: 64 word)"
      and b: "\<forall>i<unat (2 :: 64 word).
                 closed (command_lists p ! i)
                 \<and> (\<forall>k<length (ex_input_descriptors ex_executor).
                       bindings (command_lists p ! i) (idx (ex_input_descriptors ex_executor ! k))
                         = Some (mem (the ([Some ex_input] ! k))
                                 + (of_nat i * size_t (the ([Some ex_input] ! k))) div 2))
                 \<and> (\<forall>k<length (ex_output_descriptors ex_executor).
                       bindings (command_lists p ! i) (idx (ex_output_descriptors ex_executor ! k))
                         = Some (mem (the ([Some ex_output] ! k))
                                 + (of_nat i * size_t (the ([Some ex_output] ! k))) div 2))
                 \<and> (\<forall>sz. i * unat sz < 2 ^ 64 \<longrightarrow>
                       unat ((of_nat i * sz) div (2 :: 64 word)) = (i * unat sz) div unat (2 :: 64 word))"
    by blast
  have b0: "bindings (command_lists p ! 0) 0 = Some 1000 \<and> bindings (command_lists p ! 0) 1 = Some 2000"
    using b [rule_format, of 0] by (simp add: ex_executor_def ex_input_def ex_output_def)
  have b1: "bindings (command_lists p ! 1) 0 = Some 1032 \<and> bindings (command_lists p ! 1) 1 = Some 2016"
    using b [rule_format, of 1] by (simp add: ex_executor_def ex_input_def ex_output_def)
  show ?thesis
    using p len b0 b1 by (intro exI [of _ p]) simp
qed

lemma ex_pipeline_constructed:
  "new_Pipeline ex_executor False None None [Some ex_input] [Some ex_output] 2 False
     = Inr ex_pipeline"
  by (simp add: new_Pipeline_def Let_def upt_conv_Cons ex_executor_def ex_input_def
        ex_output_def setArgumentValue_def slice_address_def record_commands_def
        new_CommandList_def appendGraphExecute_def appendBarrier_def AppendSignalEvent_def
        close_def ex_pipeline_def ex_command_list_def fun_upd_twist new_Event_def new_Fence_def)

lemma update_loop_ok:
  assumes "distinct is" and "\<forall>i\<in>set is. i < length (command_lists p)"
      and "\<forall>i\<in>set is. mutable_support (command_lists p ! i)"
  shows "\<exists>cls. update_loop t index n is p = Inr (p\<lparr>command_lists := cls\<rparr>)
           \<and> length cls = length (command_lists p)
           \<and> (\<forall>j<length (command_lists p). j \<notin> set is \<longrightarrow> cls ! j = command_lists p ! j)
           \<and> (\<forall>j\<in>set is. cls ! j =
                 (command_lists p ! j)\<lparr>bindings := (bindings (command_lists p ! j))
                                                     (index \<mapsto> slice_address t (of_nat j) n),
                                        closed := True\<rparr>)"
  using assms
proof (induction "is" arbitrary: p)
  case Nil
  show ?case by (rule exI [of _ "command_lists p"]) simp
next
  case (Cons i "is")
  let ?cl = "(command_lists p ! i)\<lparr>bindings := (bindings (command_lists p ! i))
                                                     (index \<mapsto> slice_address t (of_nat i) n)\<rparr>"
  let ?p1 = "p\<lparr>command_lists := (command_lists p)[i := close ?cl]\<rparr>"
  have i: "i < length (command_lists p)" "i \<notin> set is" "mutable_support (command_lists p ! i)"
    using Cons.prems by auto
  have step: "update_loop t index n (i # is) p = update_loop t index n is ?p1"
    using i by (simp add: updateMutableCommandList_def)
  have d: "distinct is" using Cons.prems by simp
  have b: "\<forall>j\<in>set is. j < length (command_lists ?p1)" using Cons.prems by simp
  have m: "\<forall>j\<in>set is. mutable_support (command_lists ?p1 ! j)"
    using Cons.prems i by (auto simp: nth_list_update)
  from Cons.IH [OF d b m]
  obtain cls where r: "update_loop t index n is ?p1 = Inr (?p1\<lparr>command_lists := cls\<rparr>)"
      and len: "length cls = length (command_lists ?p1)"
      and keep: "\<forall>j<length (command_lists ?p1). j \<notin> set is \<longrightarrow> cls ! j = command_lists ?p1 ! j"
      and upd: "\<forall>j\<in>set is. cls ! j =
                 (command_lists ?p1 ! j)\<lparr>bindings := (bindings (command_lists ?p1 ! j))
                                                     (index \<mapsto> slice_address t (of_nat j) n),
                                        closed := True\<rparr>"
    by blast
  have here: "cls ! i = close ?cl" using keep i by simp
  have res: "update_loop t index n (i # is) p = Inr (p\<lparr>command_lists := cls\<rparr>)"
    using step r by simp
  have len': "length cls = length (command_lists p)"
    using len by simp
  have keep': "\<forall>j<length (command_lists p). j \<notin> set (i # is) \<longrightarrow> cls ! j = command_lists p ! j"
    using keep by (simp add: nth_list_update)
  have upd': "\<forall>j\<in>set (i # is). cls ! j =
                 (command_lists p ! j)\<lparr>bindings := (bindings (command_lists p ! j))
                                                     (index \<mapsto> slice_address t (of_nat j) n),
                                        closed := True\<rparr>"
  proof
    fix j assume j: "j \<in> set (i # is)"
    show "cls ! j = (command_lists p ! j)\<lparr>bindings := (bindings (command_lists p ! j))
                                                     (index \<mapsto> slice_address t (of_nat j) n),
                                        closed := True\<rparr>"
    proof (cases "j = i")
      case True
      then show ?thesis using here by (simp add: close_def)
    next
      case False
      with j have js: "j \<in> set is" by simp
      have "command_lists ?p1 ! j = command_lists p ! j"
        using False by simp
      with upd js show ?thesis by (simp only:)
    qed
  qed
  show ?case
    using res len' keep' upd' by (intro exI [of _ cls] conjI)
qed

text \<open>
  Claim C3. On a pipeline whose command lists support mutable updates,
  \<open>updateCommandList\<close> changes nothing but the command lists; in every list \<open>i\<close> the
  binding of \<open>index\<close> becomes the new tensor's base address plus \<open>(i * size) / N\<close> for \<open>N\<close>
  the number of lists, the bindings of all other argument indices and the recorded
  instructions are unchanged, and the list is closed.
\<close>

theorem updateCommandList_patches_one_binding:
  assumes "\<forall>cl\<in>set (command_lists p). mutable_support cl"
  shows "\<exists>cls. updateCommandList p tensorsData index = Inr (p\<lparr>command_lists := cls\<rparr>)
           \<and> length cls = length (command_lists p)
           \<and> (\<forall>i<length (command_lists p).
                 bindings (cls ! i) index
                   = Some (mem tensorsData
                           + (of_nat i * size_t tensorsData) div of_nat (length (command_lists p)))
                 \<and> (\<forall>a. a \<noteq> index \<longrightarrow> bindings (cls ! i) a = bindings (command_lists p ! i) a)
                 \<and> closed (cls ! i)
                 \<and> instructions (cls ! i) = instructions (command_lists p ! i)
                 \<and> mutable_support (cls ! i))"
proof -
  let ?n = "length (command_lists p)"
  have m: "\<forall>i\<in>set [0..<?n]. mutable_support (command_lists p ! i)"
    using assms by simp
  from update_loop_ok [of "[0..<?n]" p tensorsData index "of_nat ?n"] m
  obtain cls where r: "update_loop tensorsData index (of_nat ?n) [0..<?n] p = Inr (p\<lparr>command_lists := cls\<rparr>)"
      and len: "length cls = ?n"
      and upd: "\<forall>j\<in>set [0..<?n]. cls ! j =
                 (command_lists p ! j)\<lparr>bindings := (bindings (command_lists p ! j))
                                (index \<mapsto> slice_address tensorsData (of_nat j) (of_nat ?n)),
                                        closed := True\<rparr>"
    by auto
  show ?thesis
    apply (rule exI [of _ cls])
    using r len upd m by (simp add: updateCommandList_def Let_def slice_address_def)
qed

theorem updateCommandList_patches_one_binding_witness:
  "\<exists>cls. updateCommandList ex_pipeline ex_output 0 = Inr (ex_pipeline\<lparr>command_lists := cls\<rparr>)
      \<and> length cls = 2
      \<and> bindings (cls ! 0) 0 = Some 2000 \<and> bindings (cls ! 1) 0 = Some 2016
      \<and> bindings (cls ! 0) 1 = Some 2000 \<and> bindings (cls ! 1) 1 = Some 2016
      \<and> closed (cls ! 0) \<and> closed (cls ! 1)"
proof -
  have m: "\<forall>cl\<in>set (command_lists ex_pipeline). mutable_support cl"
    by (simp add: ex_pipeline_def ex_command_list_def)
  from updateCommandList_patches_one_binding [OF m, of ex_output 0]
  obtain cls where r: "updateCommandList ex_pipeline ex_output 0 = Inr (ex_pipeline\<lparr>command_lists := cls\<rparr>)"
      and len: "length cls = length (command_lists ex_pipeline)"
      and b: "\<forall>i<length (command_lists ex_pipeline).
                 bindings (cls ! i) 0
                   = Some (mem ex_output
                           + (of_nat i * size_t ex_output) div of_nat (length (command_lists ex_pipeline)))
                 \<and> (\<forall>a. a \<noteq> 0 \<longrightarrow> bindings (cls ! i) a = bindings (command_lists ex_pipeline ! i) a)
                 \<and> closed (cls ! i)
                 \<and> instructions (cls ! i) = instructions (command_lists ex_pipeline ! i)
                 \<and> mutable_support (cls ! i)"
    by blast
  have l2: "length (command_lists ex_pipeline) = 2" by (simp add: ex_pipeline_def)
  have b0: "bindings (cls ! 0) 0 = Some 2000 \<and> bindings (cls ! 0) 1 = Some 2000 \<and> closed (cls ! 0)"
    using b [rule_format, of 0] l2
    by (simp add: ex_output_def ex_pipeline_def ex_command_list_def)
  have b1: "bindings (cls ! 1) 0 = Some 2016 \<and> bindings (cls ! 1) 1 = Some 2016 \<and> closed (cls ! 1)"
    using b [rule_format, of 1] l2
    by (simp add: ex_output_def ex_pipeline_def ex_command_list_def)
  show ?thesis
    using r len l2 b0 b1 by (intro exI [of _ cls]) simp
qed

lemma run_instructions_shape:
  "length (run_instructions ins evs) = length evs
   \<and> map ev_index (run_instructions ins evs) = map ev_index evs
   \<and> (\<forall>k<length evs. ev_signaled (evs ! k) \<longrightarrow> ev_signaled (run_instructions ins evs ! k))"
proof (induction ins evs rule: run_instructions.induct)
  case (2 k rest evs)
  show ?case
  proof (cases "k < length evs")
    case True
    let ?evs = "evs[k := (evs ! k)\<lparr>ev_signaled := True\<rparr>]"
    have "map ev_index ?evs = map ev_index evs"
      using True by (simp add: list_eq_iff_nth_eq nth_list_update)
    moreover have "\<forall>j<length evs. ev_signaled (evs ! j) \<longrightarrow> ev_signaled (?evs ! j)"
      using True by (auto simp: nth_list_update)
    ultimately show ?thesis using 2 True by simp
  next
    case False
    with 2 show ?thesis by simp
  qed
qed simp_all

lemma run_instructions_signals:
  "SignalEvent k \<in> set ins \<Longrightarrow> k < length evs \<Longrightarrow> ev_signaled (run_instructions ins evs ! k)"
proof (induction ins evs rule: run_instructions.induct)
  case (2 j rest evs)
  show ?case
  proof (cases "j = k")
    case True
    let ?evs = "evs[k := (evs ! k)\<lparr>ev_signaled := True\<rparr>]"
    have "ev_signaled (?evs ! k)" using "2.prems" by simp
    moreover have "k < length ?evs" using "2.prems" by simp
    ultimately have "ev_signaled (run_instructions rest ?evs ! k)"
      using run_instructions_shape [of rest ?evs] by blast
    with True "2.prems" show ?thesis by simp
  next
    case False
    with "2.prems" have "SignalEvent k \<in> set rest" by simp
    with 2 show ?thesis by simp
  qed
qed simp_all

lemma Event_reset_idem [simp]: "Event_reset (Event_reset e) = Event_reset e"
  by (simp add: Event_reset_def)

lemma Fence_reset_idem [simp]: "Fence_reset (Fence_reset f) = Fence_reset f"
  by (simp add: Fence_reset_def)

lemma reset_loop_fences:
  assumes "sync_output_with_fences p" and "\<forall>i\<in>set is. i < length (fences p)"
  shows "\<exists>fs. reset_loop is p = Inr (p\<lparr>fences := fs\<rparr>) \<and> length fs = length (fences p)
           \<and> (\<forall>j<length (fences p). fs ! j = (if j \<in> set is then Fence_reset (fences p ! j)
                                             else fences p ! j))"
  using assms
proof (induction "is" arbitrary: p)
  case Nil
  show ?case by (rule exI [of _ "fences p"]) simp
next
  case (Cons i "is")
  let ?p1 = "p\<lparr>fences := (fences p)[i := Fence_reset (fences p ! i)]\<rparr>"
  have s: "sync_output_with_fences ?p1" using Cons.prems by simp
  have b: "\<forall>j\<in>set is. j < length (fences ?p1)" using Cons.prems by simp
  from Cons.IH [OF s b]
  obtain fs where r: "reset_loop is ?p1 = Inr (?p1\<lparr>fences := fs\<rparr>)"
      and len: "length fs = length (fences ?p1)"
      and v: "\<forall>j<length (fences ?p1). fs ! j = (if j \<in> set is then Fence_reset (fences ?p1 ! j)
                                             else fences ?p1 ! j)"
    by blast
  have res: "reset_loop (i # is) p = Inr (p\<lparr>fences := fs\<rparr>)"
    using Cons.prems r by simp
  have v': "\<forall>j<length (fences p). fs ! j = (if j \<in> set (i # is) then Fence_reset (fences p ! j)
                                             else fences p ! j)"
    using v Cons.prems by (auto simp: nth_list_update)
  show ?case
    using res len v' by (intro exI [of _ fs]) simp
qed

lemma reset_loop_events:
  assumes "\<not> sync_output_with_fences p" and "\<forall>i\<in>set is. i < length (events p)"
  shows "\<exists>es. reset_loop is p = Inr (p\<lparr>events := es\<rparr>) \<and> length es = length (events p)
           \<and> (\<forall>j<length (events p). es ! j = (if j \<in> set is then Event_reset (events p ! j)
                                             else events p ! j))"
  using assms
proof (induction "is" arbitrary: p)
  case Nil
  show ?case by (rule exI [of _ "events p"]) simp
next
  case (Cons i "is")
  let ?p1 = "p\<lparr>events := (events p)[i := Event_reset (events p ! i)]\<rparr>"
  have s: "\<not> sync_output_with_fences ?p1" using Cons.prems by simp
  have b: "\<forall>j\<in>set is. j < length (events ?p1)" using Cons.prems by simp
  from Cons.IH [OF s b]
  obtain es where r: "reset_loop is ?p1 = Inr (?p1\<lparr>events := es\<rparr>)"
      and len: "length es = length (events ?p1)"
      and v: "\<forall>j<length (events ?p1). es ! j = (if j \<in> set is then Event_reset (events ?p1 ! j)
                                             else events ?p1 ! j)"
    by blast
  have res: "reset_loop (i # is) p = Inr (p\<lparr>events := es\<rparr>)"
    using Cons.prems r by simp
  have v': "\<forall>j<length (events p). es ! j = (if j \<in> set (i # is) then Event_reset (events p ! j)
                                             else events p ! j)"
    using v Cons.prems by (auto simp: nth_list_update)
  show ?case
    using res len v' by (intro exI [of _ es]) simp
qed

lemma push_loop_ok:
  assumes "\<forall>i\<in>set is. i < length (command_lists p) \<and> closed (command_lists p ! i)"
      and "sync_output_with_fences p \<longrightarrow> (\<forall>i\<in>set is. i < length (fences p))"
      and "\<not> sync_output_with_fences p \<longrightarrow>
             (\<forall>i\<in>set is. i < length (events p)
                           \<and> SignalEvent i \<in> set (instructions (command_lists p ! i)))"
  shows "\<exists>es fs. push_loop is p = Inr (p\<lparr>events := es, fences := fs, submitted := submitted p @ is\<rparr>)
           \<and> length es = length (events p) \<and> map ev_index es = map ev_index (events p)
           \<and> length fs = length (fences p)
           \<and> (\<forall>k<length (events p). ev_signaled (events p ! k) \<longrightarrow> ev_signaled (es ! k))
           \<and> (\<forall>k<length (fences p). f_signaled (fences p ! k) \<longrightarrow> f_signaled (fs ! k))
           \<and> (sync_output_with_fences p \<longrightarrow> (\<forall>i\<in>set is. f_signaled (fs ! i)))
           \<and> (\<not> sync_output_with_fences p \<longrightarrow> (\<forall>i\<in>set is. ev_signaled (es ! i)))"
  using assms
proof (induction "is" arbitrary: p)
  case Nil
  show ?case
    by (rule exI [of _ "events p"], rule exI [of _ "fences p"]) simp
next
  case (Cons i "is")
  let ?es1 = "run_instructions (instructions (command_lists p ! i)) (events p)"
  let ?fs1 = "if sync_output_with_fences p
              then (fences p)[i := (fences p ! i)\<lparr>f_signaled := True\<rparr>] else fences p"
  let ?p1 = "p\<lparr>events := ?es1, fences := ?fs1, submitted := submitted p @ [i]\<rparr>"
  note sh = run_instructions_shape [of "instructions (command_lists p ! i)" "events p"]
  have i: "i < length (command_lists p)" "closed (command_lists p ! i)"
    using Cons.prems(1) by simp_all
  have fi: "sync_output_with_fences p \<Longrightarrow> i < length (fences p)"
    using Cons.prems(2) by simp
  have step: "push_loop (i # is) p = push_loop is ?p1"
    using i fi by (cases "sync_output_with_fences p")
                  (simp_all add: executeCommandList_def Fence_signal_def)
  have a1: "\<forall>j\<in>set is. j < length (command_lists ?p1) \<and> closed (command_lists ?p1 ! j)"
    using Cons.prems(1) by simp
  have a2: "sync_output_with_fences ?p1 \<longrightarrow> (\<forall>j\<in>set is. j < length (fences ?p1))"
    using Cons.prems(2) by simp
  have a3: "\<not> sync_output_with_fences ?p1 \<longrightarrow>
             (\<forall>j\<in>set is. j < length (events ?p1)
                           \<and> SignalEvent j \<in> set (instructions (command_lists ?p1 ! j)))"
    using Cons.prems(3) sh by simp
  from Cons.IH [OF a1 a2 a3]
  obtain es fs where r: "push_loop is ?p1
                           = Inr (?p1\<lparr>events := es, fences := fs, submitted := submitted ?p1 @ is\<rparr>)"
      and le: "length es = length (events ?p1)" "map ev_index es = map ev_index (events ?p1)"
      and lf: "length fs = length (fences ?p1)"
      and me: "\<forall>k<length (events ?p1). ev_signaled (events ?p1 ! k) \<longrightarrow> ev_signaled (es ! k)"
      and mf: "\<forall>k<length (fences ?p1). f_signaled (fences ?p1 ! k) \<longrightarrow> f_signaled (fs ! k)"
      and sf: "sync_output_with_fences ?p1 \<longrightarrow> (\<forall>j\<in>set is. f_signaled (fs ! j))"
      and se: "\<not> sync_output_with_fences ?p1 \<longrightarrow> (\<forall>j\<in>set is. ev_signaled (es ! j))"
    by blast
  have res: "push_loop (i # is) p
               = Inr (p\<lparr>events := es, fences := fs, submitted := submitted p @ (i # is)\<rparr>)"
    using step r by simp
  have le': "length es = length (events p)" "map ev_index es = map ev_index (events p)"
    using le sh by simp_all
  have lf': "length fs = length (fences p)"
    using lf by simp
  have me': "\<forall>k<length (events p). ev_signaled (events p ! k) \<longrightarrow> ev_signaled (es ! k)"
    using me sh by simp
  have mf': "\<forall>k<length (fences p). f_signaled (fences p ! k) \<longrightarrow> f_signaled (fs ! k)"
  proof (cases "sync_output_with_fences p")
    case True
    with mf fi show ?thesis by (auto simp: nth_list_update)
  next
    case False
    with mf show ?thesis by simp
  qed
  have sf': "sync_output_with_fences p \<longrightarrow> (\<forall>j\<in>set (i # is). f_signaled (fs ! j))"
  proof
    assume s: "sync_output_with_fences p"
    have "f_signaled (?fs1 ! i)" using s fi by simp
    with mf s fi have "f_signaled (fs ! i)" by simp
    with sf s show "\<forall>j\<in>set (i # is). f_signaled (fs ! j)" by simp
  qed
  have se': "\<not> sync_output_with_fences p \<longrightarrow> (\<forall>j\<in>set (i # is). ev_signaled (es ! j))"
  proof
    assume s: "\<not> sync_output_with_fences p"
    with Cons.prems(3) have "i < length (events p)"
        "SignalEvent i \<in> set (instructions (command_lists p ! i))" by simp_all
    then have "ev_signaled (?es1 ! i)" "i < length ?es1"
      using run_instructions_signals sh by simp_all
    with me have "ev_signaled (es ! i)" by simp
    with se s show "\<forall>j\<in>set (i # is). ev_signaled (es ! j)" by simp
  qed
  show ?case
    using res le' lf' me' mf' sf' se' by (intro exI [of _ es] exI [of _ fs] conjI)
qed

lemma pull_loop_ok:
  assumes "sync_output_with_fences p \<longrightarrow>
             (\<forall>i\<in>set is. i < length (fences p) \<and> f_signaled (fences p ! i))"
      and "\<not> sync_output_with_fences p \<longrightarrow>
             (\<forall>i\<in>set is. i < length (events p) \<and> ev_signaled (events p ! i))"
  shows "\<exists>prof. pull_loop is p = Inr (p\<lparr>npu_profiling := prof\<rparr>)"
  using assms
proof (induction "is" arbitrary: p)
  case Nil
  show ?case by (rule exI [of _ "npu_profiling p"]) simp
next
  case (Cons i "is")
  let ?p1 = "case npu_profiling p of None \<Rightarrow> p
             | Some prof \<Rightarrow> p\<lparr>npu_profiling := Some (sampleNpuTimestamps prof)\<rparr>"
  have same: "sync_output_with_fences ?p1 = sync_output_with_fences p"
       "fences ?p1 = fences p" "events ?p1 = events p"
    by (simp_all split: option.splits)
  have step: "pull_loop (i # is) p = pull_loop is ?p1"
    using Cons.prems by (cases "sync_output_with_fences p")
                        (simp_all add: Fence_hostSynchronize_def Event_hostSynchronize_def)
  have a1: "sync_output_with_fences ?p1 \<longrightarrow>
             (\<forall>j\<in>set is. j < length (fences ?p1) \<and> f_signaled (fences ?p1 ! j))"
    using Cons.prems(1) unfolding same by simp
  have a2: "\<not> sync_output_with_fences ?p1 \<longrightarrow>
             (\<forall>j\<in>set is. j < length (events ?p1) \<and> ev_signaled (events ?p1 ! j))"
    using Cons.prems(2) unfolding same by simp
  from Cons.IH [OF a1 a2] obtain prof where r: "pull_loop is ?p1 = Inr (?p1\<lparr>npu_profiling := prof\<rparr>)"
    by blast
  have "?p1\<lparr>npu_profiling := prof\<rparr> = p\<lparr>npu_profiling := prof\<rparr>"
    by (simp split: option.splits)
  with step r show ?case by (intro exI [of _ prof]) simp
qed

lemma reset_push_pull_ok:
  assumes wf: "pipeline_wf p"
  shows "\<exists>es fs prof. reset_push_pull p
            = Inr (p\<lparr>events := es, fences := fs, npu_profiling := prof,
                     submitted := submitted p @ [0..<length (command_lists p)]\<rparr>)
           \<and> length es = length (events p) \<and> map ev_index es = map ev_index (events p)
           \<and> length fs = length (fences p)"
proof -
  let ?n = "length (command_lists p)"
  have le: "length (events p) = ?n" and lf: "length (fences p) = ?n"
    using wf by (simp_all add: pipeline_wf_def)
  have "\<exists>es1 fs1. reset p = Inr (p\<lparr>events := es1, fences := fs1\<rparr>)
          \<and> length es1 = ?n \<and> length fs1 = ?n
          \<and> map ev_index es1 = map ev_index (events p)"
  proof (cases "sync_output_with_fences p")
    case True
    from reset_loop_fences [OF True, of "[0..<?n]"] lf
    obtain fs where "reset_loop [0..<?n] p = Inr (p\<lparr>fences := fs\<rparr>)" "length fs = length (fences p)"
      by auto
    then show ?thesis using le lf
      by (intro exI [of _ "events p"] exI [of _ fs]) (simp add: reset_def)
  next
    case False
    from reset_loop_events [OF False, of "[0..<?n]"] le
    obtain es where es: "reset_loop [0..<?n] p = Inr (p\<lparr>events := es\<rparr>)" "length es = length (events p)"
        "\<forall>j<length (events p). es ! j = (if j \<in> set [0..<?n] then Event_reset (events p ! j)
                                             else events p ! j)"
      by auto
    have "map ev_index es = map ev_index (events p)"
      using es(2,3) by (intro nth_equalityI) (simp_all add: Event_reset_def)
    then show ?thesis using es le lf
      by (intro exI [of _ es] exI [of _ "fences p"]) (simp add: reset_def)
  qed
  then obtain es1 fs1 where r1: "reset p = Inr (p\<lparr>events := es1, fences := fs1\<rparr>)"
      and l1: "length es1 = ?n" "length fs1 = ?n" "map ev_index es1 = map ev_index (events p)"
    by blast
  define p1 where "p1 = p\<lparr>events := es1, fences := fs1\<rparr>"
  have p1: "reset p = Inr p1" "length (events p1) = ?n" "length (fences p1) = ?n"
      "map ev_index (events p1) = map ev_index (events p)"
    using r1 l1 by (simp_all add: p1_def)
  have c1: "command_lists p1 = command_lists p" "sync_output_with_fences p1 = sync_output_with_fences p"
       "submitted p1 = submitted p" "npu_profiling p1 = npu_profiling p"
    by (simp_all add: p1_def)
  have b1: "\<forall>i\<in>set [0..<?n]. i < length (command_lists p1) \<and> closed (command_lists p1 ! i)"
    using wf by (simp add: c1 pipeline_wf_def)
  have b2: "sync_output_with_fences p1 \<longrightarrow> (\<forall>i\<in>set [0..<?n]. i < length (fences p1))"
    using p1(3) by simp
  have b3: "\<not> sync_output_with_fences p1 \<longrightarrow>
             (\<forall>i\<in>set [0..<?n]. i < length (events p1)
                           \<and> SignalEvent i \<in> set (instructions (command_lists p1 ! i)))"
    using wf p1(2) by (simp add: c1 pipeline_wf_def)
  from push_loop_ok [OF b1 b2 b3]
  obtain es fs where p2: "push_loop [0..<?n] p1
                            = Inr (p1\<lparr>events := es, fences := fs, submitted := submitted p1 @ [0..<?n]\<rparr>)"
      and s2: "length es = length (events p1)" "map ev_index es = map ev_index (events p1)"
              "length fs = length (fences p1)"
              "sync_output_with_fences p1 \<longrightarrow> (\<forall>i\<in>set [0..<?n]. f_signaled (fs ! i))"
              "\<not> sync_output_with_fences p1 \<longrightarrow> (\<forall>i\<in>set [0..<?n]. ev_signaled (es ! i))"
    by blast
  let ?p2 = "p1\<lparr>events := es, fences := fs, submitted := submitted p1 @ [0..<?n]\<rparr>"
  have push: "push p1 = Inr ?p2"
    using p2 by (simp add: push_def c1)
  have d1: "sync_output_with_fences ?p2 \<longrightarrow>
             (\<forall>i\<in>set [0..<?n]. i < length (fences ?p2) \<and> f_signaled (fences ?p2 ! i))"
    using s2 p1(3) by simp
  have d2: "\<not> sync_output_with_fences ?p2 \<longrightarrow>
             (\<forall>i\<in>set [0..<?n]. i < length (events ?p2) \<and> ev_signaled (events ?p2 ! i))"
    using s2 p1(2) by simp
  from pull_loop_ok [OF d1 d2] obtain prof
    where p3: "pull_loop [0..<?n] ?p2 = Inr (?p2\<lparr>npu_profiling := prof\<rparr>)"
    by blast
  have pull: "pull ?p2 = Inr (?p2\<lparr>npu_profiling := prof\<rparr>)"
    using p3 by (simp add: pull_def c1)
  have fin: "?p2\<lparr>npu_profiling := prof\<rparr>
               = p\<lparr>events := es, fences := fs, npu_profiling := prof,
                    submitted := submitted p @ [0..<?n]\<rparr>"
    by (simp add: p1_def)
  have "reset_push_pull p = Inr (p\<lparr>events := es, fences := fs, npu_profiling := prof,
                    submitted := submitted p @ [0..<?n]\<rparr>)"
    using p1(1) push pull fin by (simp add: reset_push_pull_def)
  then show ?thesis
    using s2 p1 le lf by (intro exI [of _ es] exI [of _ fs] exI [of _ prof]) simp
qed

lemma build_command_lists_shape:
  assumes "build_command_lists its ots n prof q s is (ex, cls) = Inr (ex', cls')"
      and "distinct is" and "\<forall>i\<in>set is. i < length cls"
  shows "length cls' = length cls
         \<and> (\<forall>j<length cls. j \<notin> set is \<longrightarrow> cls' ! j = cls ! j)
         \<and> (\<forall>j\<in>set is. closed (cls' ! j)
                \<and> (\<not> s \<longrightarrow> SignalEvent j \<in> set (instructions (cls' ! j))))"
  using assms
proof (induction "is" arbitrary: ex cls)
  case Nil
  then show ?case by simp
next
  case (Cons i "is")
  from Cons.prems(1) obtain ex1 ex2
    where b1: "bind_arguments (ex_input_descriptors ex) its 0 (of_nat i) n ex = Inr ex1"
      and b2: "bind_arguments (ex_output_descriptors ex1) ots 0 (of_nat i) n ex1 = Inr ex2"
    by (auto split: sum.splits)
  let ?cl = "record_commands ex2 prof q s i (cls ! i)"
  let ?cls1 = "cls[i := ?cl]"
  have i: "i < length cls" "i \<notin> set is" using Cons.prems by auto
  have r: "build_command_lists its ots n prof q s is (ex2, ?cls1) = Inr (ex', cls')"
    using Cons.prems(1) b1 b2 i by simp
  have d: "distinct is" using Cons.prems by simp
  have b: "\<forall>j\<in>set is. j < length ?cls1" using Cons.prems by simp
  from Cons.IH [OF r d b]
  have len: "length cls' = length ?cls1"
   and keep: "\<forall>j<length ?cls1. j \<notin> set is \<longrightarrow> cls' ! j = ?cls1 ! j"
   and built: "\<forall>j\<in>set is. closed (cls' ! j)
                \<and> (\<not> s \<longrightarrow> SignalEvent j \<in> set (instructions (cls' ! j)))"
    by blast+
  have here: "cls' ! i = ?cl" using keep i by simp
  have "closed (cls' ! i) \<and> (\<not> s \<longrightarrow> SignalEvent i \<in> set (instructions (cls' ! i)))"
    unfolding here by (simp add: signal_record_commands)
  with built have built': "\<forall>j\<in>set (i # is). closed (cls' ! j)
                \<and> (\<not> s \<longrightarrow> SignalEvent j \<in> set (instructions (cls' ! j)))"
    by simp
  have keep': "\<forall>j<length cls. j \<notin> set (i # is) \<longrightarrow> cls' ! j = cls ! j"
    using keep by (simp add: nth_list_update)
  show ?case using len keep' built' by simp
qed

lemma new_Pipeline_wf:
  assumes "new_Pipeline ex pc q prof its ots n s = Inr p"
  shows "pipeline_wf p"
proof -
  let ?k = "unat n"
  let ?cls0 = "map (\<lambda>i. new_CommandList (ex_group_ordinal ex)
                              (ex_mutable_command_list_version ex \<noteq> 0)) [0..<?k]"
  from assms obtain ex' cls
    where b: "build_command_lists its ots n prof q s [0..<?k] (ex, ?cls0) = Inr (ex', cls)"
      and p: "p = \<lparr>executor = ex',
                   event_pool_size = (if n \<noteq> 0 then ucast n else 1),
                   command_lists = cls,
                   events = map (\<lambda>i. new_Event (of_nat i)) [0..<?k],
                   fences = map (\<lambda>i. new_Fence) [0..<?k],
                   sync_output_with_fences = s,
                   npu_profiling = prof, profiling_query_created = pc, submitted = []\<rparr>"
    by (auto simp: new_Pipeline_def Let_def split: sum.splits)
  have d: "distinct [0..<?k]" by simp
  have r: "\<forall>i\<in>set [0..<?k]. i < length ?cls0" by simp
  from build_command_lists_shape [OF b d r]
  show ?thesis by (simp add: pipeline_wf_def p)
qed

lemma rounds_ok:
  "pipeline_wf p \<Longrightarrow>
     \<exists>q. rounds n p = Inr q \<and> pipeline_wf q \<and> command_lists q = command_lists p
        \<and> executor q = executor p
        \<and> map ev_index (events q) = map ev_index (events p)
        \<and> length (fences q) = length (fences p)"
proof (induction n arbitrary: p)
  case 0
  then show ?case by simp
next
  case (Suc n)
  from reset_push_pull_ok [OF Suc.prems]
  obtain es fs prof where r: "reset_push_pull p
            = Inr (p\<lparr>events := es, fences := fs, npu_profiling := prof,
                     submitted := submitted p @ [0..<length (command_lists p)]\<rparr>)"
      and l: "length es = length (events p)" "map ev_index es = map ev_index (events p)"
             "length fs = length (fences p)"
    by blast
  let ?p1 = "p\<lparr>events := es, fences := fs, npu_profiling := prof,
                     submitted := submitted p @ [0..<length (command_lists p)]\<rparr>"
  have wf1: "pipeline_wf ?p1"
    using Suc.prems l by (simp add: pipeline_wf_def)
  from Suc.IH [OF wf1] obtain q
    where q: "rounds n ?p1 = Inr q" "pipeline_wf q" "command_lists q = command_lists ?p1"
        "executor q = executor ?p1"
        "map ev_index (events q) = map ev_index (events ?p1)"
        "length (fences q) = length (fences ?p1)"
    by blast
  show ?case
    using r q l by (intro exI [of _ q]) simp
qed

text \<open>
  Claim C8. A constructed pipeline is well formed, and on a well-formed pipeline
  \<open>reset\<close> changes only the signal state: in fence mode every fence, in event mode every
  event of an index below the number of command lists is unsignalled afterwards, the
  other kind is untouched, and the command lists, the number of events and fences and the
  events' pool indices are the same. Any number of rounds \<open>reset(); push(); pull()\<close>
  returns, every wait ending, on the same command lists, events and fences.
\<close>

theorem reset_push_pull_repeatable:
  "(new_Pipeline ex pool_created query profiling inputTensorsData outputTensorsData
      numberOfCommandLists sync_fences = Inr p0 \<longrightarrow> pipeline_wf p0)
   \<and> (pipeline_wf p \<longrightarrow>
        (\<exists>es fs. reset p = Inr (p\<lparr>events := es, fences := fs\<rparr>)
            \<and> length es = length (events p) \<and> map ev_index es = map ev_index (events p)
            \<and> length fs = length (fences p)
            \<and> (if sync_output_with_fences p
                then es = events p \<and> (\<forall>i<length (command_lists p). \<not> f_signaled (fs ! i))
                else fs = fences p \<and> (\<forall>i<length (command_lists p). \<not> ev_signaled (es ! i))))
        \<and> (\<forall>n. \<exists>q. rounds n p = Inr q \<and> pipeline_wf q
               \<and> command_lists q = command_lists p \<and> executor q = executor p
               \<and> map ev_index (events q) = map ev_index (events p)
               \<and> length (fences q) = length (fences p)))"
proof (intro conjI impI allI)
  assume "new_Pipeline ex pool_created query profiling inputTensorsData outputTensorsData
            numberOfCommandLists sync_fences = Inr p0"
  then show "pipeline_wf p0" by (rule new_Pipeline_wf)
next
  assume wf: "pipeline_wf p"
  let ?n = "length (command_lists p)"
  have le: "length (events p) = ?n" and lf: "length (fences p) = ?n"
    using wf by (simp_all add: pipeline_wf_def)
  show "\<exists>es fs. reset p = Inr (p\<lparr>events := es, fences := fs\<rparr>)
            \<and> length es = length (events p) \<and> map ev_index es = map ev_index (events p)
            \<and> length fs = length (fences p)
            \<and> (if sync_output_with_fences p
                then es = events p \<and> (\<forall>i<length (command_lists p). \<not> f_signaled (fs ! i))
                else fs = fences p \<and> (\<forall>i<length (command_lists p). \<not> ev_signaled (es ! i)))"
  proof (cases "sync_output_with_fences p")
    case True
    from reset_loop_fences [OF True, of "[0..<?n]"] lf
    obtain fs where fs: "reset_loop [0..<?n] p = Inr (p\<lparr>fences := fs\<rparr>)"
        "length fs = length (fences p)"
        "\<forall>j<length (fences p). fs ! j = (if j \<in> set [0..<?n] then Fence_reset (fences p ! j)
                                             else fences p ! j)"
      by auto
    have "\<forall>i<?n. \<not> f_signaled (fs ! i)"
      using fs(3) lf by (simp add: Fence_reset_def)
    then show ?thesis using fs True
      by (intro exI [of _ "events p"] exI [of _ fs]) (simp add: reset_def)
  next
    case False
    from reset_loop_events [OF False, of "[0..<?n]"] le
    obtain es where es: "reset_loop [0..<?n] p = Inr (p\<lparr>events := es\<rparr>)"
        "length es = length (events p)"
        "\<forall>j<length (events p). es ! j = (if j \<in> set [0..<?n] then Event_reset (events p ! j)
                                             else events p ! j)"
      by auto
    have m: "map ev_index es = map ev_index (events p)"
      using es(2,3) by (intro nth_equalityI) (simp_all add: Event_reset_def)
    have "\<forall>i<?n. \<not> ev_signaled (es ! i)"
      using es(3) le by (simp add: Event_reset_def)
    then show ?thesis using es m False
      by (intro exI [of _ es] exI [of _ "fences p"]) (simp add: reset_def)
  qed
next
  fix n
  assume wf: "pipeline_wf p"
  then show "\<exists>q. rounds n p = Inr q \<and> pipeline_wf q
               \<and> command_lists q = command_lists p \<and> executor q = executor p
               \<and> map ev_index (events q) = map ev_index (events p)
               \<and> length (fences q) = length (fences p)"
    by (rule rounds_ok)
qed

theorem reset_push_pull_repeatable_witness:
  "pipeline_wf ex_pipeline \<and> pipeline_wf ex_signaled_pipeline
   \<and> (\<exists>es. reset ex_signaled_pipeline
             = Inr (ex_signaled_pipeline\<lparr>events := es, fences := fences ex_signaled_pipeline\<rparr>)
          \<and> length es = 2 \<and> \<not> ev_signaled (es ! 0) \<and> \<not> ev_signaled (es ! 1))
   \<and> (\<exists>q. rounds 3 ex_signaled_pipeline = Inr q
          \<and> command_lists q = command_lists ex_signaled_pipeline)"
proof -
  have wf: "pipeline_wf ex_signaled_pipeline"
    by (simp add: pipeline_wf_def ex_signaled_pipeline_def ex_pipeline_def ex_command_list_def
          All_less_Suc)
  note T = reset_push_pull_repeatable [of _ _ _ _ _ _ _ _ _ ex_signaled_pipeline]
  have s: "\<not> sync_output_with_fences ex_signaled_pipeline"
    by (simp add: ex_signaled_pipeline_def ex_pipeline_def)
  have l: "length (command_lists ex_signaled_pipeline) = 2"
          "length (events ex_signaled_pipeline) = 2"
    by (simp_all add: ex_signaled_pipeline_def ex_pipeline_def)
  from conjunct2 [OF T] wf
  obtain es fs where r: "reset ex_signaled_pipeline
                           = Inr (ex_signaled_pipeline\<lparr>events := es, fences := fs\<rparr>)"
      and e: "length es = length (events ex_signaled_pipeline)"
      and u: "if sync_output_with_fences ex_signaled_pipeline
                then es = events ex_signaled_pipeline
                     \<and> (\<forall>i<length (command_lists ex_signaled_pipeline). \<not> f_signaled (fs ! i))
                else fs = fences ex_signaled_pipeline
                     \<and> (\<forall>i<length (command_lists ex_signaled_pipeline). \<not> ev_signaled (es ! i))"
    by blast
  from u s l have f: "fs = fences ex_signaled_pipeline"
      and n: "\<not> ev_signaled (es ! 0)" "\<not> ev_signaled (es ! 1)"
    by simp_all
  have a: "\<exists>es. reset ex_signaled_pipeline
             = Inr (ex_signaled_pipeline\<lparr>events := es, fences := fences ex_signaled_pipeline\<rparr>)
          \<and> length es = 2 \<and> \<not> ev_signaled (es ! 0) \<and> \<not> ev_signaled (es ! 1)"
    using r e l f n by (intro exI [of _ es]) simp
  from conjunct2 [OF T] wf
  have "\<forall>n. \<exists>q. rounds n ex_signaled_pipeline = Inr q \<and> pipeline_wf q
               \<and> command_lists q = command_lists ex_signaled_pipeline
               \<and> executor q = executor ex_signaled_pipeline
               \<and> map ev_index (events q) = map ev_index (events ex_signaled_pipeline)
               \<and> length (fences q) = length (fences ex_signaled_pipeline)"
    by blast
  then have b: "\<exists>q. rounds 3 ex_signaled_pipeline = Inr q
          \<and> command_lists q = command_lists ex_signaled_pipeline"
    by blast
  have c: "pipeline_wf ex_pipeline"
    using conjunct1 [OF reset_push_pull_repeatable
                          [of ex_executor False None None "[Some ex_input]" "[Some ex_output]"
                              2 False ex_pipeline]]
          ex_pipeline_constructed
    by simp
  show ?thesis using c wf a b by simp
qed

end
